theory Spec2Isabelle
  imports Main
begin

section \<open>Data model\<close>

text \<open>
  The development embeds \<^verbatim>\<open>basedb.py\<close> (class \<^verbatim>\<open>DbDriver\<close>) and \<^verbatim>\<open>historian.py\<close>
  (class \<^verbatim>\<open>SQLHistorian\<close>). The caches are Python dictionaries and become maps. A
  metadata dictionary is only ever compared (\<^verbatim>\<open>old_meta != meta\<close>), tested for emptiness
  (\<^verbatim>\<open>topic and meta\<close>) and handed on, never read or changed; it is represented by the list
  of its items in the order of their keys, so that equality of dictionaries is equality of
  lists and \<^verbatim>\<open>{}\<close> is the empty list.
\<close>

type_synonym metadata = "(string \<times> string) list"

text \<open>
  Exceptions. \<^verbatim>\<open>sqlite3.OperationalError\<close> carries its message (\<^verbatim>\<open>str(e)\<close>);
  \<open>DatabaseError\<close> stands for any other exception class of a DB-API module (they derive
  from \<^verbatim>\<open>Exception\<close>); \<open>ConnectionError e\<close> is \<^verbatim>\<open>basedb.ConnectionError(e)\<close> and
  \<open>ConnectionErrorUnknown\<close> is \<^verbatim>\<open>ConnectionError("Unknown error. Could not connect to database")\<close>.
  The code tells exceptions apart in two more ways, and the remaining constructors cover
  the four combinations. \<^verbatim>\<open>closing\<close> catches \<^verbatim>\<open>BaseException\<close> and asks whether the module
  of the class is \<^verbatim>\<open>builtins\<close>; \<^verbatim>\<open>DbDriver.cursor\<close> and \<^verbatim>\<open>publish_to_historian\<close> catch
  \<^verbatim>\<open>Exception\<close> only. \<open>BuiltinError\<close> is a class of \<^verbatim>\<open>builtins\<close> that derives from
  \<^verbatim>\<open>Exception\<close> (\<^verbatim>\<open>ValueError\<close>, \<^verbatim>\<open>TypeError\<close>); \<open>BuiltinBaseException\<close> is a class of
  \<^verbatim>\<open>builtins\<close> that does not (\<^verbatim>\<open>KeyboardInterrupt\<close>, \<^verbatim>\<open>SystemExit\<close>, \<^verbatim>\<open>GeneratorExit\<close>);
  \<open>OtherBaseException\<close> is a class of another module that derives from \<^verbatim>\<open>BaseException\<close>
  directly (\<^verbatim>\<open>gevent.Timeout\<close>).
\<close>

datatype exn =
    OperationalError string
  | DatabaseError string
  | BuiltinError string
  | BuiltinBaseException string
  | OtherBaseException string
  | ConnectionError exn
  | ConnectionErrorUnknown

text \<open>\<^verbatim>\<open>exc.__class__.__module__ == 'builtins'\<close>\<close>

fun is_builtin :: "exn \<Rightarrow> bool" where
  "is_builtin (BuiltinError _) = True"
| "is_builtin (BuiltinBaseException _) = True"
| "is_builtin _ = False"

text \<open>\<^verbatim>\<open>isinstance(exc, Exception)\<close>: what an \<^verbatim>\<open>except Exception\<close> clause catches.\<close>

fun is_exception :: "exn \<Rightarrow> bool" where
  "is_exception (BuiltinBaseException _) = False"
| "is_exception (OtherBaseException _) = False"
| "is_exception _ = True"

text \<open>
  A statement is the query string produced by one of the abstract \<^verbatim>\<open>*_query\<close> /
  \<^verbatim>\<open>*_stmt\<close> methods together with the argument tuple passed to \<^verbatim>\<open>cursor.execute\<close>.
  The constructors carry the names of those methods; \<^verbatim>\<open>jsonapi.dumps\<close> of a value is the
  value itself.
\<close>

datatype stmt =
    insert_topic_query string
  | insert_topic_and_meta_query string metadata
  | update_topic_query string nat
  | update_topic_and_meta_query string metadata nat
  | insert_meta_query nat metadata
  | update_meta_query metadata nat
  | insert_data_query int nat string
  | replace_agg_meta_stmt nat metadata

text \<open>
  The DB-API objects (the connection factory, the connection, its cursors) are not part of
  the repository. They are modelled by the calls the driver makes on them and by what each
  call answers: the \<open>n\<close>-th call made on the backend is answered by \<open>replies n\<close>, which
  either returns or raises. \<open>Returns n\<close> carries the number read afterwards from
  \<^verbatim>\<open>cursor.lastrowid\<close> or \<^verbatim>\<open>cursor.rowcount\<close>; \<open>ReturnsNone\<close> is a connection factory
  answering \<^verbatim>\<open>None\<close> (for every other call it is an ordinary return, read as 0).
\<close>

datatype call = Connect | GetCursor | Execute stmt | CloseCursor | Commit | Rollback

datatype reply = Returns nat | ReturnsNone | Raises exn

text \<open>
  A connection holds the statements executed in its open transaction. A successful
  \<^verbatim>\<open>commit\<close> moves them to the durable store \<open>committed\<close>, a successful \<^verbatim>\<open>rollback\<close>
  discards them, and a call that raises changes nothing.
\<close>

record dbconn =
  pending :: "stmt list"
  closed :: bool

datatype logmsg =
    WarnCursorException
  | ErrCouldNotConnect
  | ExcClosingCursor
  | ErrDatabaseLocked
  | WarnCommitConnectionNull
  | WarnRollbackConnectionNull
  | WarnCommitError nat
  | WarnUnableToPublish nat
  | WarnNoSuchTopic string
  | WarnNoTopicIds "string list"

text \<open>
  A \<^verbatim>\<open>DbDriver\<close> instance: \<open>connection\<close> is \<^verbatim>\<open>self.__connection\<close>, \<open>stash_cursor\<close> is
  \<^verbatim>\<open>self.stash.cursor\<close> (a cursor is named by the position of the call that created it),
  \<open>topics_table\<close> and \<open>meta_table\<close> are the attributes set by the concrete dialect. The
  last four fields are the world the driver talks to: the durable store, the answers of the
  backend, the calls made so far with their answers, and the records written to the module
  logger at warning level or above.
\<close>

record driver =
  connection :: "dbconn option"
  stash_cursor :: "nat option"
  topics_table :: string
  meta_table :: string
  committed :: "stmt list"
  replies :: "nat \<Rightarrow> reply"
  trace :: "(call \<times> reply) list"
  dlog :: "logmsg list"

section \<open>basedb.py: DbDriver\<close>

definition dbapi :: "call \<Rightarrow> driver \<Rightarrow> reply \<times> driver" where
  "dbapi c d =
     (let r = replies d (length (trace d)) in (r, d\<lparr>trace := trace d @ [(c, r)]\<rparr>))"

fun returned :: "reply \<Rightarrow> nat" where
  "returned (Returns n) = n"
| "returned _ = 0"

text \<open>\<^verbatim>\<open>self.__connection.cursor()\<close>\<close>

definition connection_cursor :: "driver \<Rightarrow> (exn + nat) \<times> driver" where
  "connection_cursor d =
     (case dbapi GetCursor d of
        (Raises e, d') \<Rightarrow> (Inl e, d')
      | (_, d') \<Rightarrow> (Inr (length (trace d)), d'))"

text \<open>\<^verbatim>\<open>cursor.execute(query, args)\<close> on a cursor of the driver's connection.\<close>

definition cursor_execute :: "stmt \<Rightarrow> driver \<Rightarrow> (exn + nat) \<times> driver" where
  "cursor_execute s d =
     (case dbapi (Execute s) d of
        (Raises e, d') \<Rightarrow> (Inl e, d')
      | (r, d') \<Rightarrow>
          (Inr (returned r),
           d'\<lparr>connection := map_option (\<lambda>c. c\<lparr>pending := pending c @ [s]\<rparr>) (connection d')\<rparr>))"

text \<open>
  \<^verbatim>\<open>closing(obj)\<close>, on leaving the \<^verbatim>\<open>with\<close> block with the result \<open>body\<close>: the cursor is
  closed; an exception of \<^verbatim>\<open>close\<close> replaces the result when its class is a builtin one,
  and is logged and dropped otherwise.
\<close>

definition closing :: "(exn + 'a) \<Rightarrow> driver \<Rightarrow> (exn + 'a) \<times> driver" where
  "closing body d =
     (case dbapi CloseCursor d of
        (Raises exc, d') \<Rightarrow>
          (if is_builtin exc then (Inl exc, d')
           else (body, d'\<lparr>dlog := dlog d' @ [ExcClosingCursor]\<rparr>))
      | (_, d') \<Rightarrow> (body, d'))"

text \<open>
  \<^verbatim>\<open>DbDriver.cursor\<close>, lines 129 to 141: drop the connection and connect again. The
  \<^verbatim>\<open>except Exception as e\<close> around the factory wraps what it catches in a
  \<^verbatim>\<open>ConnectionError\<close>; an exception outside \<^verbatim>\<open>Exception\<close> passes through as it is.
\<close>

definition reconnect :: "driver \<Rightarrow> (exn + nat) \<times> driver" where
  "reconnect d0 =
     (let d = d0\<lparr>connection := None\<rparr> in
      case dbapi Connect d of
        (Raises e, d1) \<Rightarrow>
          (if is_exception e
           then (Inl (ConnectionError e), d1\<lparr>dlog := dlog d1 @ [ErrCouldNotConnect]\<rparr>)
           else (Inl e, d1))
      | (ReturnsNone, d1) \<Rightarrow> (Inl ConnectionErrorUnknown, d1)
      | (Returns _, d1) \<Rightarrow>
          (case connection_cursor (d1\<lparr>connection := Some \<lparr>pending = [], closed = False\<rparr>\<rparr>) of
             (Inl e, d2) \<Rightarrow> (Inl e, d2)
           | (Inr cur, d2) \<Rightarrow> (Inr cur, d2\<lparr>stash_cursor := Some cur\<rparr>)))"

text \<open>
  \<^verbatim>\<open>DbDriver.cursor\<close>. The \<^verbatim>\<open>except Exception\<close> around \<^verbatim>\<open>self.__connection.cursor()\<close>
  logs a warning and falls through to the reconnection; an exception outside \<^verbatim>\<open>Exception\<close>
  leaves the method at once, the connection kept.
\<close>

definition cursor :: "driver \<Rightarrow> (exn + nat) \<times> driver" where
  "cursor d0 =
     (let d = d0\<lparr>stash_cursor := None\<rparr> in
      if (case connection d of None \<Rightarrow> False | Some c \<Rightarrow> \<not> closed c) then
        (case connection_cursor d of
           (Inr cur, d1) \<Rightarrow> (Inr cur, d1\<lparr>stash_cursor := Some cur\<rparr>)
         | (Inl e, d1) \<Rightarrow>
             (if is_exception e
              then reconnect (d1\<lparr>dlog := dlog d1 @ [WarnCursorException]\<rparr>)
              else (Inl e, d1)))
      else reconnect d)"

text \<open>\<^verbatim>\<open>"database is locked" in str(e)\<close>\<close>

fun is_prefix :: "string \<Rightarrow> string \<Rightarrow> bool" where
  "is_prefix [] ys = True"
| "is_prefix (x # xs) [] = False"
| "is_prefix (x # xs) (y # ys) = (x = y \<and> is_prefix xs ys)"

fun contains :: "string \<Rightarrow> string \<Rightarrow> bool" where
  "contains xs [] = (xs = [])"
| "contains xs (y # ys) = (is_prefix xs (y # ys) \<or> contains xs ys)"

text \<open>\<^verbatim>\<open>DbDriver.commit\<close>\<close>

definition commit :: "driver \<Rightarrow> (exn + bool) \<times> driver" where
  "commit d =
     (case connection d of
        Some c \<Rightarrow>
          (case dbapi Commit d of
             (Raises e, d') \<Rightarrow>
               (case e of
                  OperationalError msg \<Rightarrow>
                    (if contains ''database is locked'' msg
                     then (Inl e, d'\<lparr>dlog := dlog d' @ [ErrDatabaseLocked]\<rparr>)
                     else (Inl e, d'))
                | _ \<Rightarrow> (Inl e, d'))
           | (_, d') \<Rightarrow>
               (Inr True,
                d'\<lparr>committed := committed d' @ pending c,
                   connection := Some (c\<lparr>pending := []\<rparr>)\<rparr>))
      | None \<Rightarrow> (Inr False, d\<lparr>dlog := dlog d @ [WarnCommitConnectionNull]\<rparr>))"

text \<open>\<^verbatim>\<open>DbDriver.rollback\<close>\<close>

definition rollback :: "driver \<Rightarrow> (exn + bool) \<times> driver" where
  "rollback d =
     (case connection d of
        Some c \<Rightarrow>
          (case dbapi Rollback d of
             (Raises e, d') \<Rightarrow> (Inl e, d')
           | (_, d') \<Rightarrow> (Inr True, d'\<lparr>connection := Some (c\<lparr>pending := []\<rparr>)\<rparr>))
      | None \<Rightarrow> (Inr False, d\<lparr>dlog := dlog d @ [WarnRollbackConnectionNull]\<rparr>))"

text \<open>
  \<^verbatim>\<open>DbDriver.execute_stmt\<close>. The cursor is acquired before the \<^verbatim>\<open>with closing(...)\<close>
  block is entered, so a failure of \<^verbatim>\<open>self.cursor()\<close> closes nothing.
\<close>

definition execute_stmt :: "stmt \<Rightarrow> bool \<Rightarrow> driver \<Rightarrow> (exn + nat) \<times> driver" where
  "execute_stmt s do_commit d =
     (case cursor d of
        (Inl e, d1) \<Rightarrow> (Inl e, d1)
      | (Inr cur, d1) \<Rightarrow>
          (case cursor_execute s d1 of
             (Inl e, d2) \<Rightarrow> closing (Inl e) d2
           | (Inr rowcount, d2) \<Rightarrow>
               (if do_commit then
                  (case commit d2 of
                     (Inl e, d3) \<Rightarrow> closing (Inl e) d3
                   | (Inr _, d3) \<Rightarrow> closing (Inr rowcount) d3)
                else closing (Inr rowcount) d2)))"

text \<open>The truth value of an optional keyword argument \<^verbatim>\<open>metadata\<close>.\<close>

fun truthy_meta :: "metadata option \<Rightarrow> bool" where
  "truthy_meta None = False"
| "truthy_meta (Some m) = (m \<noteq> [])"

fun meta_or_empty :: "metadata option \<Rightarrow> metadata" where
  "meta_or_empty None = []"
| "meta_or_empty (Some m) = m"

text \<open>\<^verbatim>\<open>DbDriver.insert_meta\<close>, \<^verbatim>\<open>update_meta\<close>, \<^verbatim>\<open>insert_data\<close>, \<^verbatim>\<open>insert_agg_meta\<close>\<close>

definition insert_meta :: "nat \<Rightarrow> metadata \<Rightarrow> driver \<Rightarrow> (exn + bool) \<times> driver" where
  "insert_meta topic_id metadata d =
     (case execute_stmt (insert_meta_query topic_id metadata) False d of
        (Inl e, d') \<Rightarrow> (Inl e, d')
      | (Inr _, d') \<Rightarrow> (Inr True, d'))"

definition update_meta :: "nat \<Rightarrow> metadata \<Rightarrow> driver \<Rightarrow> (exn + bool) \<times> driver" where
  "update_meta topic_id metadata d =
     (case execute_stmt (update_meta_query metadata topic_id) False d of
        (Inl e, d') \<Rightarrow> (Inl e, d')
      | (Inr _, d') \<Rightarrow> (Inr True, d'))"

definition insert_data :: "int \<Rightarrow> nat \<Rightarrow> string \<Rightarrow> driver \<Rightarrow> (exn + bool) \<times> driver" where
  "insert_data ts topic_id data d =
     (case execute_stmt (insert_data_query ts topic_id data) False d of
        (Inl e, d') \<Rightarrow> (Inl e, d')
      | (Inr _, d') \<Rightarrow> (Inr True, d'))"

definition insert_agg_meta :: "nat \<Rightarrow> metadata \<Rightarrow> driver \<Rightarrow> (exn + bool) \<times> driver" where
  "insert_agg_meta topic_id metadata d =
     (case execute_stmt (replace_agg_meta_stmt topic_id metadata) False d of
        (Inl e, d') \<Rightarrow> (Inl e, d')
      | (Inr _, d') \<Rightarrow> (Inr True, d'))"

text \<open>\<^verbatim>\<open>DbDriver.insert_topic\<close>: returns \<^verbatim>\<open>cursor.lastrowid\<close>.\<close>

definition insert_topic :: "string \<Rightarrow> metadata option \<Rightarrow> driver \<Rightarrow> (exn + nat) \<times> driver" where
  "insert_topic topic metadata d =
     (let query =
        (if meta_table d = topics_table d \<and> topic \<noteq> [] \<and> truthy_meta metadata
         then insert_topic_and_meta_query topic (meta_or_empty metadata)
         else insert_topic_query topic)
      in case cursor d of
           (Inl e, d1) \<Rightarrow> (Inl e, d1)
         | (Inr cur, d1) \<Rightarrow>
             (case cursor_execute query d1 of
                (Inl e, d2) \<Rightarrow> closing (Inl e) d2
              | (Inr lastrowid, d2) \<Rightarrow> closing (Inr lastrowid) d2))"

text \<open>\<^verbatim>\<open>DbDriver.update_topic\<close>\<close>

definition update_topic :: "string \<Rightarrow> nat \<Rightarrow> metadata option \<Rightarrow> driver \<Rightarrow> (exn + bool) \<times> driver" where
  "update_topic topic topic_id metadata d =
     (case
        (if meta_table d = topics_table d \<and> topic \<noteq> [] \<and> truthy_meta metadata
         then execute_stmt (update_topic_and_meta_query topic (meta_or_empty metadata) topic_id) False d
         else execute_stmt (update_topic_query topic topic_id) False d)
      of (Inl e, d') \<Rightarrow> (Inl e, d')
       | (Inr _, d') \<Rightarrow> (Inr True, d'))"

section \<open>historian.py: SQLHistorian\<close>

text \<open>\<^verbatim>\<open>str.lower\<close> on the letters A to Z; every other character is left as it is.\<close>

definition lower_char :: "char \<Rightarrow> char" where
  "lower_char c =
     (if (65::nat) \<le> of_char c \<and> of_char c \<le> (90::nat) then char_of (of_char c + (32::nat)) else c)"

definition lower :: "string \<Rightarrow> string" where
  "lower s = map lower_char s"

text \<open>One element of \<^verbatim>\<open>to_publish_list\<close>.\<close>

record publish_item =
  timestamp :: int
  topic :: string
  val :: string
  meta :: metadata

text \<open>
  The historian: the three caches, the aggregate cache, the driver of the publishing
  thread, whether \<^verbatim>\<open>report_all_handled\<close> of the base historian has been called, and the
  records written to the module logger at warning level or above.
\<close>

record historian =
  topic_id_map :: "string \<rightharpoonup> nat"
  topic_name_map :: "string \<rightharpoonup> string"
  topic_meta :: "nat \<rightharpoonup> metadata"
  agg_topic_id_map :: "(string \<times> string \<times> string option) \<rightharpoonup> nat"
  bg_thread_dbutils :: driver
  all_handled :: bool
  hlog :: "logmsg list"

text \<open>\<^verbatim>\<open>self.topic_meta.get(topic_id, {})\<close>, where \<^verbatim>\<open>topic_id\<close> may be \<^verbatim>\<open>None\<close>.\<close>

definition meta_get :: "(nat \<rightharpoonup> metadata) \<Rightarrow> nat option \<Rightarrow> metadata" where
  "meta_get m topic_id =
     (case topic_id of
        None \<Rightarrow> []
      | Some i \<Rightarrow> (case m i of None \<Rightarrow> [] | Some md \<Rightarrow> md))"

text \<open>
  \<^verbatim>\<open>publish_to_historian\<close>, lines 183 to 200: the topic id of the record and the flag
  \<^verbatim>\<open>update_topic_meta\<close>.
\<close>

definition resolve_topic ::
  "publish_item \<Rightarrow> metadata \<Rightarrow> historian \<Rightarrow> (exn + nat \<times> bool) \<times> historian" where
  "resolve_topic x old_meta h =
     (let lowercase_name = lower (topic x) in
      case topic_id_map h lowercase_name of
        None \<Rightarrow>
          (case insert_topic (topic x) (Some (meta x)) (bg_thread_dbutils h) of
             (Inl e, d) \<Rightarrow> (Inl e, h\<lparr>bg_thread_dbutils := d\<rparr>)
           | (Inr topic_id, d) \<Rightarrow>
               (Inr (topic_id, False),
                h\<lparr>bg_thread_dbutils := d,
                  topic_name_map := (topic_name_map h)(lowercase_name \<mapsto> topic x),
                  topic_id_map := (topic_id_map h)(lowercase_name \<mapsto> topic_id)\<rparr>))
      | Some topic_id \<Rightarrow>
          (if topic_name_map h lowercase_name \<noteq> Some (topic x) then
             (if old_meta \<noteq> meta x then
                (case update_topic (topic x) topic_id (Some (meta x)) (bg_thread_dbutils h) of
                   (Inl e, d) \<Rightarrow> (Inl e, h\<lparr>bg_thread_dbutils := d\<rparr>)
                 | (Inr _, d) \<Rightarrow>
                     (Inr (topic_id, False),
                      h\<lparr>bg_thread_dbutils := d,
                        topic_name_map := (topic_name_map h)(lowercase_name \<mapsto> topic x)\<rparr>))
              else
                (case update_topic (topic x) topic_id None (bg_thread_dbutils h) of
                   (Inl e, d) \<Rightarrow> (Inl e, h\<lparr>bg_thread_dbutils := d\<rparr>)
                 | (Inr _, d) \<Rightarrow>
                     (Inr (topic_id, True),
                      h\<lparr>bg_thread_dbutils := d,
                        topic_name_map := (topic_name_map h)(lowercase_name \<mapsto> topic x)\<rparr>)))
           else (Inr (topic_id, True), h)))"

text \<open>\<^verbatim>\<open>publish_to_historian\<close>, lines 202 to 214.\<close>

definition write_meta ::
  "publish_item \<Rightarrow> metadata \<Rightarrow> nat \<Rightarrow> bool \<Rightarrow> historian \<Rightarrow> (exn + unit) \<times> historian" where
  "write_meta x old_meta topic_id update_topic_meta h =
     (if old_meta \<noteq> meta x then
        (if topics_table (bg_thread_dbutils h) \<noteq> meta_table (bg_thread_dbutils h) then
           (case insert_meta topic_id (meta x) (bg_thread_dbutils h) of
              (Inl e, d) \<Rightarrow> (Inl e, h\<lparr>bg_thread_dbutils := d\<rparr>)
            | (Inr _, d) \<Rightarrow>
                (Inr (), h\<lparr>bg_thread_dbutils := d,
                           topic_meta := (topic_meta h)(topic_id \<mapsto> meta x)\<rparr>))
         else if update_topic_meta then
           (case update_meta topic_id (meta x) (bg_thread_dbutils h) of
              (Inl e, d) \<Rightarrow> (Inl e, h\<lparr>bg_thread_dbutils := d\<rparr>)
            | (Inr _, d) \<Rightarrow>
                (Inr (), h\<lparr>bg_thread_dbutils := d,
                           topic_meta := (topic_meta h)(topic_id \<mapsto> meta x)\<rparr>))
         else (Inr (), h\<lparr>topic_meta := (topic_meta h)(topic_id \<mapsto> meta x)\<rparr>))
      else (Inr (), h))"

text \<open>\<^verbatim>\<open>publish_to_historian\<close>, lines 216 and 217.\<close>

definition write_data :: "publish_item \<Rightarrow> nat \<Rightarrow> nat \<Rightarrow> historian \<Rightarrow> (exn + nat) \<times> historian" where
  "write_data x topic_id published h =
     (case insert_data (timestamp x) topic_id (val x) (bg_thread_dbutils h) of
        (Inl e, d) \<Rightarrow> (Inl e, h\<lparr>bg_thread_dbutils := d\<rparr>)
      | (Inr ok, d) \<Rightarrow>
          (Inr (if ok then published + 1 else published), h\<lparr>bg_thread_dbutils := d\<rparr>))"

text \<open>The body of the \<^verbatim>\<open>for\<close> loop, lines 172 to 217.\<close>

definition publish_record :: "publish_item \<Rightarrow> nat \<Rightarrow> historian \<Rightarrow> (exn + nat) \<times> historian" where
  "publish_record x published h =
     (let old_meta = meta_get (topic_meta h) (topic_id_map h (lower (topic x))) in
      case resolve_topic x old_meta h of
        (Inl e, h1) \<Rightarrow> (Inl e, h1)
      | (Inr (topic_id, update_topic_meta), h1) \<Rightarrow>
          (case write_meta x old_meta topic_id update_topic_meta h1 of
             (Inl e, h2) \<Rightarrow> (Inl e, h2)
           | (Inr _, h2) \<Rightarrow> write_data x topic_id published h2))"

fun publish_loop :: "publish_item list \<Rightarrow> nat \<Rightarrow> historian \<Rightarrow> (exn + nat) \<times> historian" where
  "publish_loop [] published h = (Inr published, h)"
| "publish_loop (x # xs) published h =
     (case publish_record x published h of
        (Inl e, h') \<Rightarrow> (Inl e, h')
      | (Inr published', h') \<Rightarrow> publish_loop xs published' h')"

text \<open>\<^verbatim>\<open>publish_to_historian\<close>, lines 219 to 227.\<close>

definition after_batch :: "nat \<Rightarrow> nat \<Rightarrow> historian \<Rightarrow> (exn + unit) \<times> historian" where
  "after_batch published batch_len h =
     (if published \<noteq> 0 then
        (case commit (bg_thread_dbutils h) of
           (Inl e, d) \<Rightarrow> (Inl e, h\<lparr>bg_thread_dbutils := d\<rparr>)
         | (Inr True, d) \<Rightarrow> (Inr (), h\<lparr>bg_thread_dbutils := d, all_handled := True\<rparr>)
         | (Inr False, d) \<Rightarrow>
             (case rollback d of
                (Inl e, d') \<Rightarrow>
                  (Inl e, h\<lparr>bg_thread_dbutils := d', hlog := hlog h @ [WarnCommitError published]\<rparr>)
              | (Inr _, d') \<Rightarrow>
                  (Inr (), h\<lparr>bg_thread_dbutils := d', hlog := hlog h @ [WarnCommitError published]\<rparr>)))
      else (Inr (), h\<lparr>hlog := hlog h @ [WarnUnableToPublish batch_len]\<rparr>))"

text \<open>The \<^verbatim>\<open>try\<close> block, lines 167 to 227.\<close>

definition publish_body :: "publish_item list \<Rightarrow> historian \<Rightarrow> (exn + unit) \<times> historian" where
  "publish_body to_publish_list h =
     (case publish_loop to_publish_list 0 h of
        (Inl e, h1) \<Rightarrow> (Inl e, h1)
      | (Inr published, h1) \<Rightarrow> after_batch published (length to_publish_list) h1)"

text \<open>
  \<^verbatim>\<open>SQLHistorian.publish_to_historian\<close>: the handler is an \<^verbatim>\<open>except Exception\<close> clause. It
  rolls back and re-raises; an exception of \<^verbatim>\<open>rollback\<close> itself leaves the handler in place
  of the one being handled. An exception outside \<^verbatim>\<open>Exception\<close> is not caught and leaves the
  method with no call made.
\<close>

definition publish_to_historian :: "publish_item list \<Rightarrow> historian \<Rightarrow> (exn + unit) \<times> historian" where
  "publish_to_historian to_publish_list h =
     (case publish_body to_publish_list h of
        (Inr u, h') \<Rightarrow> (Inr u, h')
      | (Inl e, h') \<Rightarrow>
          (if is_exception e then
             (case rollback (bg_thread_dbutils h') of
                (Inl e', d) \<Rightarrow> (Inl e', h'\<lparr>bg_thread_dbutils := d\<rparr>)
              | (Inr _, d) \<Rightarrow> (Inl e, h'\<lparr>bg_thread_dbutils := d\<rparr>))
           else (Inl e, h')))"

subsection \<open>query_historian\<close>

text \<open>
  The \<^verbatim>\<open>topic\<close> argument is a string, a list of strings, or something else (then
  \<^verbatim>\<open>topics_list\<close> stays empty).
\<close>

datatype topic_arg = Str string | Lst "string list" | Other

fun topics_list_of :: "topic_arg \<Rightarrow> string list" where
  "topics_list_of (Str t) = [t]"
| "topics_list_of (Lst ts) = ts"
| "topics_list_of Other = []"

type_synonym rows = "(int \<times> string) list"

type_synonym agg_key = "string \<times> string \<times> string option"

text \<open>The arguments handed through to the range query of the driver.\<close>

record query_args =
  q_start :: "int option"
  q_end :: "int option"
  q_agg_type :: "string option"
  q_agg_period :: "string option"
  q_skip :: nat
  q_count :: "nat option"
  q_order :: string

text \<open>
  The driver of the main thread is used through two abstract methods only, whose bodies
  belong to the SQL dialects: \<^verbatim>\<open>get_agg_topic_map()\<close>, which returns a dictionary or
  raises, and \<^verbatim>\<open>query(topic_ids, id_name_map, ...)\<close>, which returns a dictionary from topic
  name to rows (in its iteration order) or raises.
\<close>

record main_driver =
  get_agg_topic_map :: "exn + (agg_key \<rightharpoonup> nat)"
  query :: "nat list \<Rightarrow> (nat \<rightharpoonup> string) \<Rightarrow> query_args \<Rightarrow> exn + (string \<times> rows) list"

text \<open>
  The value returned by \<^verbatim>\<open>query_historian\<close> is a dictionary with string keys, written in
  the order of insertion; its values are row lists, dictionaries from topic name to rows,
  or metadata dictionaries.
\<close>

datatype pyvalue = Rows rows | ByTopic "(string \<times> rows) list" | Metadata metadata

type_synonym results = "(string \<times> pyvalue) list"

text \<open>The truth value of \<^verbatim>\<open>agg_type\<close> and of a topic id.\<close>

fun truthy_str :: "string option \<Rightarrow> bool" where
  "truthy_str None = False"
| "truthy_str (Some s) = (s \<noteq> [])"

fun truthy_id :: "nat option \<Rightarrow> bool" where
  "truthy_id None = False"
| "truthy_id (Some i) = (i \<noteq> 0)"

text \<open>
  One round of the \<^verbatim>\<open>for\<close> loop of lines 290 to 306, up to the topic id it finds: the
  aggregate type, lowered, the aggregate cache, and the id.
\<close>

definition lookup_topic ::
  "main_driver \<Rightarrow> string \<Rightarrow> string option \<Rightarrow> string option \<Rightarrow> historian \<Rightarrow>
     exn + (string option \<times> (agg_key \<rightharpoonup> nat) \<times> nat option)" where
  "lookup_topic md t agg_type agg_period h =
     (let topic_lower = lower t in
      case (if truthy_str agg_type then agg_type else None) of
        Some a \<Rightarrow>
          (let key = (topic_lower, lower a, agg_period) in
           case agg_topic_id_map h key of
             Some i \<Rightarrow> Inr (Some (lower a), agg_topic_id_map h, Some i)
           | None \<Rightarrow>
               (case get_agg_topic_map md of
                  Inl e \<Rightarrow> Inl e
                | Inr agg_map \<Rightarrow>
                    Inr (Some (lower a), agg_topic_id_map h ++ agg_map,
                         (agg_topic_id_map h ++ agg_map) key)))
      | None \<Rightarrow> Inr (agg_type, agg_topic_id_map h, topic_id_map h topic_lower))"

text \<open>
  The loop of lines 290 to 306. It returns the aggregate type, \<^verbatim>\<open>topic_ids\<close> and
  \<^verbatim>\<open>id_name_map\<close>; the aggregate cache and the log are updated in the historian.
\<close>

fun resolve_topics ::
  "main_driver \<Rightarrow> string list \<Rightarrow> string option \<Rightarrow> string option \<Rightarrow> nat list \<Rightarrow> (nat \<rightharpoonup> string) \<Rightarrow>
     historian \<Rightarrow> (exn + (string option \<times> nat list \<times> (nat \<rightharpoonup> string))) \<times> historian" where
  "resolve_topics md [] agg_type agg_period topic_ids id_name_map h =
     (Inr (agg_type, topic_ids, id_name_map), h)"
| "resolve_topics md (t # ts) agg_type agg_period topic_ids id_name_map h =
     (case lookup_topic md t agg_type agg_period h of
        Inl e \<Rightarrow> (Inl e, h)
      | Inr (agg_type', agg_map, topic_id) \<Rightarrow>
          (case topic_id of
             Some i \<Rightarrow>
               (if i \<noteq> 0 then
                  resolve_topics md ts agg_type' agg_period (topic_ids @ [i]) (id_name_map(i \<mapsto> t))
                    (h\<lparr>agg_topic_id_map := agg_map\<rparr>)
                else
                  resolve_topics md ts agg_type' agg_period topic_ids id_name_map
                    (h\<lparr>agg_topic_id_map := agg_map, hlog := hlog h @ [WarnNoSuchTopic t]\<rparr>))
           | None \<Rightarrow>
               resolve_topics md ts agg_type' agg_period topic_ids id_name_map
                 (h\<lparr>agg_topic_id_map := agg_map, hlog := hlog h @ [WarnNoSuchTopic t]\<rparr>)))"

text \<open>
  Lines 316 to 337, with the dictionary \<open>values\<close> returned by the driver. \<open>last_topic\<close> is the
  loop variable \<^verbatim>\<open>topic\<close> after the loop, the last element of \<^verbatim>\<open>topics_list\<close>.
\<close>

definition assemble ::
  "bool \<Rightarrow> string option \<Rightarrow> string \<Rightarrow> nat list \<Rightarrow> (string \<times> rows) list \<Rightarrow> historian \<Rightarrow> results" where
  "assemble multi_topic_query agg_type last_topic topic_ids values h =
     (case values of
        [] \<Rightarrow> []
      | (name, first_rows) # rest \<Rightarrow>
          (if \<not> multi_topic_query then
             (let meta_tid =
                (if truthy_str agg_type then topic_id_map h (lower last_topic)
                 else (case topic_ids of [] \<Rightarrow> None | i # _ \<Rightarrow> Some i))
              in if first_rows \<noteq> []
                 then [(''values'', Rows first_rows),
                       (''metadata'', Metadata (meta_get (topic_meta h) meta_tid))]
                 else [])
           else [(''values'', ByTopic values),
                 (''metadata'', Metadata (meta_get (topic_meta h) None))]))"

text \<open>\<^verbatim>\<open>SQLHistorian.query_historian\<close>\<close>

definition query_historian ::
  "main_driver \<Rightarrow> topic_arg \<Rightarrow> query_args \<Rightarrow> historian \<Rightarrow> (exn + results) \<times> historian" where
  "query_historian md topic_arg args h =
     (let topics_list = topics_list_of topic_arg;
          multi_topic_query = (length topics_list > 1)
      in case resolve_topics md topics_list (q_agg_type args) (q_agg_period args) [] Map.empty h of
           (Inl e, h1) \<Rightarrow> (Inl e, h1)
         | (Inr (agg_type, topic_ids, id_name_map), h1) \<Rightarrow>
             (if topic_ids = [] then
                (Inr [], h1\<lparr>hlog := hlog h1 @ [WarnNoTopicIds topics_list]\<rparr>)
              else
                (case query md topic_ids id_name_map (args\<lparr>q_agg_type := agg_type\<rparr>) of
                   Inl e \<Rightarrow> (Inl e, h1)
                 | Inr values \<Rightarrow>
                     (Inr (assemble multi_topic_query agg_type (last topics_list) topic_ids values h1),
                      h1))))"

section \<open>Observations on a run\<close>

text \<open>
  The statements handed to \<^verbatim>\<open>cursor.execute\<close> in a sequence of backend calls, whether
  they were accepted or not, and the calls a run added to the trace of the driver.
\<close>

fun executed_of :: "(call \<times> reply) list \<Rightarrow> stmt list" where
  "executed_of [] = []"
| "executed_of ((Execute s, r) # evs) = s # executed_of evs"
| "executed_of (ev # evs) = executed_of evs"

definition executed :: "driver \<Rightarrow> stmt list" where
  "executed d = executed_of (trace d)"

definition new_events :: "driver \<Rightarrow> driver \<Rightarrow> (call \<times> reply) list" where
  "new_events d d' = drop (length (trace d)) (trace d')"

text \<open>
  The remaining definitions of this section serve the proofs only. \<open>blames evs err\<close>
  relates the calls of a run to the exception it ended with, if any: a statement that
  raised is the cause of the exception, unless the exception is one of closing a cursor.
  \<open>effect d d' err ss\<close> sums up a run of the driver that committed nothing: the trace
  grew, by calls that executed the statements \<open>ss\<close>; the run ended with \<open>err\<close>; the
  connection is open if a statement raised; neither \<^verbatim>\<open>commit\<close> nor \<^verbatim>\<open>rollback\<close> was
  called; the store, the backend and the table names are as before.
\<close>

definition blames :: "(call \<times> reply) list \<Rightarrow> exn option \<Rightarrow> bool" where
  "blames evs err \<longleftrightarrow>
     (\<forall>s e. (Execute s, Raises e) \<in> set evs \<longrightarrow>
        err = Some e \<or> (\<exists>ec. (CloseCursor, Raises ec) \<in> set evs \<and> err = Some ec))"

definition effect :: "driver \<Rightarrow> driver \<Rightarrow> exn option \<Rightarrow> stmt list \<Rightarrow> bool" where
  "effect d d' err ss \<longleftrightarrow>
     take (length (trace d)) (trace d') = trace d \<and>
     executed_of (new_events d d') = ss \<and>
     blames (new_events d d') err \<and>
     ((\<exists>s e. (Execute s, Raises e) \<in> set (new_events d d')) \<longrightarrow> connection d' \<noteq> None) \<and>
     (\<forall>r. (Commit, r) \<notin> set (new_events d d') \<and> (Rollback, r) \<notin> set (new_events d d')) \<and>
     committed d' = committed d \<and> replies d' = replies d \<and>
     topics_table d' = topics_table d \<and> meta_table d' = meta_table d"

fun err_of :: "exn + 'a \<Rightarrow> exn option" where
  "err_of (Inl e) = Some e"
| "err_of (Inr _) = None"

text \<open>
  The statement chosen by \<^verbatim>\<open>update_topic\<close> and by \<^verbatim>\<open>insert_topic\<close>.
\<close>

definition update_stmt :: "driver \<Rightarrow> string \<Rightarrow> nat \<Rightarrow> metadata option \<Rightarrow> stmt" where
  "update_stmt d t i m =
     (if meta_table d = topics_table d \<and> t \<noteq> [] \<and> truthy_meta m
      then update_topic_and_meta_query t (meta_or_empty m) i else update_topic_query t i)"

definition insert_stmt :: "driver \<Rightarrow> string \<Rightarrow> metadata option \<Rightarrow> stmt" where
  "insert_stmt d t m =
     (if meta_table d = topics_table d \<and> t \<noteq> [] \<and> truthy_meta m
      then insert_topic_and_meta_query t (meta_or_empty m) else insert_topic_query t)"

text \<open>
  \<open>carries h h' err ss\<close> lifts \<open>effect\<close> to the historian: in addition, no topic id
  already cached was changed. \<open>topic_stmts\<close> and \<open>meta_stmts\<close> are the statements that
  lines 183 to 200 and lines 202 to 214 of \<^verbatim>\<open>publish_to_historian\<close> execute for a record
  when nothing raises.
\<close>

definition carries :: "historian \<Rightarrow> historian \<Rightarrow> exn option \<Rightarrow> stmt list \<Rightarrow> bool" where
  "carries h h' err ss \<longleftrightarrow>
     effect (bg_thread_dbutils h) (bg_thread_dbutils h') err ss \<and>
     all_handled h' = all_handled h \<and> hlog h' = hlog h \<and>
     agg_topic_id_map h' = agg_topic_id_map h \<and>
     (\<forall>k i. topic_id_map h k = Some i \<longrightarrow> topic_id_map h' k = Some i)"

definition topic_stmts :: "publish_item \<Rightarrow> metadata \<Rightarrow> historian \<Rightarrow> nat \<Rightarrow> stmt list" where
  "topic_stmts x old h i =
     (case topic_id_map h (lower (topic x)) of
        None \<Rightarrow> [insert_stmt (bg_thread_dbutils h) (topic x) (Some (meta x))]
      | Some _ \<Rightarrow>
          (if topic_name_map h (lower (topic x)) \<noteq> Some (topic x)
           then [update_stmt (bg_thread_dbutils h) (topic x) i
                   (if old \<noteq> meta x then Some (meta x) else None)]
           else []))"

definition meta_stmts :: "publish_item \<Rightarrow> metadata \<Rightarrow> nat \<Rightarrow> bool \<Rightarrow> historian \<Rightarrow> stmt list" where
  "meta_stmts x old i flag h =
     (if old \<noteq> meta x then
        (if topics_table (bg_thread_dbutils h) \<noteq> meta_table (bg_thread_dbutils h)
         then [insert_meta_query i (meta x)]
         else if flag then [update_meta_query (meta x) i] else [])
      else [])"

section \<open>Example states\<close>

text \<open>
  Concrete backends, drivers, historians and batches on which the theorems below are
  instantiated. \<open>quiet_backend\<close> answers every call with a return (and the row id 1);
  the other backends raise at one position of the call sequence, or always.
  \<open>fresh_driver\<close> has no connection yet and keeps topics and metadata in separate tables;
  \<open>colocated_historian\<close> keeps them in one table.
\<close>

definition quiet_backend :: "nat \<Rightarrow> reply" where
  "quiet_backend n = Returns 1"

definition fresh_driver :: driver where
  "fresh_driver = \<lparr>connection = None, stash_cursor = None, topics_table = ''topics'',
     meta_table = ''meta'', committed = [], replies = quiet_backend, trace = [], dlog = []\<rparr>"

definition fresh_historian :: historian where
  "fresh_historian = \<lparr>topic_id_map = Map.empty, topic_name_map = Map.empty, topic_meta = Map.empty,
     agg_topic_id_map = Map.empty, bg_thread_dbutils = fresh_driver, all_handled = False, hlog = []\<rparr>"

definition item_A :: publish_item where
  "item_A = \<lparr>timestamp = 100, topic = ''A'', val = ''1'', meta = []\<rparr>"

definition item_a :: publish_item where
  "item_a = \<lparr>timestamp = 200, topic = ''a'', val = ''2'', meta = [(''unit'', ''C'')]\<rparr>"

definition open_driver :: driver where
  "open_driver = fresh_driver\<lparr>connection := Some \<lparr>pending = [insert_data_query 100 1 ''1''], closed = False\<rparr>\<rparr>"

definition locked_backend :: "nat \<Rightarrow> reply" where
  "locked_backend n = Raises (OperationalError ''database is locked'')"

definition locked_driver :: driver where
  "locked_driver = open_driver\<lparr>replies := locked_backend\<rparr>"

definition stale_driver :: driver where
  "stale_driver = open_driver\<lparr>replies := (\<lambda>n. if n = 0 then Raises (DatabaseError ''gone away'') else Returns 1)\<rparr>"

definition unreachable_driver :: driver where
  "unreachable_driver = fresh_driver\<lparr>replies := (\<lambda>n. Raises (DatabaseError ''refused''))\<rparr>"

definition interrupted_driver :: driver where
  "interrupted_driver =
     open_driver\<lparr>replies := (\<lambda>n. Raises (BuiltinBaseException ''KeyboardInterrupt''))\<rparr>"

definition exiting_driver :: driver where
  "exiting_driver =
     fresh_driver\<lparr>replies := (\<lambda>n. Raises (BuiltinBaseException ''SystemExit''))\<rparr>"

definition failing_third :: "nat \<Rightarrow> reply" where
  "failing_third n = (if n = 11 then Raises (DatabaseError ''constraint failed'') else Returns 1)"

definition faulty_historian :: historian where
  "faulty_historian = fresh_historian\<lparr>bg_thread_dbutils := fresh_driver\<lparr>replies := failing_third\<rparr>\<rparr>"

definition five_items :: "publish_item list" where
  "five_items =
     [\<lparr>timestamp = 100, topic = ''A'', val = ''1'', meta = []\<rparr>,
      \<lparr>timestamp = 200, topic = ''A'', val = ''2'', meta = []\<rparr>,
      \<lparr>timestamp = 300, topic = ''A'', val = ''3'', meta = []\<rparr>,
      \<lparr>timestamp = 400, topic = ''A'', val = ''4'', meta = []\<rparr>,
      \<lparr>timestamp = 500, topic = ''A'', val = ''5'', meta = []\<rparr>]"

definition interrupted_third :: "nat \<Rightarrow> reply" where
  "interrupted_third n =
     (if n = 11 then Raises (BuiltinBaseException ''KeyboardInterrupt'') else Returns 1)"

definition interrupted_historian :: historian where
  "interrupted_historian = fresh_historian\<lparr>bg_thread_dbutils := fresh_driver\<lparr>replies := interrupted_third\<rparr>\<rparr>"

definition busy_at_commit :: "nat \<Rightarrow> reply" where
  "busy_at_commit n = (if n = 7 then Raises (OperationalError ''database is locked'') else Returns 1)"

definition busy_historian :: historian where
  "busy_historian = fresh_historian\<lparr>bg_thread_dbutils := fresh_driver\<lparr>replies := busy_at_commit\<rparr>\<rparr>"

definition interrupted_at_commit :: "nat \<Rightarrow> reply" where
  "interrupted_at_commit n =
     (if n = 7 then Raises (BuiltinBaseException ''KeyboardInterrupt'') else Returns 1)"

definition halted_historian :: historian where
  "halted_historian = fresh_historian\<lparr>bg_thread_dbutils := fresh_driver\<lparr>replies := interrupted_at_commit\<rparr>\<rparr>"

definition colocated_historian :: historian where
  "colocated_historian = fresh_historian\<lparr>bg_thread_dbutils := fresh_driver\<lparr>meta_table := ''topics''\<rparr>\<rparr>"

definition failing_once :: "nat \<Rightarrow> reply" where
  "failing_once n = (if n = 8 then Raises (DatabaseError ''constraint failed'') else Returns 1)"

definition reusing_historian :: historian where
  "reusing_historian = fresh_historian\<lparr>bg_thread_dbutils := fresh_driver\<lparr>replies := failing_once\<rparr>\<rparr>"

definition item_b :: publish_item where
  "item_b = \<lparr>timestamp = 100, topic = ''b'', val = ''1'', meta = [(''unit'', ''F'')]\<rparr>"

definition item_bare :: publish_item where
  "item_bare = \<lparr>timestamp = 300, topic = ''a'', val = ''3'', meta = []\<rparr>"

definition known_historian :: historian where
  "known_historian = fresh_historian\<lparr>topic_id_map := [''device/temp'' \<mapsto> 7],
     topic_name_map := [''device/temp'' \<mapsto> ''Device/Temp'']\<rparr>"

definition item_upper :: publish_item where
  "item_upper = \<lparr>timestamp = 100, topic = ''DEVICE/TEMP'', val = ''1'', meta = []\<rparr>"

definition item_lower :: publish_item where
  "item_lower = \<lparr>timestamp = 200, topic = ''device/temp'', val = ''2'', meta = []\<rparr>"

definition unreachable_backend :: main_driver where
  "unreachable_backend = \<lparr>get_agg_topic_map = Inr Map.empty,
     query = (\<lambda>topic_ids id_name_map args. Inl (DatabaseError ''unreachable''))\<rparr>"

definition two_topic_backend :: main_driver where
  "two_topic_backend = \<lparr>get_agg_topic_map = Inr Map.empty,
     query = (\<lambda>topic_ids id_name_map args.
        Inr (map (\<lambda>i. (case id_name_map i of None \<Rightarrow> [] | Some n \<Rightarrow> n,
                         [(100 * int i, ''v'')])) topic_ids))\<rparr>"

definition raw_args :: query_args where
  "raw_args = \<lparr>q_start = None, q_end = None, q_agg_type = None, q_agg_period = None,
     q_skip = 0, q_count = None, q_order = ''FIRST_TO_LAST''\<rparr>"

definition avg_args :: query_args where
  "avg_args = raw_args\<lparr>q_agg_type := Some ''AVG'', q_agg_period := Some ''1h''\<rparr>"

definition catalog_historian :: historian where
  "catalog_historian = fresh_historian\<lparr>topic_id_map := [''a'' \<mapsto> 1, ''b'' \<mapsto> 2],
     topic_name_map := [''a'' \<mapsto> ''A'', ''b'' \<mapsto> ''b''],
     topic_meta := [1 \<mapsto> [(''unit'', ''C'')]]\<rparr>"

section \<open>Properties of the driver\<close>

lemma executed_of_append: "executed_of (xs @ ys) = executed_of xs @ executed_of ys"
  by (induction xs rule: executed_of.induct) auto

lemma effect_refl: "effect d d err []"
  by (simp add: effect_def new_events_def blames_def)

lemma effect_traceD:
  assumes "effect d d' err ss"
  shows "trace d' = trace d @ new_events d d'"
proof -
  have "trace d' = take (length (trace d)) (trace d') @ drop (length (trace d)) (trace d')"
    by simp
  with assms show ?thesis by (simp add: effect_def new_events_def)
qed

lemma blames_no_exec: "executed_of evs = [] \<Longrightarrow> blames evs err"
proof -
  assume a: "executed_of evs = []"
  have "\<And>s r. (Execute s, r) \<in> set evs \<Longrightarrow> executed_of evs \<noteq> []"
    by (induction evs rule: executed_of.induct) auto
  with a show ?thesis by (auto simp: blames_def)
qed

lemma effect_trans:
  assumes 1: "effect d d1 None ss1" and 2: "effect d1 d2 err ss2"
  shows "effect d d2 err (ss1 @ ss2)"
proof -
  from 1 have t1: "trace d1 = trace d @ new_events d d1" by (rule effect_traceD)
  from 2 have t2: "trace d2 = trace d1 @ new_events d1 d2" by (rule effect_traceD)
  have t: "trace d2 = trace d @ (new_events d d1 @ new_events d1 d2)"
    using t1 t2 by simp
  then have n: "new_events d d2 = new_events d d1 @ new_events d1 d2"
    by (simp add: new_events_def[of d d2])
  have b1: "blames (new_events d d1) None" using 1 by (simp add: effect_def)
  have b2: "blames (new_events d1 d2) err" using 2 by (simp add: effect_def)
  have b: "blames (new_events d d2) err"
    unfolding n blames_def
  proof (intro allI impI)
    fix s e
    assume "(Execute s, Raises e) \<in> set (new_events d d1 @ new_events d1 d2)"
    with b1 have "(Execute s, Raises e) \<in> set (new_events d1 d2)"
      by (auto simp: blames_def)
    with b2 have "err = Some e \<or> (\<exists>ec. (CloseCursor, Raises ec) \<in> set (new_events d1 d2) \<and> err = Some ec)"
      unfolding blames_def by blast
    then show "err = Some e \<or>
        (\<exists>ec. (CloseCursor, Raises ec) \<in> set (new_events d d1 @ new_events d1 d2) \<and> err = Some ec)"
      by auto
  qed
  have nc: "\<forall>r. (Commit, r) \<notin> set (new_events d d2) \<and> (Rollback, r) \<notin> set (new_events d d2)"
    using 1 2 unfolding n by (simp add: effect_def)
  have tk: "take (length (trace d)) (trace d2) = trace d"
    using t by simp
  have o: "(\<exists>s e. (Execute s, Raises e) \<in> set (new_events d d2)) \<longrightarrow> connection d2 \<noteq> None"
  proof
    assume "\<exists>s e. (Execute s, Raises e) \<in> set (new_events d d2)"
    then obtain s e where "(Execute s, Raises e) \<in> set (new_events d d1 @ new_events d1 d2)"
      unfolding n by blast
    with b1 have "(Execute s, Raises e) \<in> set (new_events d1 d2)"
      by (auto simp: blames_def)
    with 2 show "connection d2 \<noteq> None" unfolding effect_def by blast
  qed
  show ?thesis
    using 1 2 b tk n o nc by (simp add: effect_def executed_of_append)
qed

lemma cursor_effect:
  assumes "cursor d = (r, d')"
  shows "effect d d' (case r of Inl e \<Rightarrow> Some e | Inr _ \<Rightarrow> None) []"
    and "(\<exists>c. r = Inr c) \<Longrightarrow> connection d' \<noteq> None"
  using assms
  by (auto simp: cursor_def reconnect_def connection_cursor_def dbapi_def Let_def effect_def
      new_events_def blames_def split: option.splits prod.splits sum.splits reply.splits if_splits)

lemma execute_then_close:
  assumes "cursor_execute s d1 = (r2, d2)" and "closing r2 d2 = (r, d')"
    and "connection d1 \<noteq> None"
  shows "effect d1 d' (err_of r) [s]"
    and "r = Inr v \<Longrightarrow> r2 = Inr v"
    and "connection d' \<noteq> None"
  using assms
  by (auto simp: cursor_execute_def closing_def dbapi_def Let_def effect_def
      new_events_def blames_def split: option.splits prod.splits sum.splits reply.splits if_splits)

lemma run_statement:
  assumes c: "cursor d = (rc, d1)"
    and run: "(case rc of Inl e \<Rightarrow> (Inl e, d1)
               | Inr cur \<Rightarrow> (case cursor_execute s d1 of (r2, d2) \<Rightarrow> closing r2 d2)) = (r, d')"
  shows "effect d d' (err_of r) [] \<or> effect d d' (err_of r) [s]"
    and "r = Inr v \<Longrightarrow> effect d d' None [s] \<and> connection d' \<noteq> None"
proof -
  have "(effect d d' (err_of r) [] \<or> effect d d' (err_of r) [s]) \<and>
        (r = Inr v \<longrightarrow> effect d d' None [s] \<and> connection d' \<noteq> None)"
  proof (cases rc)
    case (Inl e)
    with run have "r = Inl e" "d' = d1" by auto
    with cursor_effect(1)[OF c] Inl show ?thesis by simp
  next
    case (Inr cur)
    obtain r2 d2 where ex: "cursor_execute s d1 = (r2, d2)" by (cases "cursor_execute s d1")
    with run Inr have cl: "closing r2 d2 = (r, d')" by simp
    have e1: "effect d d1 None []" using cursor_effect(1)[OF c] Inr by simp
    have c1: "connection d1 \<noteq> None" using cursor_effect(2)[OF c] Inr by simp
    have e2: "effect d1 d' (err_of r) [s]" by (rule execute_then_close(1)[OF ex cl c1])
    have c2: "connection d' \<noteq> None" by (rule execute_then_close(3)[OF ex cl c1])
    have "effect d d' (err_of r) ([] @ [s])" by (rule effect_trans[OF e1 e2])
    with c2 show ?thesis by auto
  qed
  then show "effect d d' (err_of r) [] \<or> effect d d' (err_of r) [s]"
    and "r = Inr v \<Longrightarrow> effect d d' None [s] \<and> connection d' \<noteq> None" by auto
qed

lemma execute_stmt_effect:
  assumes "execute_stmt s False d = (r, d')"
  shows "effect d d' (err_of r) [] \<or> effect d d' (err_of r) [s]"
    and "r = Inr v \<Longrightarrow> effect d d' None [s] \<and> connection d' \<noteq> None"
proof -
  obtain rc d1 where c: "cursor d = (rc, d1)" by (cases "cursor d")
  have run: "(case rc of Inl e \<Rightarrow> (Inl e, d1)
               | Inr cur \<Rightarrow> (case cursor_execute s d1 of (r2, d2) \<Rightarrow> closing r2 d2)) = (r, d')"
    using assms c by (auto simp: execute_stmt_def split: sum.splits prod.splits)
  show "effect d d' (err_of r) [] \<or> effect d d' (err_of r) [s]"
    by (rule run_statement(1)[OF c run])
  show "r = Inr v \<Longrightarrow> effect d d' None [s] \<and> connection d' \<noteq> None"
    by (rule run_statement(2)[OF c run])
qed

lemma insert_topic_effect:
  assumes "insert_topic t m d = (r, d')"
  shows "\<exists>q. q = (if meta_table d = topics_table d \<and> t \<noteq> [] \<and> truthy_meta m
         then insert_topic_and_meta_query t (meta_or_empty m) else insert_topic_query t) \<and>
         (effect d d' (err_of r) [] \<or> effect d d' (err_of r) [q]) \<and>
         (\<forall>v. r = Inr v \<longrightarrow> effect d d' None [q] \<and> connection d' \<noteq> None)"
proof -
  define q where "q = (if meta_table d = topics_table d \<and> t \<noteq> [] \<and> truthy_meta m
         then insert_topic_and_meta_query t (meta_or_empty m) else insert_topic_query t)"
  obtain rc d1 where c: "cursor d = (rc, d1)" by (cases "cursor d")
  have run: "(case rc of Inl e \<Rightarrow> (Inl e, d1)
               | Inr cur \<Rightarrow> (case cursor_execute q d1 of (r2, d2) \<Rightarrow> closing r2 d2)) = (r, d')"
    using assms c unfolding insert_topic_def Let_def q_def
    by (auto split: sum.splits prod.splits)
  from run_statement[OF c run] show ?thesis unfolding q_def by blast
qed

lemma wrapper_effect:
  assumes w: "(case execute_stmt s False d of (Inl e, d') \<Rightarrow> (Inl e, d') | (Inr n, d') \<Rightarrow> (Inr True, d')) = (r, d')"
  shows "effect d d' (err_of r) [] \<or> effect d d' (err_of r) [s]"
    and "r = Inr v \<Longrightarrow> effect d d' None [s] \<and> connection d' \<noteq> None \<and> v"
proof -
  obtain r0 d0 where e: "execute_stmt s False d = (r0, d0)" by (cases "execute_stmt s False d")
  with w have d0: "d0 = d'" and rr: "err_of r0 = err_of r" and ok: "\<And>v. r = Inr v \<Longrightarrow> v \<and> (\<exists>n. r0 = Inr n)"
    by (auto split: sum.splits)
  from execute_stmt_effect(1)[OF e] d0 rr
  show "effect d d' (err_of r) [] \<or> effect d d' (err_of r) [s]" by simp
  show "r = Inr v \<Longrightarrow> effect d d' None [s] \<and> connection d' \<noteq> None \<and> v"
    using ok execute_stmt_effect(2)[OF e] d0 by blast
qed

lemma insert_meta_effect:
  assumes "insert_meta i m d = (r, d')"
  shows "effect d d' (err_of r) [] \<or> effect d d' (err_of r) [insert_meta_query i m]"
    and "r = Inr v \<Longrightarrow> effect d d' None [insert_meta_query i m] \<and> connection d' \<noteq> None \<and> v"
proof -
  have w: "(case execute_stmt (insert_meta_query i m) False d of (Inl e, d') \<Rightarrow> (Inl e, d')
            | (Inr n, d') \<Rightarrow> (Inr True, d')) = (r, d')"
    using assms unfolding insert_meta_def .
  from wrapper_effect(1)[OF w]
  show "effect d d' (err_of r) [] \<or> effect d d' (err_of r) [insert_meta_query i m]" .
  from wrapper_effect(2)[OF w]
  show "r = Inr v \<Longrightarrow> effect d d' None [insert_meta_query i m] \<and> connection d' \<noteq> None \<and> v" .
qed

lemma update_meta_effect:
  assumes "update_meta i m d = (r, d')"
  shows "effect d d' (err_of r) [] \<or> effect d d' (err_of r) [update_meta_query m i]"
    and "r = Inr v \<Longrightarrow> effect d d' None [update_meta_query m i] \<and> connection d' \<noteq> None \<and> v"
proof -
  have w: "(case execute_stmt (update_meta_query m i) False d of (Inl e, d') \<Rightarrow> (Inl e, d')
            | (Inr n, d') \<Rightarrow> (Inr True, d')) = (r, d')"
    using assms unfolding update_meta_def .
  from wrapper_effect(1)[OF w]
  show "effect d d' (err_of r) [] \<or> effect d d' (err_of r) [update_meta_query m i]" .
  from wrapper_effect(2)[OF w]
  show "r = Inr v \<Longrightarrow> effect d d' None [update_meta_query m i] \<and> connection d' \<noteq> None \<and> v" .
qed

lemma insert_data_effect:
  assumes "insert_data ts i v d = (r, d')"
  shows "effect d d' (err_of r) [] \<or> effect d d' (err_of r) [insert_data_query ts i v]"
    and "r = Inr b \<Longrightarrow> effect d d' None [insert_data_query ts i v] \<and> connection d' \<noteq> None \<and> b"
proof -
  have w: "(case execute_stmt (insert_data_query ts i v) False d of (Inl e, d') \<Rightarrow> (Inl e, d')
            | (Inr n, d') \<Rightarrow> (Inr True, d')) = (r, d')"
    using assms unfolding insert_data_def .
  from wrapper_effect(1)[OF w]
  show "effect d d' (err_of r) [] \<or> effect d d' (err_of r) [insert_data_query ts i v]" .
  from wrapper_effect(2)[OF w]
  show "r = Inr b \<Longrightarrow> effect d d' None [insert_data_query ts i v] \<and> connection d' \<noteq> None \<and> b" .
qed

lemma insert_agg_meta_effect:
  assumes "insert_agg_meta i m d = (r, d')"
  shows "r = Inr v \<Longrightarrow> v"
proof -
  have w: "(case execute_stmt (replace_agg_meta_stmt i m) False d of (Inl e, d') \<Rightarrow> (Inl e, d')
            | (Inr n, d') \<Rightarrow> (Inr True, d')) = (r, d')"
    using assms unfolding insert_agg_meta_def .
  from wrapper_effect(2)[OF w] show "r = Inr v \<Longrightarrow> v" by blast
qed

lemma update_topic_effect:
  assumes "update_topic t i m d = (r, d')"
  shows "effect d d' (err_of r) [] \<or> effect d d' (err_of r) [update_stmt d t i m]"
    and "r = Inr v \<Longrightarrow> effect d d' None [update_stmt d t i m] \<and> connection d' \<noteq> None \<and> v"
proof -
  have w: "(case execute_stmt (update_stmt d t i m) False d of (Inl e, d') \<Rightarrow> (Inl e, d')
            | (Inr n, d') \<Rightarrow> (Inr True, d')) = (r, d')"
    using assms unfolding update_topic_def update_stmt_def by (auto split: if_splits)
  from wrapper_effect(1)[OF w]
  show "effect d d' (err_of r) [] \<or> effect d d' (err_of r) [update_stmt d t i m]" .
  from wrapper_effect(2)[OF w]
  show "r = Inr v \<Longrightarrow> effect d d' None [update_stmt d t i m] \<and> connection d' \<noteq> None \<and> v" .
qed

lemma insert_topic_effect2:
  assumes "insert_topic t m d = (r, d')"
  shows "effect d d' (err_of r) [] \<or> effect d d' (err_of r) [insert_stmt d t m]"
    and "r = Inr v \<Longrightarrow> effect d d' None [insert_stmt d t m] \<and> connection d' \<noteq> None"
  using insert_topic_effect[OF assms] unfolding insert_stmt_def by blast+

lemmas model_defs = publish_record_def resolve_topic_def write_meta_def write_data_def
  insert_topic_def insert_meta_def update_meta_def insert_data_def update_topic_def
  execute_stmt_def cursor_def reconnect_def connection_cursor_def cursor_execute_def closing_def
  dbapi_def commit_def rollback_def meta_get_def Let_def
  after_batch_def publish_body_def publish_to_historian_def

lemma lower_A: "lower ''A'' = ''a''" "lower ''a'' = ''a''" by code_simp+

lemma lower_b: "lower ''b'' = ''b''" by code_simp

lemma write_data_count: "write_data x i p h = (Inr n, h') \<Longrightarrow> n = p + 1"
  by (auto simp: write_data_def dest: insert_data_effect(2) split: prod.splits sum.splits if_splits)

lemma publish_record_count: "publish_record x p h = (Inr n, h') \<Longrightarrow> n = p + 1"
  by (auto simp: publish_record_def Let_def dest: write_data_count split: prod.splits sum.splits)

lemma publish_loop_count: "publish_loop xs p h = (Inr n, h') \<Longrightarrow> n = p + length xs"
proof (induction xs arbitrary: p h)
  case Nil
  then show ?case by simp
next
  case (Cons x xs)
  from Cons.prems obtain q h1 where
    step: "publish_record x p h = (Inr q, h1)" and rest: "publish_loop xs q h1 = (Inr n, h')"
    by (auto split: prod.splits sum.splits)
  from step have "q = p + 1" by (rule publish_record_count)
  moreover from rest have "n = q + length xs" by (rule Cons.IH)
  ultimately show ?case by simp
qed


section \<open>Properties of the publish pipeline\<close>

lemma carries_refl: "carries h h err []"
  by (simp add: carries_def effect_refl)

lemma carries_trans:
  "carries h h1 None ss1 \<Longrightarrow> carries h1 h2 err ss2 \<Longrightarrow> carries h h2 err (ss1 @ ss2)"
  by (auto simp: carries_def intro: effect_trans)

lemma resolve_topic_any:
  assumes "resolve_topic x old h = (r, h')"
  shows "\<exists>ss. carries h h' (err_of r) ss"
proof (cases "topic_id_map h (lower (topic x))")
  case None
  obtain r0 d0 where it: "insert_topic (topic x) (Some (meta x)) (bg_thread_dbutils h) = (r0, d0)"
    by (cases "insert_topic (topic x) (Some (meta x)) (bg_thread_dbutils h)")
  from insert_topic_effect2(1)[OF it]
  have "\<exists>ss. effect (bg_thread_dbutils h) d0 (err_of r0) ss" by blast
  with assms None it show ?thesis
    by (auto simp: resolve_topic_def Let_def carries_def split: sum.splits)
next
  case (Some i)
  show ?thesis
  proof (cases "topic_name_map h (lower (topic x)) \<noteq> Some (topic x)")
    case False
    with assms Some show ?thesis
      by (auto simp: resolve_topic_def Let_def intro: carries_refl)
  next
    case True
    define m where "m = (if old \<noteq> meta x then Some (meta x) else None)"
    obtain r0 d0 where ut: "update_topic (topic x) i m (bg_thread_dbutils h) = (r0, d0)"
      by (cases "update_topic (topic x) i m (bg_thread_dbutils h)")
    from update_topic_effect(1)[OF ut]
    have "\<exists>ss. effect (bg_thread_dbutils h) d0 (err_of r0) ss" by blast
    with assms Some True ut show ?thesis
      by (auto simp: resolve_topic_def Let_def carries_def m_def split: sum.splits if_splits)
  qed
qed

lemma resolve_topic_ok:
  assumes "resolve_topic x old h = (Inr (i, flag), h')"
  shows "carries h h' None (topic_stmts x old h i)"
    and "topic_id_map h' = (topic_id_map h)(lower (topic x) \<mapsto> i)"
    and "topic_name_map h' = (topic_name_map h)(lower (topic x) \<mapsto> topic x)"
    and "topic_meta h' = topic_meta h"
    and "flag = (topic_id_map h (lower (topic x)) \<noteq> None \<and>
           \<not> (topic_name_map h (lower (topic x)) \<noteq> Some (topic x) \<and> old \<noteq> meta x))"
    and "\<And>j. topic_id_map h (lower (topic x)) = Some j \<Longrightarrow> i = j"
proof -
  have "carries h h' None (topic_stmts x old h i) \<and>
    topic_id_map h' = (topic_id_map h)(lower (topic x) \<mapsto> i) \<and>
    topic_name_map h' = (topic_name_map h)(lower (topic x) \<mapsto> topic x) \<and>
    topic_meta h' = topic_meta h \<and>
    flag = (topic_id_map h (lower (topic x)) \<noteq> None \<and>
           \<not> (topic_name_map h (lower (topic x)) \<noteq> Some (topic x) \<and> old \<noteq> meta x)) \<and>
    (\<forall>j. topic_id_map h (lower (topic x)) = Some j \<longrightarrow> i = j)"
  proof (cases "topic_id_map h (lower (topic x))")
    case None
    obtain r0 d0 where it: "insert_topic (topic x) (Some (meta x)) (bg_thread_dbutils h) = (r0, d0)"
      by (cases "insert_topic (topic x) (Some (meta x)) (bg_thread_dbutils h)")
    with assms None have r0: "r0 = Inr i"
      by (auto simp: resolve_topic_def Let_def split: sum.splits)
    from insert_topic_effect2(2)[OF it r0]
    have "effect (bg_thread_dbutils h) d0 None [insert_stmt (bg_thread_dbutils h) (topic x) (Some (meta x))]"
      by blast
    with assms None it r0 show ?thesis
      by (auto simp: resolve_topic_def Let_def carries_def topic_stmts_def split: sum.splits)
  next
    case (Some j)
    show ?thesis
    proof (cases "topic_name_map h (lower (topic x)) \<noteq> Some (topic x)")
      case False
      with assms Some show ?thesis
        by (auto simp: resolve_topic_def Let_def topic_stmts_def map_upd_triv intro: carries_refl)
    next
      case True
      define m where "m = (if old \<noteq> meta x then Some (meta x) else None)"
      obtain r0 d0 where ut: "update_topic (topic x) j m (bg_thread_dbutils h) = (r0, d0)"
        by (cases "update_topic (topic x) j m (bg_thread_dbutils h)")
      with assms Some True obtain b where r0: "r0 = Inr b"
        by (auto simp: resolve_topic_def Let_def m_def split: sum.splits if_splits)
      from update_topic_effect(2)[OF ut r0]
      have "effect (bg_thread_dbutils h) d0 None [update_stmt (bg_thread_dbutils h) (topic x) j m]"
        by blast
      with assms Some True ut r0 show ?thesis
        by (auto simp: resolve_topic_def Let_def carries_def topic_stmts_def m_def map_upd_triv
            split: sum.splits if_splits)
    qed
  qed
  then show "carries h h' None (topic_stmts x old h i)"
    and "topic_id_map h' = (topic_id_map h)(lower (topic x) \<mapsto> i)"
    and "topic_name_map h' = (topic_name_map h)(lower (topic x) \<mapsto> topic x)"
    and "topic_meta h' = topic_meta h"
    and "flag = (topic_id_map h (lower (topic x)) \<noteq> None \<and>
           \<not> (topic_name_map h (lower (topic x)) \<noteq> Some (topic x) \<and> old \<noteq> meta x))"
    and "\<And>j. topic_id_map h (lower (topic x)) = Some j \<Longrightarrow> i = j"
    by auto
qed

lemma write_meta_any:
  assumes "write_meta x old i flag h = (r, h')"
  shows "\<exists>ss. carries h h' (err_of r) ss"
proof -
  obtain r1 d1 where im: "insert_meta i (meta x) (bg_thread_dbutils h) = (r1, d1)"
    by (cases "insert_meta i (meta x) (bg_thread_dbutils h)")
  obtain r2 d2 where um: "update_meta i (meta x) (bg_thread_dbutils h) = (r2, d2)"
    by (cases "update_meta i (meta x) (bg_thread_dbutils h)")
  from insert_meta_effect(1)[OF im]
  have e1: "\<exists>ss. effect (bg_thread_dbutils h) d1 (err_of r1) ss" by blast
  from update_meta_effect(1)[OF um]
  have e2: "\<exists>ss. effect (bg_thread_dbutils h) d2 (err_of r2) ss" by blast
  have e0: "effect (bg_thread_dbutils h) (bg_thread_dbutils h) None []" by (rule effect_refl)
  from assms im um e0 e1 e2 show ?thesis
    by (auto simp: write_meta_def carries_def split: sum.splits if_splits)
qed

lemma write_meta_ok:
  assumes "write_meta x old i flag h = (Inr u, h')"
  shows "carries h h' None (meta_stmts x old i flag h)"
    and "topic_meta h' = (if old \<noteq> meta x then (topic_meta h)(i \<mapsto> meta x) else topic_meta h)"
    and "topic_id_map h' = topic_id_map h"
    and "topic_name_map h' = topic_name_map h"
proof -
  obtain r1 d1 where im: "insert_meta i (meta x) (bg_thread_dbutils h) = (r1, d1)"
    by (cases "insert_meta i (meta x) (bg_thread_dbutils h)")
  obtain r2 d2 where um: "update_meta i (meta x) (bg_thread_dbutils h) = (r2, d2)"
    by (cases "update_meta i (meta x) (bg_thread_dbutils h)")
  have e1: "\<And>b. r1 = Inr b \<Longrightarrow> effect (bg_thread_dbutils h) d1 None [insert_meta_query i (meta x)]"
    using insert_meta_effect(2)[OF im] by blast
  have e2: "\<And>b. r2 = Inr b \<Longrightarrow> effect (bg_thread_dbutils h) d2 None [update_meta_query (meta x) i]"
    using update_meta_effect(2)[OF um] by blast
  have e0: "effect (bg_thread_dbutils h) (bg_thread_dbutils h) None []" by (rule effect_refl)
  from assms im um e0 e1 e2
  have "carries h h' None (meta_stmts x old i flag h) \<and>
    topic_meta h' = (if old \<noteq> meta x then (topic_meta h)(i \<mapsto> meta x) else topic_meta h) \<and>
    topic_id_map h' = topic_id_map h \<and> topic_name_map h' = topic_name_map h"
    by (auto simp: write_meta_def carries_def meta_stmts_def split: sum.splits if_splits)
  then show "carries h h' None (meta_stmts x old i flag h)"
    and "topic_meta h' = (if old \<noteq> meta x then (topic_meta h)(i \<mapsto> meta x) else topic_meta h)"
    and "topic_id_map h' = topic_id_map h"
    and "topic_name_map h' = topic_name_map h"
    by auto
qed

lemma write_data_any:
  assumes "write_data x i p h = (r, h')"
  shows "carries h h' (err_of r) [] \<or>
         carries h h' (err_of r) [insert_data_query (timestamp x) i (val x)]"
    and "topic_meta h' = topic_meta h"
    and "topic_id_map h' = topic_id_map h"
    and "topic_name_map h' = topic_name_map h"
proof -
  obtain r1 d1 where ins: "insert_data (timestamp x) i (val x) (bg_thread_dbutils h) = (r1, d1)"
    by (cases "insert_data (timestamp x) i (val x) (bg_thread_dbutils h)")
  from insert_data_effect(1)[OF ins] assms ins
  have "(carries h h' (err_of r) [] \<or>
         carries h h' (err_of r) [insert_data_query (timestamp x) i (val x)]) \<and>
        topic_meta h' = topic_meta h \<and> topic_id_map h' = topic_id_map h \<and>
        topic_name_map h' = topic_name_map h"
    by (auto simp: write_data_def carries_def split: sum.splits)
  then show "carries h h' (err_of r) [] \<or>
         carries h h' (err_of r) [insert_data_query (timestamp x) i (val x)]"
    and "topic_meta h' = topic_meta h"
    and "topic_id_map h' = topic_id_map h"
    and "topic_name_map h' = topic_name_map h"
    by auto
qed

lemma write_data_ok:
  assumes "write_data x i p h = (Inr n, h')"
  shows "carries h h' None [insert_data_query (timestamp x) i (val x)]"
    and "connection (bg_thread_dbutils h') \<noteq> None"
proof -
  obtain r1 d1 where ins: "insert_data (timestamp x) i (val x) (bg_thread_dbutils h) = (r1, d1)"
    by (cases "insert_data (timestamp x) i (val x) (bg_thread_dbutils h)")
  with assms obtain b where r1: "r1 = Inr b" by (auto simp: write_data_def split: sum.splits)
  from insert_data_effect(2)[OF ins r1] assms ins r1
  have "carries h h' None [insert_data_query (timestamp x) i (val x)] \<and>
        connection (bg_thread_dbutils h') \<noteq> None"
    by (auto simp: write_data_def carries_def split: sum.splits)
  then show "carries h h' None [insert_data_query (timestamp x) i (val x)]"
    and "connection (bg_thread_dbutils h') \<noteq> None" by auto
qed

lemma publish_record_any:
  assumes "publish_record x p h = (r, h')"
  shows "\<exists>ss. carries h h' (err_of r) ss"
proof -
  define old where "old = meta_get (topic_meta h) (topic_id_map h (lower (topic x)))"
  obtain r1 h1 where rt: "resolve_topic x old h = (r1, h1)" by (cases "resolve_topic x old h")
  show ?thesis
  proof (cases r1)
    case (Inl e)
    with assms rt have "r = Inl e" "h' = h1" by (auto simp: publish_record_def Let_def old_def)
    with resolve_topic_any[OF rt] Inl show ?thesis by simp
  next
    case (Inr pr)
    obtain i flag where pr: "pr = (i, flag)" by (cases pr)
    from rt Inr pr have rt': "resolve_topic x old h = (Inr (i, flag), h1)" by simp
    note c1 = resolve_topic_ok(1)[OF rt']
    obtain r2 h2 where wm: "write_meta x old i flag h1 = (r2, h2)"
      by (cases "write_meta x old i flag h1")
    show ?thesis
    proof (cases r2)
      case (Inl e)
      with assms rt' wm have "r = Inl e" "h' = h2" by (auto simp: publish_record_def Let_def old_def)
      moreover from write_meta_any[OF wm] Inl obtain ss where "carries h1 h2 (Some e) ss" by auto
      ultimately show ?thesis using carries_trans[OF c1] by fastforce
    next
      case (Inr u)
      with wm have wm': "write_meta x old i flag h1 = (Inr u, h2)" by simp
      note c2 = write_meta_ok(1)[OF wm']
      from assms rt' wm' have wd: "write_data x i p h2 = (r, h')"
        by (auto simp: publish_record_def Let_def old_def)
      from write_data_any(1)[OF wd] obtain ss where "carries h2 h' (err_of r) ss" by blast
      from carries_trans[OF carries_trans[OF c1 c2] this] show ?thesis by blast
    qed
  qed
qed

lemma publish_record_ok:
  assumes "publish_record x p h = (Inr n, h')"
  defines "key \<equiv> lower (topic x)"
  defines "old \<equiv> meta_get (topic_meta h) (topic_id_map h key)"
  defines "flag \<equiv> (topic_id_map h key \<noteq> None \<and> \<not> (topic_name_map h key \<noteq> Some (topic x) \<and> old \<noteq> meta x))"
  shows "\<exists>i. carries h h' None
            (topic_stmts x old h i @ meta_stmts x old i flag h @
             [insert_data_query (timestamp x) i (val x)]) \<and>
          topic_id_map h' = (topic_id_map h)(key \<mapsto> i) \<and>
          (\<forall>j. topic_id_map h key = Some j \<longrightarrow> i = j) \<and>
          topic_name_map h' = (topic_name_map h)(key \<mapsto> topic x) \<and>
          topic_meta h' = (if old \<noteq> meta x then (topic_meta h)(i \<mapsto> meta x) else topic_meta h) \<and>
          connection (bg_thread_dbutils h') \<noteq> None"
proof -
  obtain r1 h1 where rt: "resolve_topic x old h = (r1, h1)" by (cases "resolve_topic x old h")
  with assms(1) obtain i fl where rt': "resolve_topic x old h = (Inr (i, fl), h1)"
    by (auto simp: publish_record_def Let_def old_def key_def split: sum.splits)
  note R = resolve_topic_ok[OF rt']
  have fl: "fl = flag" using R(5) by (simp add: flag_def key_def)
  obtain r2 h2 where wm: "write_meta x old i flag h1 = (r2, h2)"
    by (cases "write_meta x old i flag h1")
  with assms(1) rt' fl obtain u where wm': "write_meta x old i flag h1 = (Inr u, h2)"
    by (auto simp: publish_record_def Let_def old_def key_def split: sum.splits)
  note W = write_meta_ok[OF wm']
  from assms(1) rt' wm' fl have wd: "write_data x i p h2 = (Inr n, h')"
    by (auto simp: publish_record_def Let_def old_def key_def)
  note D = write_data_ok[OF wd] write_data_any(2-4)[OF wd]
  have tabs: "topics_table (bg_thread_dbutils h1) = topics_table (bg_thread_dbutils h)"
    "meta_table (bg_thread_dbutils h1) = meta_table (bg_thread_dbutils h)"
    using R(1) by (simp_all add: carries_def effect_def)
  then have ms: "meta_stmts x old i flag h1 = meta_stmts x old i flag h"
    by (simp add: meta_stmts_def)
  have "carries h h' None
     ((topic_stmts x old h i @ meta_stmts x old i flag h1) @ [insert_data_query (timestamp x) i (val x)])"
    by (rule carries_trans[OF carries_trans[OF R(1) W(1)] D(1)])
  then have c: "carries h h' None
     (topic_stmts x old h i @ meta_stmts x old i flag h @ [insert_data_query (timestamp x) i (val x)])"
    by (simp add: ms)
  have ids: "topic_id_map h' = (topic_id_map h)(key \<mapsto> i)"
    using R(2) W(3) D(4) by (simp add: key_def)
  have names: "topic_name_map h' = (topic_name_map h)(key \<mapsto> topic x)"
    using R(3) W(4) D(5) by (simp add: key_def)
  have metas: "topic_meta h' = (if old \<noteq> meta x then (topic_meta h)(i \<mapsto> meta x) else topic_meta h)"
    using R(4) W(2) D(3) by simp
  have same: "\<forall>j. topic_id_map h key = Some j \<longrightarrow> i = j" using R(6) by (simp add: key_def)
  from c ids names metas same D(2) show ?thesis by blast
qed

lemma publish_loop_any:
  "publish_loop xs p h = (r, h') \<Longrightarrow> \<exists>ss. carries h h' (err_of r) ss"
proof (induction xs arbitrary: p h)
  case Nil
  then show ?case using carries_refl by auto
next
  case (Cons x xs)
  obtain r1 h1 where st: "publish_record x p h = (r1, h1)" by (cases "publish_record x p h")
  show ?case
  proof (cases r1)
    case (Inl e)
    with Cons.prems st have "r = Inl e" "h' = h1" by auto
    with publish_record_any[OF st] Inl show ?thesis by simp
  next
    case (Inr q)
    with Cons.prems st have rest: "publish_loop xs q h1 = (r, h')" by simp
    from publish_record_any[OF st] Inr obtain ss1 where c1: "carries h h1 None ss1" by auto
    from Cons.IH[OF rest] obtain ss2 where "carries h1 h' (err_of r) ss2" by blast
    from carries_trans[OF c1 this] show ?thesis by blast
  qed
qed

lemma effect_executed:
  assumes "effect d d' err ss"
  shows "executed d' = executed d @ ss"
proof -
  have "trace d' = trace d @ new_events d d'" by (rule effect_traceD[OF assms])
  then have "executed_of (trace d') = executed_of (trace d @ new_events d d')"
    by (rule arg_cong)
  also have "\<dots> = executed_of (trace d) @ ss"
    using assms by (simp only: executed_of_append effect_def)
  finally show ?thesis by (simp only: executed_def)
qed

lemma publish_loop_open:
  "publish_loop xs p h = (Inr n, h') \<Longrightarrow> xs \<noteq> [] \<Longrightarrow> connection (bg_thread_dbutils h') \<noteq> None"
proof (induction xs arbitrary: p h)
  case Nil
  then show ?case by simp
next
  case (Cons x xs)
  from Cons.prems(1) obtain q h1 where
    step: "publish_record x p h = (Inr q, h1)" and rest: "publish_loop xs q h1 = (Inr n, h')"
    by (auto split: prod.splits sum.splits)
  show ?case
  proof (cases "xs = []")
    case True
    with rest have "h' = h1" by simp
    with publish_record_ok[OF step] show ?thesis by blast
  next
    case False
    from Cons.IH[OF rest False] show ?thesis .
  qed
qed

lemma executed_of_member: "(Execute s, r) \<in> set evs \<Longrightarrow> executed_of evs \<noteq> []"
  by (induction evs rule: executed_of.induct) auto

lemma commit_quiet:
  "commit d = (r, d') \<Longrightarrow> \<exists>evs. trace d' = trace d @ evs \<and> executed_of evs = []"
  by (auto simp: commit_def dbapi_def Let_def split: option.splits reply.splits exn.splits if_splits)

lemma rollback_quiet:
  "rollback d = (r, d') \<Longrightarrow> \<exists>evs. trace d' = trace d @ evs \<and> executed_of evs = []"
  by (auto simp: rollback_def dbapi_def Let_def split: option.splits reply.splits)

lemma rollback_open:
  assumes "connection d = Some c"
  shows "rollback d =
    (case replies d (length (trace d)) of
       Raises e \<Rightarrow> (Inl e, d\<lparr>trace := trace d @ [(Rollback, Raises e)]\<rparr>)
     | Returns n \<Rightarrow> (Inr True, d\<lparr>trace := trace d @ [(Rollback, Returns n)],
                               connection := Some (c\<lparr>pending := []\<rparr>)\<rparr>)
     | ReturnsNone \<Rightarrow> (Inr True, d\<lparr>trace := trace d @ [(Rollback, ReturnsNone)],
                               connection := Some (c\<lparr>pending := []\<rparr>)\<rparr>))"
  using assms by (simp add: rollback_def dbapi_def Let_def split: reply.splits)

lemma after_batch_quiet:
  assumes "after_batch p n h = (r, h')"
  shows "\<exists>evs. trace (bg_thread_dbutils h') = trace (bg_thread_dbutils h) @ evs \<and> executed_of evs = []"
proof (cases "p = 0")
  case True
  with assms show ?thesis by (auto simp: after_batch_def)
next
  case False
  obtain rc dc where cm: "commit (bg_thread_dbutils h) = (rc, dc)"
    by (cases "commit (bg_thread_dbutils h)")
  from commit_quiet[OF cm] obtain evs1 where
    e1: "trace dc = trace (bg_thread_dbutils h) @ evs1" "executed_of evs1 = []" by blast
  obtain rr dr where rb: "rollback dc = (rr, dr)" by (cases "rollback dc")
  from rollback_quiet[OF rb] obtain evs2 where
    e2: "trace dr = trace dc @ evs2" "executed_of evs2 = []" by blast
  have "bg_thread_dbutils h' = dc \<or> bg_thread_dbutils h' = dr"
    using assms False cm rb by (auto simp: after_batch_def split: sum.splits bool.splits)
  then show ?thesis
  proof
    assume "bg_thread_dbutils h' = dc"
    with e1 show ?thesis by blast
  next
    assume "bg_thread_dbutils h' = dr"
    with e1 e2 have "trace (bg_thread_dbutils h') = trace (bg_thread_dbutils h) @ (evs1 @ evs2)"
      "executed_of (evs1 @ evs2) = []" by (simp_all add: executed_of_append)
    then show ?thesis by blast
  qed
qed

lemma blames_hit:
  "blames evs (Some e1) \<Longrightarrow> (Execute s, Raises e) \<in> set evs \<Longrightarrow>
   e1 = e \<or> (\<exists>ec. (CloseCursor, Raises ec) \<in> set evs \<and> e1 = ec)"
  unfolding blames_def by blast

lemma blames_miss:
  "blames evs None \<Longrightarrow> (Execute s, Raises e) \<notin> set evs"
  unfolding blames_def by blast

lemma rollback_open_facts:
  assumes "connection d = Some c" and "rollback d = (rres, dr)"
  shows "trace dr = trace d @ [(Rollback, replies d (length (trace d)))]"
    and "committed dr = committed d"
    and "(\<forall>er. replies d (length (trace d)) \<noteq> Raises er) \<Longrightarrow>
           connection dr = Some (c\<lparr>pending := []\<rparr>) \<and> rres = Inr True"
    and "replies d (length (trace d)) = Raises er \<Longrightarrow> rres = Inl er"
  using assms by (auto simp: rollback_def dbapi_def Let_def split: reply.splits)

lemma commit_open_facts:
  assumes "connection d = Some c" and "commit d = (r, d')"
  shows "trace d' = trace d @ [(Commit, replies d (length (trace d)))]"
    and "replies d' = replies d"
    and "(\<forall>e. replies d (length (trace d)) \<noteq> Raises e) \<Longrightarrow>
           r = Inr True \<and> committed d' = committed d @ pending c \<and>
           connection d' = Some (c\<lparr>pending := []\<rparr>)"
    and "replies d (length (trace d)) = Raises e \<Longrightarrow>
           r = Inl e \<and> committed d' = committed d \<and> connection d' = Some c"
  using assms
  by (auto simp: commit_def dbapi_def Let_def split: reply.splits exn.splits if_splits)

lemmas fixture_defs = fresh_historian_def fresh_driver_def quiet_backend_def item_A_def item_a_def lower_A

lemma quiet_executed:
  "trace d' = trace d @ evs \<Longrightarrow> executed_of evs = [] \<Longrightarrow> executed d' = executed d"
  by (simp add: executed_def executed_of_append)

lemma after_batch_caches:
  assumes "after_batch p n h = (r, h')"
  shows "topic_id_map h' = topic_id_map h" and "topic_name_map h' = topic_name_map h"
    and "topic_meta h' = topic_meta h"
  using assms
  by (auto simp: after_batch_def split: if_splits prod.splits sum.splits bool.splits)

lemma publish_after_loop:
  assumes run: "publish_to_historian xs h = (res, h')"
    and loop: "publish_loop xs 0 h = (r1, h1)"
  shows "topic_id_map h' = topic_id_map h1" and "topic_name_map h' = topic_name_map h1"
    and "topic_meta h' = topic_meta h1"
    and "executed (bg_thread_dbutils h') = executed (bg_thread_dbutils h1)"
    and "res = Inr () \<Longrightarrow> \<exists>n. r1 = Inr n"
proof -
  obtain rb h2 where body: "publish_body xs h = (rb, h2)" by (cases "publish_body xs h")
  obtain rr dr where rb: "rollback (bg_thread_dbutils h2) = (rr, dr)"
    by (cases "rollback (bg_thread_dbutils h2)")
  from rollback_quiet[OF rb] obtain evs3 where
    q3: "trace dr = trace (bg_thread_dbutils h2) @ evs3" "executed_of evs3 = []" by blast
  have h': "h' = h2 \<or> h' = h2\<lparr>bg_thread_dbutils := dr\<rparr>"
    using run body rb
    by (cases rb; cases rr) (simp_all add: publish_to_historian_def split: if_splits)
  have res: "res = Inr () \<Longrightarrow> rb = Inr ()"
    using run body rb
    by (cases rb; cases rr) (simp_all add: publish_to_historian_def split: if_splits)
  have ex': "executed (bg_thread_dbutils h') = executed (bg_thread_dbutils h2)"
    using h' quiet_executed[OF q3] by auto
  have "topic_id_map h2 = topic_id_map h1 \<and> topic_name_map h2 = topic_name_map h1 \<and>
        topic_meta h2 = topic_meta h1 \<and>
        executed (bg_thread_dbutils h2) = executed (bg_thread_dbutils h1) \<and>
        (rb = Inr () \<longrightarrow> (\<exists>n. r1 = Inr n))"
  proof (cases r1)
    case (Inl e)
    with body loop show ?thesis by (auto simp: publish_body_def)
  next
    case (Inr n)
    with body loop have ab: "after_batch n (length xs) h1 = (rb, h2)" by (simp add: publish_body_def)
    from after_batch_quiet[OF ab] obtain evs2 where
      q2: "trace (bg_thread_dbutils h2) = trace (bg_thread_dbutils h1) @ evs2" "executed_of evs2 = []"
      by blast
    from after_batch_caches[OF ab] quiet_executed[OF q2] Inr show ?thesis by simp
  qed
  with h' ex' res
  show "topic_id_map h' = topic_id_map h1" and "topic_name_map h' = topic_name_map h1"
    and "topic_meta h' = topic_meta h1"
    and "executed (bg_thread_dbutils h') = executed (bg_thread_dbutils h1)"
    and "res = Inr () \<Longrightarrow> \<exists>n. r1 = Inr n"
    by auto
qed

lemma carries_executed:
  "carries h h' err ss \<Longrightarrow> executed (bg_thread_dbutils h') = executed (bg_thread_dbutils h) @ ss"
  by (auto simp: carries_def dest: effect_executed)

lemma publish_record_unchanged:
  assumes id: "topic_id_map h (lower (topic x)) = Some i"
    and name: "topic_name_map h (lower (topic x)) = Some (topic x)"
    and same: "meta_get (topic_meta h) (Some i) = meta x"
    and run: "publish_record x p h = (r, h')"
  shows "carries h h' (err_of r) [] \<or>
         carries h h' (err_of r) [insert_data_query (timestamp x) i (val x)]"
proof -
  from id name same run have "write_data x i p h = (r, h')"
    by (simp add: publish_record_def resolve_topic_def write_meta_def Let_def)
  from write_data_any(1)[OF this] show ?thesis .
qed

lemma publish_loop_single:
  "publish_loop [x] p h = publish_record x p h"
  by (cases "publish_record x p h") (auto split: sum.splits)

lemma publish_loop_rows:
  "publish_loop xs p h = (Inr n, h') \<Longrightarrow>
   \<forall>x \<in> set xs. \<exists>i. topic_id_map h' (lower (topic x)) = Some i \<and>
      insert_data_query (timestamp x) i (val x) \<in> set (executed (bg_thread_dbutils h'))"
proof (induction xs arbitrary: p h)
  case Nil
  then show ?case by simp
next
  case (Cons x xs)
  from Cons.prems obtain q h1 where
    step: "publish_record x p h = (Inr q, h1)" and rest: "publish_loop xs q h1 = (Inr n, h')"
    by (auto split: prod.splits sum.splits)
  from publish_record_ok[OF step] obtain i ss where
    i: "topic_id_map h1 (lower (topic x)) = Some i"
    and c1: "carries h h1 None (ss @ [insert_data_query (timestamp x) i (val x)])"
    by (metis append.assoc fun_upd_same)
  from publish_loop_any[OF rest] obtain ss2 where c2: "carries h1 h' None ss2" by auto
  have "topic_id_map h' (lower (topic x)) = Some i" using c2 i by (simp add: carries_def)
  moreover have "insert_data_query (timestamp x) i (val x) \<in> set (executed (bg_thread_dbutils h'))"
    using carries_executed[OF c1] carries_executed[OF c2] by simp
  ultimately have "\<exists>i. topic_id_map h' (lower (topic x)) = Some i \<and>
      insert_data_query (timestamp x) i (val x) \<in> set (executed (bg_thread_dbutils h'))" by blast
  with Cons.IH[OF rest] show ?case by simp
qed

lemma publish_loop_append:
  "publish_loop (ys @ zs) p h = (Inr n, h') \<Longrightarrow>
   \<exists>q h1. publish_loop ys p h = (Inr q, h1) \<and> publish_loop zs q h1 = (Inr n, h')"
proof (induction ys arbitrary: p h)
  case Nil
  then show ?case by simp
next
  case (Cons y ys)
  from Cons.prems obtain q h1 where
    step: "publish_record y p h = (Inr q, h1)" and rest: "publish_loop (ys @ zs) q h1 = (Inr n, h')"
    by (auto split: prod.splits sum.splits)
  from Cons.IH[OF rest] step show ?case by simp
qed

lemma publish_loop_other_names:
  "publish_loop zs p h = (Inr n, h') \<Longrightarrow> \<forall>z \<in> set zs. lower (topic z) \<noteq> k \<Longrightarrow>
   topic_name_map h' k = topic_name_map h k"
proof (induction zs arbitrary: p h)
  case Nil
  then show ?case by simp
next
  case (Cons z zs)
  from Cons.prems(1) obtain q h1 where
    step: "publish_record z p h = (Inr q, h1)" and rest: "publish_loop zs q h1 = (Inr n, h')"
    by (auto split: prod.splits sum.splits)
  from publish_record_ok[OF step] have "topic_name_map h1 = (topic_name_map h)(lower (topic z) \<mapsto> topic z)"
    by blast
  with Cons.prems(2) have "topic_name_map h1 k = topic_name_map h k" by auto
  moreover from Cons.IH[OF rest] Cons.prems(2) have "topic_name_map h' k = topic_name_map h1 k" by simp
  ultimately show ?case by simp
qed

lemma publish_loop_last_casing:
  assumes "publish_loop (ys @ x # zs) p h = (Inr n, h')"
    and "\<forall>z \<in> set zs. lower (topic z) \<noteq> lower (topic x)"
  shows "topic_name_map h' (lower (topic x)) = Some (topic x)"
proof -
  from publish_loop_append[OF assms(1)] obtain q h1 where
    "publish_loop (x # zs) q h1 = (Inr n, h')" by blast
  then obtain q2 h2 where
    step: "publish_record x q h1 = (Inr q2, h2)" and rest: "publish_loop zs q2 h2 = (Inr n, h')"
    by (auto split: prod.splits sum.splits)
  from publish_record_ok[OF step] have "topic_name_map h2 (lower (topic x)) = Some (topic x)"
    by auto
  with publish_loop_other_names[OF rest assms(2)] show ?thesis by simp
qed

lemma execute_then_close_rowid:
  assumes "cursor_execute s d1 = (r2, d2)" and "closing r2 d2 = (Inr v, d')"
  shows "\<exists>rp rc. trace d' = trace d1 @ [(Execute s, rp), (CloseCursor, rc)] \<and> v = returned rp"
  using assms
  by (auto simp: cursor_execute_def closing_def dbapi_def Let_def
      split: prod.splits reply.splits if_splits)

lemma insert_topic_rowid:
  assumes "insert_topic t m d = (Inr v, d')"
  shows "\<exists>r. (Execute (insert_stmt d t m), r) \<in> set (new_events d d') \<and> v = returned r"
proof -
  obtain rc d1 where c: "cursor d = (rc, d1)" by (cases "cursor d")
  with assms obtain cur where rc: "rc = Inr cur"
    by (auto simp: insert_topic_def Let_def split: sum.splits)
  obtain r2 d2 where ex: "cursor_execute (insert_stmt d t m) d1 = (r2, d2)"
    by (cases "cursor_execute (insert_stmt d t m) d1")
  from assms c rc ex have cl: "closing r2 d2 = (Inr v, d')"
    by (auto simp: insert_topic_def insert_stmt_def Let_def split: sum.splits)
  from execute_then_close_rowid[OF ex cl] obtain rp rcl where
    t2: "trace d' = trace d1 @ [(Execute (insert_stmt d t m), rp), (CloseCursor, rcl)]"
    and v: "v = returned rp" by blast
  from effect_traceD[OF cursor_effect(1)[OF c]]
  have t1: "trace d1 = trace d @ new_events d d1" .
  have "trace d' = trace d @ (new_events d d1 @ [(Execute (insert_stmt d t m), rp), (CloseCursor, rcl)])"
    using t1 t2 by simp
  then have "new_events d d' = new_events d d1 @ [(Execute (insert_stmt d t m), rp), (CloseCursor, rcl)]"
    by (simp add: new_events_def[of d d'])
  with v show ?thesis by auto
qed

lemma carries_new_events:
  assumes "carries h h1 e1 ss1" and "carries h1 h2 e2 ss2"
  shows "set (new_events (bg_thread_dbutils h) (bg_thread_dbutils h1)) \<subseteq>
         set (new_events (bg_thread_dbutils h) (bg_thread_dbutils h2))"
proof -
  from assms have t1: "trace (bg_thread_dbutils h1) =
      trace (bg_thread_dbutils h) @ new_events (bg_thread_dbutils h) (bg_thread_dbutils h1)"
    and t2: "trace (bg_thread_dbutils h2) =
      trace (bg_thread_dbutils h1) @ new_events (bg_thread_dbutils h1) (bg_thread_dbutils h2)"
    by (auto simp: carries_def dest: effect_traceD)
  have "trace (bg_thread_dbutils h2) = trace (bg_thread_dbutils h) @
      (new_events (bg_thread_dbutils h) (bg_thread_dbutils h1) @
       new_events (bg_thread_dbutils h1) (bg_thread_dbutils h2))"
    using t1 t2 by simp
  then have "new_events (bg_thread_dbutils h) (bg_thread_dbutils h2) =
      new_events (bg_thread_dbutils h) (bg_thread_dbutils h1) @
       new_events (bg_thread_dbutils h1) (bg_thread_dbutils h2)"
    by (simp add: new_events_def[of "bg_thread_dbutils h" "bg_thread_dbutils h2"])
  then show ?thesis by simp
qed

lemma publish_record_unknown_rowid:
  assumes none: "topic_id_map h (lower (topic x)) = None"
    and run: "publish_record x p h = (Inr n, h')"
  shows "\<exists>r. (Execute (insert_stmt (bg_thread_dbutils h) (topic x) (Some (meta x))), r)
             \<in> set (new_events (bg_thread_dbutils h) (bg_thread_dbutils h')) \<and>
           topic_id_map h' (lower (topic x)) = Some (returned r)"
proof -
  define old where "old = meta_get (topic_meta h) (topic_id_map h (lower (topic x)))"
  obtain r1 h1 where rt: "resolve_topic x old h = (r1, h1)" by (cases "resolve_topic x old h")
  with run obtain i fl where rt': "resolve_topic x old h = (Inr (i, fl), h1)"
    by (auto simp: publish_record_def Let_def old_def split: sum.splits)
  obtain r2 h2 where wm: "write_meta x old i fl h1 = (r2, h2)"
    by (cases "write_meta x old i fl h1")
  with run rt' obtain u where wm': "write_meta x old i fl h1 = (Inr u, h2)"
    by (auto simp: publish_record_def Let_def old_def split: sum.splits)
  from run rt' wm' have wd: "write_data x i p h2 = (Inr n, h')"
    by (auto simp: publish_record_def Let_def old_def)
  from rt' none have it: "insert_topic (topic x) (Some (meta x)) (bg_thread_dbutils h) = (Inr i, bg_thread_dbutils h1)"
    by (auto simp: resolve_topic_def Let_def split: prod.splits sum.splits)
  from insert_topic_rowid[OF it] obtain r where
    r: "(Execute (insert_stmt (bg_thread_dbutils h) (topic x) (Some (meta x))), r)
          \<in> set (new_events (bg_thread_dbutils h) (bg_thread_dbutils h1))" "i = returned r" by blast
  have c12: "carries h1 h' None (meta_stmts x old i fl h1 @ [insert_data_query (timestamp x) i (val x)])"
    by (rule carries_trans[OF write_meta_ok(1)[OF wm'] write_data_ok(1)[OF wd]])
  from carries_new_events[OF resolve_topic_ok(1)[OF rt'] c12] r(1)
  have "(Execute (insert_stmt (bg_thread_dbutils h) (topic x) (Some (meta x))), r)
          \<in> set (new_events (bg_thread_dbutils h) (bg_thread_dbutils h'))" by blast
  moreover have "topic_id_map h' (lower (topic x)) = Some i"
    using resolve_topic_ok(2)[OF rt'] write_meta_ok(3)[OF wm'] write_data_any(3)[OF wd] by simp
  ultimately show ?thesis using r(2) by blast
qed

lemma lower_device: "lower ''DEVICE/TEMP'' = ''device/temp''" "lower ''device/temp'' = ''device/temp''"
  "lower ''Device/Temp'' = ''device/temp''"
  by code_simp+

lemma statement_failure:
  assumes run: "publish_to_historian xs h = (res, h')"
    and raised: "(Execute s, Raises e) \<in> set (new_events (bg_thread_dbutils h) (bg_thread_dbutils h'))"
  shows "(\<exists>e'. res = Inl e') \<and>
         (is_exception e \<and>
          (\<forall>ec. (CloseCursor, Raises ec) \<in> set (new_events (bg_thread_dbutils h) (bg_thread_dbutils h'))
             \<longrightarrow> is_exception ec) \<longrightarrow>
            (\<exists>rr. last (trace (bg_thread_dbutils h')) = (Rollback, rr) \<and>
               ((\<forall>er. rr \<noteq> Raises er) \<longrightarrow>
                  (\<exists>c. connection (bg_thread_dbutils h') = Some c \<and> pending c = [])))) \<and>
         ((\<forall>ec. (CloseCursor, Raises ec) \<notin> set (new_events (bg_thread_dbutils h) (bg_thread_dbutils h'))) \<and>
          (\<forall>er. (Rollback, Raises er) \<notin> set (new_events (bg_thread_dbutils h) (bg_thread_dbutils h')))
            \<longrightarrow> res = Inl e) \<and>
         (\<not> is_exception e \<and>
          (\<forall>ec. (CloseCursor, Raises ec) \<notin> set (new_events (bg_thread_dbutils h) (bg_thread_dbutils h')))
            \<longrightarrow> (\<forall>r. (Rollback, r) \<notin> set (new_events (bg_thread_dbutils h) (bg_thread_dbutils h'))))"
proof -
  obtain r1 h1 where loop: "publish_loop xs 0 h = (r1, h1)" by (cases "publish_loop xs 0 h")
  from publish_loop_any[OF loop] obtain ss where c: "carries h h1 (err_of r1) ss" by blast
  then have eff: "effect (bg_thread_dbutils h) (bg_thread_dbutils h1) (err_of r1) ss"
    by (simp add: carries_def)
  define evs where "evs = new_events (bg_thread_dbutils h) (bg_thread_dbutils h1)"
  define new where "new = new_events (bg_thread_dbutils h) (bg_thread_dbutils h')"
  note raised' = raised[folded new_def]
  have t1: "trace (bg_thread_dbutils h1) = trace (bg_thread_dbutils h) @ evs"
    unfolding evs_def by (rule effect_traceD[OF eff])
  have bl: "blames evs (err_of r1)" using eff by (simp add: effect_def evs_def)
  have op: "(\<exists>s e. (Execute s, Raises e) \<in> set evs) \<longrightarrow> connection (bg_thread_dbutils h1) \<noteq> None"
    using eff by (simp add: effect_def evs_def)
  have norb: "\<forall>r. (Rollback, r) \<notin> set evs"
    using eff by (simp add: effect_def evs_def)
  have goal: "(\<exists>e'. res = Inl e') \<and>
         (is_exception e \<and> (\<forall>ec. (CloseCursor, Raises ec) \<in> set new \<longrightarrow> is_exception ec) \<longrightarrow>
            (\<exists>rr. last (trace (bg_thread_dbutils h')) = (Rollback, rr) \<and>
               ((\<forall>er. rr \<noteq> Raises er) \<longrightarrow>
                  (\<exists>c. connection (bg_thread_dbutils h') = Some c \<and> pending c = [])))) \<and>
         ((\<forall>ec. (CloseCursor, Raises ec) \<notin> set new) \<and> (\<forall>er. (Rollback, Raises er) \<notin> set new)
            \<longrightarrow> res = Inl e) \<and>
         (\<not> is_exception e \<and> (\<forall>ec. (CloseCursor, Raises ec) \<notin> set new)
            \<longrightarrow> (\<forall>r. (Rollback, r) \<notin> set new))"
  proof (cases r1)
    case (Inr published)
    with bl have noex: "(Execute s, Raises e) \<notin> set evs" by (simp add: blames_miss)
    obtain rb h2 where ab: "after_batch published (length xs) h1 = (rb, h2)"
      by (cases "after_batch published (length xs) h1")
    from after_batch_quiet[OF ab] obtain evs2 where
      q2: "trace (bg_thread_dbutils h2) = trace (bg_thread_dbutils h1) @ evs2" "executed_of evs2 = []"
      by blast
    obtain rr dr where rb: "rollback (bg_thread_dbutils h2) = (rr, dr)"
      by (cases "rollback (bg_thread_dbutils h2)")
    from rollback_quiet[OF rb] obtain evs3 where
      q3: "trace dr = trace (bg_thread_dbutils h2) @ evs3" "executed_of evs3 = []" by blast
    from loop Inr ab have body: "publish_body xs h = (rb, h2)" by (simp add: publish_body_def)
    have "h' = h2 \<or> h' = h2\<lparr>bg_thread_dbutils := dr\<rparr>"
      using run body rb
      by (cases rb; cases rr) (simp_all add: publish_to_historian_def split: if_splits)
    then have "bg_thread_dbutils h' = bg_thread_dbutils h2 \<or> bg_thread_dbutils h' = dr"
      by auto
    then have "\<exists>evs'. trace (bg_thread_dbutils h') = trace (bg_thread_dbutils h) @ evs @ evs' \<and>
                    executed_of evs' = []"
    proof
      assume "bg_thread_dbutils h' = bg_thread_dbutils h2"
      with q2 t1 show ?thesis by simp
    next
      assume "bg_thread_dbutils h' = dr"
      with q2 q3 t1 have "trace (bg_thread_dbutils h') = trace (bg_thread_dbutils h) @ evs @ (evs2 @ evs3)"
        "executed_of (evs2 @ evs3) = []" by (simp_all add: executed_of_append)
      then show ?thesis by blast
    qed
    then obtain evs' where
      n: "new = evs @ evs'" and q: "executed_of evs' = []"
      by (auto simp: new_events_def new_def)
    from raised' have "(Execute s, Raises e) \<in> set evs \<or> (Execute s, Raises e) \<in> set evs'"
      unfolding n by simp
    with noex executed_of_member[of s "Raises e" evs'] q have False
      by blast
    then show ?thesis ..
  next
    case (Inl e1)
    have body: "publish_body xs h = (Inl e1, h1)" using loop Inl by (simp add: publish_body_def)
    from bl Inl have bl1: "blames evs (Some e1)" by simp
    show ?thesis
    proof (cases "is_exception e1")
      case False
      with run body have out: "h' = h1" "res = Inl e1"
        by (simp_all add: publish_to_historian_def)
      have ne: "new = evs" using out(1) by (simp add: new_def evs_def)
      from raised' have inl: "(Execute s, Raises e) \<in> set evs" unfolding ne .
      from blames_hit[OF bl1 inl]
      have e1: "e1 = e \<or> (\<exists>ec. (CloseCursor, Raises ec) \<in> set evs \<and> e1 = ec)" .
      have r: "\<exists>e'. res = Inl e'" using out(2) by simp
      have rbk: "is_exception e \<and> (\<forall>ec. (CloseCursor, Raises ec) \<in> set new \<longrightarrow> is_exception ec) \<longrightarrow>
            (\<exists>rr. last (trace (bg_thread_dbutils h')) = (Rollback, rr) \<and>
               ((\<forall>er. rr \<noteq> Raises er) \<longrightarrow>
                  (\<exists>c. connection (bg_thread_dbutils h') = Some c \<and> pending c = [])))"
      proof
        assume a: "is_exception e \<and> (\<forall>ec. (CloseCursor, Raises ec) \<in> set new \<longrightarrow> is_exception ec)"
        from e1 have "is_exception e1"
        proof
          assume "e1 = e" with a show ?thesis by simp
        next
          assume "\<exists>ec. (CloseCursor, Raises ec) \<in> set evs \<and> e1 = ec"
          then obtain ec where "(CloseCursor, Raises ec) \<in> set new" "e1 = ec" unfolding ne by blast
          with a show ?thesis by blast
        qed
        with False have False by simp
        then show "\<exists>rr. last (trace (bg_thread_dbutils h')) = (Rollback, rr) \<and>
               ((\<forall>er. rr \<noteq> Raises er) \<longrightarrow>
                  (\<exists>c. connection (bg_thread_dbutils h') = Some c \<and> pending c = []))" ..
      qed
      have same: "(\<forall>ec. (CloseCursor, Raises ec) \<notin> set new) \<and> (\<forall>er. (Rollback, Raises er) \<notin> set new)
            \<longrightarrow> res = Inl e"
      proof
        assume "(\<forall>ec. (CloseCursor, Raises ec) \<notin> set new) \<and> (\<forall>er. (Rollback, Raises er) \<notin> set new)"
        then have "\<forall>ec. (CloseCursor, Raises ec) \<notin> set evs" unfolding ne by simp
        with e1 have "e1 = e" by blast
        then show "res = Inl e" using out(2) by simp
      qed
      have noroll: "\<not> is_exception e \<and> (\<forall>ec. (CloseCursor, Raises ec) \<notin> set new)
            \<longrightarrow> (\<forall>r. (Rollback, r) \<notin> set new)"
        using norb unfolding ne by simp
      show ?thesis
        by (intro conjI) (rule r, rule rbk, rule same, rule noroll)
    next
      case True
      obtain rres dr where rb: "rollback (bg_thread_dbutils h1) = (rres, dr)"
        by (cases "rollback (bg_thread_dbutils h1)")
      from run body rb True have out: "h' = h1\<lparr>bg_thread_dbutils := dr\<rparr>"
        "res = (case rres of Inl e' \<Rightarrow> Inl e' | Inr b \<Rightarrow> Inl e1)"
        by (cases rres; simp add: publish_to_historian_def)+
      show ?thesis
      proof (cases "connection (bg_thread_dbutils h1)")
        case None
        with rb have "trace dr = trace (bg_thread_dbutils h1)" by (auto simp: rollback_def)
        with out(1) have "new = evs"
          by (simp add: new_events_def evs_def new_def)
        with raised' have "(Execute s, Raises e) \<in> set evs" by simp
        with op None have False by blast
        then show ?thesis ..
      next
        case (Some c)
        define rr where "rr = replies (bg_thread_dbutils h1) (length (trace (bg_thread_dbutils h1)))"
        note ro = rollback_open_facts[OF Some rb, folded rr_def]
        have ne: "new = evs @ [(Rollback, rr)]"
          using out(1) ro(1) t1 by (simp add: new_events_def new_def)
        have tr: "last (trace (bg_thread_dbutils h')) = (Rollback, rr)"
          using out(1) ro(1) by simp
        have pe: "(\<forall>er. rr \<noteq> Raises er) \<longrightarrow>
                  (\<exists>c. connection (bg_thread_dbutils h') = Some c \<and> pending c = [])"
          using out(1) ro(3) by simp
        from raised' have inl: "(Execute s, Raises e) \<in> set evs" unfolding ne by simp
        from blames_hit[OF bl1 inl]
        have e1: "e1 = e \<or> (\<exists>ec. (CloseCursor, Raises ec) \<in> set evs \<and> e1 = ec)" .
        have r: "\<exists>e'. res = Inl e'" using out(2) by (cases rres) simp_all
        have same: "(\<forall>ec. (CloseCursor, Raises ec) \<notin> set new) \<and> (\<forall>er. (Rollback, Raises er) \<notin> set new)
              \<longrightarrow> res = Inl e"
        proof
          assume a: "(\<forall>ec. (CloseCursor, Raises ec) \<notin> set new) \<and> (\<forall>er. (Rollback, Raises er) \<notin> set new)"
          then have "\<forall>ec. (CloseCursor, Raises ec) \<notin> set evs" unfolding ne by simp
          with e1 have "e1 = e" by blast
          moreover from a have "\<forall>er. rr \<noteq> Raises er" unfolding ne by auto
          with ro(3) have "rres = Inr True" by blast
          ultimately show "res = Inl e" using out(2) by simp
        qed
        have rbk: "is_exception e \<and> (\<forall>ec. (CloseCursor, Raises ec) \<in> set new \<longrightarrow> is_exception ec) \<longrightarrow>
            (\<exists>rr. last (trace (bg_thread_dbutils h')) = (Rollback, rr) \<and>
               ((\<forall>er. rr \<noteq> Raises er) \<longrightarrow>
                  (\<exists>c. connection (bg_thread_dbutils h') = Some c \<and> pending c = [])))"
          using tr pe by blast
        have noroll: "\<not> is_exception e \<and> (\<forall>ec. (CloseCursor, Raises ec) \<notin> set new)
              \<longrightarrow> (\<forall>r. (Rollback, r) \<notin> set new)"
        proof
          assume a: "\<not> is_exception e \<and> (\<forall>ec. (CloseCursor, Raises ec) \<notin> set new)"
          then have "\<forall>ec. (CloseCursor, Raises ec) \<notin> set evs" unfolding ne by simp
          with e1 have "e1 = e" by blast
          with a True have False by simp
          then show "\<forall>r. (Rollback, r) \<notin> set new" ..
        qed
        show ?thesis
          by (intro conjI) (rule r, rule rbk, rule same, rule noroll)
      qed
    qed
  qed
  then show ?thesis unfolding new_def .
qed


lemma rollback_committed: "rollback d = (r, d') \<Longrightarrow> committed d' = committed d"
  by (auto simp: rollback_def dbapi_def Let_def split: option.splits reply.splits)

lemma commit_failed_committed:
  "commit d = (r, d') \<Longrightarrow> r \<noteq> Inr True \<Longrightarrow> committed d' = committed d"
  by (auto simp: commit_def dbapi_def Let_def split: option.splits reply.splits exn.splits if_splits)

lemma after_batch_failed:
  assumes "after_batch p n h = (Inl e, h')"
  shows "committed (bg_thread_dbutils h') = committed (bg_thread_dbutils h)"
    and "all_handled h' = all_handled h"
proof -
  obtain rc dc where cm: "commit (bg_thread_dbutils h) = (rc, dc)"
    by (cases "commit (bg_thread_dbutils h)")
  obtain rr dr where rb: "rollback dc = (rr, dr)" by (cases "rollback dc")
  from assms cm rb have "rc \<noteq> Inr True" "bg_thread_dbutils h' = dc \<or> bg_thread_dbutils h' = dr"
    "all_handled h' = all_handled h"
    by (auto simp: after_batch_def split: if_splits sum.splits bool.splits)
  with commit_failed_committed[OF cm] rollback_committed[OF rb]
  show "committed (bg_thread_dbutils h') = committed (bg_thread_dbutils h)"
    and "all_handled h' = all_handled h"
    by auto
qed

lemma publish_failure_commits_nothing:
  assumes run: "publish_to_historian xs h = (Inl e, h')"
  shows "committed (bg_thread_dbutils h') = committed (bg_thread_dbutils h)"
    and "all_handled h' = all_handled h"
proof -
  obtain rb h2 where body: "publish_body xs h = (rb, h2)" by (cases "publish_body xs h")
  with run obtain e2 where rb: "rb = Inl e2"
    by (cases rb) (simp_all add: publish_to_historian_def)
  obtain rr dr where roll: "rollback (bg_thread_dbutils h2) = (rr, dr)"
    by (cases "rollback (bg_thread_dbutils h2)")
  from run body rb roll have h': "h' = h2 \<or> h' = h2\<lparr>bg_thread_dbutils := dr\<rparr>"
    by (cases rr) (simp_all add: publish_to_historian_def split: if_splits)
  obtain r1 h1 where loop: "publish_loop xs 0 h = (r1, h1)" by (cases "publish_loop xs 0 h")
  from publish_loop_any[OF loop] have fr: "committed (bg_thread_dbutils h1) = committed (bg_thread_dbutils h)"
    "all_handled h1 = all_handled h"
    by (auto simp: carries_def effect_def)
  have "committed (bg_thread_dbutils h2) = committed (bg_thread_dbutils h1) \<and>
        all_handled h2 = all_handled h1"
  proof (cases r1)
    case (Inl e1)
    with body loop show ?thesis by (simp add: publish_body_def)
  next
    case (Inr n)
    with body loop rb have "after_batch n (length xs) h1 = (Inl e2, h2)"
      by (simp add: publish_body_def)
    from after_batch_failed[OF this] show ?thesis by simp
  qed
  with fr h' rollback_committed[OF roll]
  show "committed (bg_thread_dbutils h') = committed (bg_thread_dbutils h)"
    and "all_handled h' = all_handled h"
    by auto
qed

section \<open>Properties of the query path\<close>

lemma lower_char_idem: "lower_char (lower_char c) = lower_char c"
  by (simp add: lower_char_def)

lemma lower_idem: "lower (lower s) = lower s"
  by (simp add: lower_def lower_char_idem)

lemma lower_Nil: "lower s = [] \<longleftrightarrow> s = []"
  by (simp add: lower_def)

lemma lookup_topic_raw:
  "\<not> truthy_str agg \<Longrightarrow>
   lookup_topic md t agg per h = Inr (agg, agg_topic_id_map h, topic_id_map h (lower t))"
  by (simp add: lookup_topic_def)

lemma resolve_topics_frame:
  "resolve_topics md ts agg per ids names h = (r, h1) \<Longrightarrow>
   topic_id_map h1 = topic_id_map h \<and> topic_name_map h1 = topic_name_map h \<and>
   topic_meta h1 = topic_meta h \<and> bg_thread_dbutils h1 = bg_thread_dbutils h \<and>
   all_handled h1 = all_handled h"
proof (induction ts arbitrary: agg ids names h)
  case Nil
  then show ?case by simp
next
  case (Cons t ts)
  show ?case
  proof (cases "lookup_topic md t agg per h")
    case (Inl e)
    with Cons.prems show ?thesis by simp
  next
    case (Inr res)
    obtain agg' m tid where res: "res = (agg', m, tid)" by (cases res)
    show ?thesis
    proof (cases "truthy_id tid")
      case True
      then obtain i where i: "tid = Some i" "i \<noteq> 0" by (cases tid) auto
      with Cons.prems Inr res
      have "resolve_topics md ts agg' per (ids @ [i]) (names(i \<mapsto> t)) (h\<lparr>agg_topic_id_map := m\<rparr>) = (r, h1)"
        by simp
      from Cons.IH[OF this] show ?thesis by simp
    next
      case False
      with Cons.prems Inr res
      have "resolve_topics md ts agg' per ids names
              (h\<lparr>agg_topic_id_map := m, hlog := hlog h @ [WarnNoSuchTopic t]\<rparr>) = (r, h1)"
        by (cases tid) (auto split: if_splits)
      from Cons.IH[OF this] show ?thesis by simp
    qed
  qed
qed

lemma resolve_topics_raw_none:
  "\<not> truthy_str agg \<Longrightarrow> \<forall>t \<in> set ts. \<not> truthy_id (topic_id_map h (lower t)) \<Longrightarrow>
   resolve_topics md ts agg per ids names h =
     (Inr (agg, ids, names), h\<lparr>hlog := hlog h @ map WarnNoSuchTopic ts\<rparr>)"
proof (induction ts arbitrary: h)
  case Nil
  then show ?case by simp
next
  case (Cons t ts)
  from Cons.prems(2) have f: "\<not> truthy_id (topic_id_map h (lower t))" by simp
  let ?h = "h\<lparr>agg_topic_id_map := agg_topic_id_map h, hlog := hlog h @ [WarnNoSuchTopic t]\<rparr>"
  have step: "resolve_topics md (t # ts) agg per ids names h =
      resolve_topics md ts agg per ids names ?h"
    using f by (cases "topic_id_map h (lower t)") (simp_all add: lookup_topic_raw[OF Cons.prems(1)])
  have "\<forall>t \<in> set ts. \<not> truthy_id (topic_id_map ?h (lower t))" using Cons.prems(2) by simp
  from Cons.IH[OF Cons.prems(1) this] step show ?case by simp
qed

lemma resolve_topics_agg_none:
  assumes m: "get_agg_topic_map md = Inr m" and a: "a \<noteq> []"
  shows "\<forall>t \<in> set ts. \<not> truthy_id (agg_topic_id_map h (lower t, lower a, per)) \<and>
                        \<not> truthy_id (m (lower t, lower a, per)) \<Longrightarrow>
   \<exists>agg' h'. resolve_topics md ts (Some a) per ids names h = (Inr (agg', ids, names), h') \<and>
      hlog h' = hlog h @ map WarnNoSuchTopic ts"
  using a
proof (induction ts arbitrary: h a)
  case Nil
  then show ?case by simp
next
  case (Cons t ts)
  define key where "key = (lower t, lower a, per)"
  from Cons.prems(1) have f: "\<not> truthy_id (agg_topic_id_map h key)" "\<not> truthy_id (m key)"
    by (simp_all add: key_def)
  define M where "M = (case agg_topic_id_map h key of None \<Rightarrow> agg_topic_id_map h ++ m
                        | Some i \<Rightarrow> agg_topic_id_map h)"
  have lk: "lookup_topic md t (Some a) per h = Inr (Some (lower a), M, M key)"
    using Cons.prems(2) m
    by (auto simp: lookup_topic_def Let_def key_def M_def split: option.splits)
  have fM: "\<not> truthy_id (M key)"
    using f by (auto simp: M_def map_add_def split: option.splits)
  let ?h = "h\<lparr>agg_topic_id_map := M, hlog := hlog h @ [WarnNoSuchTopic t]\<rparr>"
  have step: "resolve_topics md (t # ts) (Some a) per ids names h =
      resolve_topics md ts (Some (lower a)) per ids names ?h"
    using fM lk by (cases "M key") simp_all
  have inv: "\<forall>t \<in> set ts. \<not> truthy_id (agg_topic_id_map ?h (lower t, lower (lower a), per)) \<and>
                        \<not> truthy_id (m (lower t, lower (lower a), per))"
    using Cons.prems(1) by (auto simp: M_def lower_idem map_add_def split: option.splits)
  have "lower a \<noteq> []" using Cons.prems(2) by (simp add: lower_Nil)
  from Cons.IH[OF inv this] step show ?case by auto
qed

lemma truthy_str_lower: "truthy_str (Some (lower a)) = truthy_str (Some a)"
  by (simp add: lower_Nil)

lemma resolve_single:
  assumes "resolve_topics md [t] agg per [] Map.empty h = (Inr (agg', ids, names), h1)"
    and "ids \<noteq> []"
  shows "truthy_str agg' = truthy_str agg"
    and "\<not> truthy_str agg \<Longrightarrow> \<exists>i. ids = [i] \<and> topic_id_map h (lower t) = Some i"
proof -
  have "truthy_str agg' = truthy_str agg \<and>
        (\<not> truthy_str agg \<longrightarrow> (\<exists>i. ids = [i] \<and> topic_id_map h (lower t) = Some i))"
  proof (cases "truthy_str agg")
    case False
    with assms show ?thesis
      by (cases "topic_id_map h (lower t)") (auto simp: lookup_topic_raw split: if_splits)
  next
    case True
    then obtain a where a: "agg = Some a" "a \<noteq> []" by (cases agg) auto
    have "\<exists>m tid. lookup_topic md t agg per h = Inr (Some (lower a), m, tid) \<or>
          (\<exists>e. lookup_topic md t agg per h = Inl e)"
      using a by (auto simp: lookup_topic_def Let_def split: option.splits sum.splits)
    with assms(1) have "agg' = Some (lower a)"
      by (auto split: option.splits if_splits)
    with a True show ?thesis by (simp add: lower_Nil)
  qed
  then show "truthy_str agg' = truthy_str agg"
    and "\<not> truthy_str agg \<Longrightarrow> \<exists>i. ids = [i] \<and> topic_id_map h (lower t) = Some i" by auto
qed

section \<open>Claims\<close>

subsection \<open>C1\<close>

text \<open>
  Claim C1 as stated fails for an exception that is not an instance of \<^verbatim>\<open>Exception\<close>:
  the handler of \<^verbatim>\<open>publish_to_historian\<close> is an \<^verbatim>\<open>except Exception\<close> clause. Here the data
  insert of the third of five records raises \<^verbatim>\<open>KeyboardInterrupt\<close>: the exception reaches
  the caller, the last call on the connection is the closing of the cursor, not a
  \<^verbatim>\<open>rollback\<close>, and the statements of the first two records stay in the open transaction.
\<close>

theorem interrupted_statement_counterexample:
  "fst (publish_to_historian five_items interrupted_historian) =
     Inl (BuiltinBaseException ''KeyboardInterrupt'') \<and>
   trace (bg_thread_dbutils (snd (publish_to_historian five_items interrupted_historian))) =
      [(Connect, Returns 1), (GetCursor, Returns 1),
       (Execute (insert_topic_query ''A''), Returns 1), (CloseCursor, Returns 1),
       (GetCursor, Returns 1), (Execute (insert_data_query 100 1 ''1''), Returns 1),
       (CloseCursor, Returns 1),
       (GetCursor, Returns 1), (Execute (insert_data_query 200 1 ''2''), Returns 1),
       (CloseCursor, Returns 1),
       (GetCursor, Returns 1),
       (Execute (insert_data_query 300 1 ''3''), Raises (BuiltinBaseException ''KeyboardInterrupt'')),
       (CloseCursor, Returns 1)] \<and>
   connection (bg_thread_dbutils (snd (publish_to_historian five_items interrupted_historian))) =
     Some \<lparr>pending = [insert_topic_query ''A'', insert_data_query 100 1 ''1'',
                      insert_data_query 200 1 ''2''], closed = False\<rparr>"
  by (simp add: model_defs five_items_def interrupted_historian_def fresh_historian_def
      fresh_driver_def interrupted_third_def lower_A)

text \<open>
  Claim C1, amended. Whenever \<^verbatim>\<open>publish_to_historian\<close> raises, nothing of the batch is
  committed and the batch is not reported as handled. When a statement of the batch raises,
  \<^verbatim>\<open>publish_to_historian\<close> does raise. When the exception of the statement is an instance
  of \<^verbatim>\<open>Exception\<close>, and so is every exception raised by closing a cursor, the last call on
  the connection is \<^verbatim>\<open>rollback\<close>, after which (when that call returns) the open
  transaction is empty. The exception that reaches the caller is the one of the statement,
  unless closing the cursor or the rollback raised one of their own. When the exception of
  the statement is not an instance of \<^verbatim>\<open>Exception\<close> and closing the cursors raised
  nothing, \<^verbatim>\<open>rollback\<close> is not called.
\<close>

theorem failed_statement_aborts_batch:
  assumes run: "publish_to_historian xs h = (res, h')"
  shows "((\<exists>e'. res = Inl e') \<longrightarrow>
            committed (bg_thread_dbutils h') = committed (bg_thread_dbutils h) \<and>
            all_handled h' = all_handled h) \<and>
         ((Execute s, Raises e) \<in> set (new_events (bg_thread_dbutils h) (bg_thread_dbutils h')) \<longrightarrow>
            (\<exists>e'. res = Inl e') \<and>
            (is_exception e \<and>
             (\<forall>ec. (CloseCursor, Raises ec) \<in> set (new_events (bg_thread_dbutils h) (bg_thread_dbutils h'))
                \<longrightarrow> is_exception ec) \<longrightarrow>
               (\<exists>rr. last (trace (bg_thread_dbutils h')) = (Rollback, rr) \<and>
                  ((\<forall>er. rr \<noteq> Raises er) \<longrightarrow>
                     (\<exists>c. connection (bg_thread_dbutils h') = Some c \<and> pending c = [])))) \<and>
            ((\<forall>ec. (CloseCursor, Raises ec) \<notin> set (new_events (bg_thread_dbutils h) (bg_thread_dbutils h'))) \<and>
             (\<forall>er. (Rollback, Raises er) \<notin> set (new_events (bg_thread_dbutils h) (bg_thread_dbutils h')))
               \<longrightarrow> res = Inl e) \<and>
            (\<not> is_exception e \<and>
             (\<forall>ec. (CloseCursor, Raises ec) \<notin> set (new_events (bg_thread_dbutils h) (bg_thread_dbutils h')))
               \<longrightarrow> (\<forall>r. (Rollback, r) \<notin> set (new_events (bg_thread_dbutils h) (bg_thread_dbutils h')))))"
proof (intro conjI impI)
  assume "\<exists>e'. res = Inl e'"
  then obtain e' where "res = Inl e'" by blast
  with run have r: "publish_to_historian xs h = (Inl e', h')" by simp
  show "committed (bg_thread_dbutils h') = committed (bg_thread_dbutils h)"
    by (rule publish_failure_commits_nothing(1)[OF r])
  show "all_handled h' = all_handled h"
    by (rule publish_failure_commits_nothing(2)[OF r])
next
  assume raised: "(Execute s, Raises e) \<in> set (new_events (bg_thread_dbutils h) (bg_thread_dbutils h'))"
  from statement_failure[OF run raised] show "\<exists>e'. res = Inl e'" by (rule conjunct1)
next
  assume raised: "(Execute s, Raises e) \<in> set (new_events (bg_thread_dbutils h) (bg_thread_dbutils h'))"
    and q: "is_exception e \<and>
       (\<forall>ec. (CloseCursor, Raises ec) \<in> set (new_events (bg_thread_dbutils h) (bg_thread_dbutils h'))
          \<longrightarrow> is_exception ec)"
  from statement_failure[OF run raised]
  have "is_exception e \<and>
          (\<forall>ec. (CloseCursor, Raises ec) \<in> set (new_events (bg_thread_dbutils h) (bg_thread_dbutils h'))
             \<longrightarrow> is_exception ec) \<longrightarrow>
            (\<exists>rr. last (trace (bg_thread_dbutils h')) = (Rollback, rr) \<and>
               ((\<forall>er. rr \<noteq> Raises er) \<longrightarrow>
                  (\<exists>c. connection (bg_thread_dbutils h') = Some c \<and> pending c = [])))"
    by (elim conjE)
  from this q show "\<exists>rr. last (trace (bg_thread_dbutils h')) = (Rollback, rr) \<and>
               ((\<forall>er. rr \<noteq> Raises er) \<longrightarrow>
                  (\<exists>c. connection (bg_thread_dbutils h') = Some c \<and> pending c = []))"
    by (rule mp)
next
  assume raised: "(Execute s, Raises e) \<in> set (new_events (bg_thread_dbutils h) (bg_thread_dbutils h'))"
    and q: "(\<forall>ec. (CloseCursor, Raises ec) \<notin> set (new_events (bg_thread_dbutils h) (bg_thread_dbutils h'))) \<and>
             (\<forall>er. (Rollback, Raises er) \<notin> set (new_events (bg_thread_dbutils h) (bg_thread_dbutils h')))"
  from statement_failure[OF run raised]
  have "(\<forall>ec. (CloseCursor, Raises ec) \<notin> set (new_events (bg_thread_dbutils h) (bg_thread_dbutils h'))) \<and>
          (\<forall>er. (Rollback, Raises er) \<notin> set (new_events (bg_thread_dbutils h) (bg_thread_dbutils h')))
            \<longrightarrow> res = Inl e"
    by (elim conjE)
  from this q show "res = Inl e" by (rule mp)
next
  assume raised: "(Execute s, Raises e) \<in> set (new_events (bg_thread_dbutils h) (bg_thread_dbutils h'))"
    and q: "\<not> is_exception e \<and>
             (\<forall>ec. (CloseCursor, Raises ec) \<notin> set (new_events (bg_thread_dbutils h) (bg_thread_dbutils h')))"
  from statement_failure[OF run raised]
  have "\<not> is_exception e \<and>
          (\<forall>ec. (CloseCursor, Raises ec) \<notin> set (new_events (bg_thread_dbutils h) (bg_thread_dbutils h')))
            \<longrightarrow> (\<forall>r. (Rollback, r) \<notin> set (new_events (bg_thread_dbutils h) (bg_thread_dbutils h')))"
    by (elim conjE)
  from this q show "\<forall>r. (Rollback, r) \<notin> set (new_events (bg_thread_dbutils h) (bg_thread_dbutils h'))"
    by (rule mp)
qed

theorem failed_statement_aborts_batch_witness:
  "(Execute (insert_data_query 300 1 ''3''), Raises (DatabaseError ''constraint failed''))
     \<in> set (new_events (bg_thread_dbutils faulty_historian)
                (bg_thread_dbutils (snd (publish_to_historian five_items faulty_historian)))) \<and>
   is_exception (DatabaseError ''constraint failed'') \<and>
   fst (publish_to_historian five_items faulty_historian) = Inl (DatabaseError ''constraint failed'') \<and>
   committed (bg_thread_dbutils (snd (publish_to_historian five_items faulty_historian))) = [] \<and>
   \<not> all_handled (snd (publish_to_historian five_items faulty_historian)) \<and>
   connection (bg_thread_dbutils (snd (publish_to_historian five_items faulty_historian))) =
     Some \<lparr>pending = [], closed = False\<rparr> \<and>
   (Execute (insert_data_query 300 1 ''3''), Raises (BuiltinBaseException ''KeyboardInterrupt''))
     \<in> set (new_events (bg_thread_dbutils interrupted_historian)
                (bg_thread_dbutils (snd (publish_to_historian five_items interrupted_historian)))) \<and>
   \<not> is_exception (BuiltinBaseException ''KeyboardInterrupt'') \<and>
   fst (publish_to_historian five_items interrupted_historian) =
     Inl (BuiltinBaseException ''KeyboardInterrupt'') \<and>
   committed (bg_thread_dbutils (snd (publish_to_historian five_items interrupted_historian))) = [] \<and>
   (\<forall>r. (Rollback, r) \<notin> set (new_events (bg_thread_dbutils interrupted_historian)
                (bg_thread_dbutils (snd (publish_to_historian five_items interrupted_historian)))))"
proof -
  define P where "P = publish_to_historian five_items faulty_historian"
  have tr: "trace (bg_thread_dbutils (snd P)) =
      [(Connect, Returns 1), (GetCursor, Returns 1),
       (Execute (insert_topic_query ''A''), Returns 1), (CloseCursor, Returns 1),
       (GetCursor, Returns 1), (Execute (insert_data_query 100 1 ''1''), Returns 1),
       (CloseCursor, Returns 1),
       (GetCursor, Returns 1), (Execute (insert_data_query 200 1 ''2''), Returns 1),
       (CloseCursor, Returns 1),
       (GetCursor, Returns 1),
       (Execute (insert_data_query 300 1 ''3''), Raises (DatabaseError ''constraint failed'')),
       (CloseCursor, Returns 1), (Rollback, Returns 1)]"
    unfolding P_def
    by (simp add: model_defs five_items_def faulty_historian_def fresh_historian_def fresh_driver_def
        failing_third_def lower_A)
  have cl: "closed (the (connection (bg_thread_dbutils (snd P)))) = False"
    unfolding P_def
    by (simp add: model_defs five_items_def faulty_historian_def fresh_historian_def fresh_driver_def
        failing_third_def lower_A)
  have t0: "trace (bg_thread_dbutils faulty_historian) = []"
    "committed (bg_thread_dbutils faulty_historian) = []"
    "\<not> all_handled faulty_historian"
    by (simp_all add: faulty_historian_def fresh_historian_def fresh_driver_def)
  have ne: "new_events (bg_thread_dbutils faulty_historian) (bg_thread_dbutils (snd P)) =
      trace (bg_thread_dbutils (snd P))"
    by (simp add: new_events_def t0)
  have raised: "(Execute (insert_data_query 300 1 ''3''), Raises (DatabaseError ''constraint failed''))
     \<in> set (new_events (bg_thread_dbutils faulty_historian) (bg_thread_dbutils (snd P)))"
    unfolding ne tr by simp
  have quiet: "(\<forall>ec. (CloseCursor, Raises ec) \<notin> set (new_events (bg_thread_dbutils faulty_historian) (bg_thread_dbutils (snd P)))) \<and>
    (\<forall>er. (Rollback, Raises er) \<notin> set (new_events (bg_thread_dbutils faulty_historian) (bg_thread_dbutils (snd P))))"
    unfolding ne tr by simp
  have exc: "is_exception (DatabaseError ''constraint failed'') \<and>
    (\<forall>ec. (CloseCursor, Raises ec) \<in> set (new_events (bg_thread_dbutils faulty_historian) (bg_thread_dbutils (snd P)))
       \<longrightarrow> is_exception ec)"
    unfolding ne tr by simp
  have run: "publish_to_historian five_items faulty_historian = (fst P, snd P)"
    by (simp add: P_def)
  note T = failed_statement_aborts_batch[OF run,
      of "insert_data_query 300 1 ''3''" "DatabaseError ''constraint failed''"]
  from T raised quiet have r: "fst P = Inl (DatabaseError ''constraint failed'')"
    by simp
  with T t0 have cm: "committed (bg_thread_dbutils (snd P)) = [] \<and> \<not> all_handled (snd P)"
    by simp
  from T raised exc obtain rr where
    rr: "last (trace (bg_thread_dbutils (snd P))) = (Rollback, rr)"
      "(\<forall>er. rr \<noteq> Raises er) \<longrightarrow>
         (\<exists>c. connection (bg_thread_dbutils (snd P)) = Some c \<and> pending c = [])"
    by blast
  from rr(1) have "rr = Returns 1" unfolding tr by simp
  with rr(2) obtain c where c: "connection (bg_thread_dbutils (snd P)) = Some c" "pending c = []"
    by auto
  with cl have "c = \<lparr>pending = [], closed = False\<rparr>" by (cases c) simp
  with c have cn: "connection (bg_thread_dbutils (snd P)) = Some \<lparr>pending = [], closed = False\<rparr>"
    by simp
  define Q where "Q = publish_to_historian five_items interrupted_historian"
  have tr2: "trace (bg_thread_dbutils (snd Q)) =
      [(Connect, Returns 1), (GetCursor, Returns 1),
       (Execute (insert_topic_query ''A''), Returns 1), (CloseCursor, Returns 1),
       (GetCursor, Returns 1), (Execute (insert_data_query 100 1 ''1''), Returns 1),
       (CloseCursor, Returns 1),
       (GetCursor, Returns 1), (Execute (insert_data_query 200 1 ''2''), Returns 1),
       (CloseCursor, Returns 1),
       (GetCursor, Returns 1),
       (Execute (insert_data_query 300 1 ''3''), Raises (BuiltinBaseException ''KeyboardInterrupt'')),
       (CloseCursor, Returns 1)]"
    unfolding Q_def
    by (simp add: model_defs five_items_def interrupted_historian_def fresh_historian_def
        fresh_driver_def interrupted_third_def lower_A)
  have t2: "trace (bg_thread_dbutils interrupted_historian) = []"
    "committed (bg_thread_dbutils interrupted_historian) = []"
    by (simp_all add: interrupted_historian_def fresh_historian_def fresh_driver_def)
  have ne2: "new_events (bg_thread_dbutils interrupted_historian) (bg_thread_dbutils (snd Q)) =
      trace (bg_thread_dbutils (snd Q))"
    by (simp add: new_events_def t2)
  have raised2: "(Execute (insert_data_query 300 1 ''3''), Raises (BuiltinBaseException ''KeyboardInterrupt''))
     \<in> set (new_events (bg_thread_dbutils interrupted_historian) (bg_thread_dbutils (snd Q)))"
    unfolding ne2 tr2 by simp
  have quiet2: "(\<forall>ec. (CloseCursor, Raises ec) \<notin> set (new_events (bg_thread_dbutils interrupted_historian) (bg_thread_dbutils (snd Q)))) \<and>
    (\<forall>er. (Rollback, Raises er) \<notin> set (new_events (bg_thread_dbutils interrupted_historian) (bg_thread_dbutils (snd Q))))"
    unfolding ne2 tr2 by simp
  have nexc: "\<not> is_exception (BuiltinBaseException ''KeyboardInterrupt'')" by simp
  have run2: "publish_to_historian five_items interrupted_historian = (fst Q, snd Q)"
    by (simp add: Q_def)
  note U = failed_statement_aborts_batch[OF run2,
      of "insert_data_query 300 1 ''3''" "BuiltinBaseException ''KeyboardInterrupt''"]
  from U raised2 quiet2 have r2: "fst Q = Inl (BuiltinBaseException ''KeyboardInterrupt'')"
    by simp
  with U t2 have cm2: "committed (bg_thread_dbutils (snd Q)) = []"
    by simp
  from U raised2 quiet2 nexc
  have nr: "\<forall>r. (Rollback, r) \<notin> set (new_events (bg_thread_dbutils interrupted_historian)
                (bg_thread_dbutils (snd Q)))"
    by blast
  from raised r cm cn have A: "(Execute (insert_data_query 300 1 ''3''), Raises (DatabaseError ''constraint failed''))
     \<in> set (new_events (bg_thread_dbutils faulty_historian) (bg_thread_dbutils (snd P))) \<and>
   is_exception (DatabaseError ''constraint failed'') \<and>
   fst P = Inl (DatabaseError ''constraint failed'') \<and>
   committed (bg_thread_dbutils (snd P)) = [] \<and>
   \<not> all_handled (snd P) \<and>
   connection (bg_thread_dbutils (snd P)) = Some \<lparr>pending = [], closed = False\<rparr>"
    by simp
  from raised2 nexc r2 cm2 nr have B: "(Execute (insert_data_query 300 1 ''3''), Raises (BuiltinBaseException ''KeyboardInterrupt''))
     \<in> set (new_events (bg_thread_dbutils interrupted_historian) (bg_thread_dbutils (snd Q))) \<and>
   \<not> is_exception (BuiltinBaseException ''KeyboardInterrupt'') \<and>
   fst Q = Inl (BuiltinBaseException ''KeyboardInterrupt'') \<and>
   committed (bg_thread_dbutils (snd Q)) = [] \<and>
   (\<forall>r. (Rollback, r) \<notin> set (new_events (bg_thread_dbutils interrupted_historian)
                (bg_thread_dbutils (snd Q))))"
    by blast
  from A B show ?thesis unfolding P_def Q_def by (intro conjI) (elim conjE, assumption)+
qed

subsection \<open>C2\<close>

text \<open>
  Claim C2 as stated fails where topics and metadata are kept in separate tables: the
  metadata of a new topic is written by a metadata insert of its own.
\<close>

theorem unknown_topic_metadata_counterexample:
  "topic_id_map fresh_historian (lower (topic item_a)) = None \<and>
   executed (bg_thread_dbutils (snd (publish_to_historian [item_a] fresh_historian))) =
     [insert_topic_query ''a'', insert_meta_query 1 [(''unit'', ''C'')], insert_data_query 200 1 ''2'']"
  by (simp add: model_defs fixture_defs executed_def)

text \<open>
  Claim C2, amended. For a record whose topic key is not in the cache and whose processing
  ends without an exception, the pipeline inserts the topic, in one statement together with
  the metadata when topics and metadata share a table and both the name and the metadata are
  non-empty, and caches the id returned by that statement under the lowercase key, the name
  as display name and non-empty metadata as snapshot. With a shared table no further metadata
  statement is executed for the record. With separate tables, non-empty metadata is
  inserted by a statement of its own, between the topic insert and the data insert.
\<close>

theorem unknown_topic_is_inserted:
  assumes none: "topic_id_map h (lower (topic x)) = None"
    and run: "publish_record x p h = (Inr n, h')"
  shows "\<exists>i r.
      (Execute (if meta_table (bg_thread_dbutils h) = topics_table (bg_thread_dbutils h) \<and>
                   topic x \<noteq> [] \<and> meta x \<noteq> []
                then insert_topic_and_meta_query (topic x) (meta x)
                else insert_topic_query (topic x)), r)
        \<in> set (new_events (bg_thread_dbutils h) (bg_thread_dbutils h')) \<and>
      i = returned r \<and>
      topic_id_map h' = (topic_id_map h)(lower (topic x) \<mapsto> i) \<and>
      topic_name_map h' = (topic_name_map h)(lower (topic x) \<mapsto> topic x) \<and>
      topic_meta h' = (if meta x \<noteq> [] then (topic_meta h)(i \<mapsto> meta x) else topic_meta h) \<and>
      executed (bg_thread_dbutils h') = executed (bg_thread_dbutils h) @
        (if meta_table (bg_thread_dbutils h) = topics_table (bg_thread_dbutils h) then
           [if topic x \<noteq> [] \<and> meta x \<noteq> []
            then insert_topic_and_meta_query (topic x) (meta x)
            else insert_topic_query (topic x),
            insert_data_query (timestamp x) i (val x)]
         else if meta x \<noteq> [] then
           [insert_topic_query (topic x), insert_meta_query i (meta x),
            insert_data_query (timestamp x) i (val x)]
         else
           [insert_topic_query (topic x), insert_data_query (timestamp x) i (val x)])"
proof -
  from publish_record_unknown_rowid[OF none run] obtain r where
    r: "(Execute (insert_stmt (bg_thread_dbutils h) (topic x) (Some (meta x))), r)
             \<in> set (new_events (bg_thread_dbutils h) (bg_thread_dbutils h'))"
    "topic_id_map h' (lower (topic x)) = Some (returned r)" by blast
  from publish_record_ok[OF run] none obtain i where
    c: "carries h h' None
          (topic_stmts x [] h i @ meta_stmts x [] i False h @ [insert_data_query (timestamp x) i (val x)])"
    and ids: "topic_id_map h' = (topic_id_map h)(lower (topic x) \<mapsto> i)"
    and names: "topic_name_map h' = (topic_name_map h)(lower (topic x) \<mapsto> topic x)"
    and metas: "topic_meta h' = (if [] \<noteq> meta x then (topic_meta h)(i \<mapsto> meta x) else topic_meta h)"
    by (auto simp: meta_get_def)
  from ids r(2) have i: "i = returned r" by simp
  have ex: "executed (bg_thread_dbutils h') = executed (bg_thread_dbutils h) @
      (topic_stmts x [] h i @ meta_stmts x [] i False h @ [insert_data_query (timestamp x) i (val x)])"
    by (rule carries_executed[OF c])
  have st: "insert_stmt (bg_thread_dbutils h) (topic x) (Some (meta x)) =
      (if meta_table (bg_thread_dbutils h) = topics_table (bg_thread_dbutils h) \<and>
                   topic x \<noteq> [] \<and> meta x \<noteq> []
                then insert_topic_and_meta_query (topic x) (meta x)
                else insert_topic_query (topic x))"
    by (simp add: insert_stmt_def)
  have ts: "topic_stmts x [] h i = [insert_stmt (bg_thread_dbutils h) (topic x) (Some (meta x))]"
    using none by (simp add: topic_stmts_def)
  have ms: "meta_stmts x [] i False h =
      (if meta x \<noteq> [] \<and> topics_table (bg_thread_dbutils h) \<noteq> meta_table (bg_thread_dbutils h)
       then [insert_meta_query i (meta x)] else [])"
    by (auto simp: meta_stmts_def)
  have ex': "executed (bg_thread_dbutils h') = executed (bg_thread_dbutils h) @
        (if meta_table (bg_thread_dbutils h) = topics_table (bg_thread_dbutils h) then
           [if topic x \<noteq> [] \<and> meta x \<noteq> []
            then insert_topic_and_meta_query (topic x) (meta x)
            else insert_topic_query (topic x),
            insert_data_query (timestamp x) i (val x)]
         else if meta x \<noteq> [] then
           [insert_topic_query (topic x), insert_meta_query i (meta x),
            insert_data_query (timestamp x) i (val x)]
         else
           [insert_topic_query (topic x), insert_data_query (timestamp x) i (val x)])"
    unfolding ex ts ms st by auto
  have metas': "topic_meta h' = (if meta x \<noteq> [] then (topic_meta h)(i \<mapsto> meta x) else topic_meta h)"
    using metas by auto
  from r(1)[unfolded st] i ids names metas' ex' show ?thesis by blast
qed

theorem unknown_topic_is_inserted_witness:
  "topic_id_map colocated_historian (lower (topic item_a)) = None \<and>
   fst (publish_record item_a 0 colocated_historian) = Inr 1 \<and>
   topic_id_map (snd (publish_record item_a 0 colocated_historian)) (lower (topic item_a)) = Some 1 \<and>
   executed (bg_thread_dbutils (snd (publish_record item_a 0 colocated_historian))) =
     [insert_topic_and_meta_query ''a'' [(''unit'', ''C'')], insert_data_query 200 1 ''2'']"
proof -
  define h' where "h' = snd (publish_record item_a 0 colocated_historian)"
  have none: "topic_id_map colocated_historian (lower (topic item_a)) = None"
    by (simp add: colocated_historian_def fixture_defs)
  have f: "fst (publish_record item_a 0 colocated_historian) = Inr 1"
    by (simp add: model_defs colocated_historian_def fixture_defs)
  then have run: "publish_record item_a 0 colocated_historian = (Inr 1, h')"
    unfolding h'_def by (metis prod.collapse)
  have id: "topic_id_map h' (lower (topic item_a)) = Some 1"
    unfolding h'_def by (simp add: model_defs colocated_historian_def fixture_defs)
  have fx: "meta_table (bg_thread_dbutils colocated_historian) = topics_table (bg_thread_dbutils colocated_historian)"
    "executed (bg_thread_dbutils colocated_historian) = []"
    "topic item_a = ''a''" "meta item_a = [(''unit'', ''C'')]" "timestamp item_a = 200" "val item_a = ''2''"
    by (simp_all add: colocated_historian_def fixture_defs executed_def)
  from unknown_topic_is_inserted[OF none run] obtain i where
    "topic_id_map h' = (topic_id_map colocated_historian)(lower (topic item_a) \<mapsto> i)"
    "executed (bg_thread_dbutils h') =
       [insert_topic_and_meta_query ''a'' [(''unit'', ''C'')], insert_data_query 200 i ''2'']"
    unfolding fx by auto
  with id have "executed (bg_thread_dbutils h') =
       [insert_topic_and_meta_query ''a'' [(''unit'', ''C'')], insert_data_query 200 1 ''2'']"
    by simp
  with none f id show ?thesis unfolding h'_def by simp
qed

subsection \<open>C3\<close>

text \<open>
  Claim C3 as stated fails when \<^verbatim>\<open>commit\<close> raises an exception that is not an instance of
  \<^verbatim>\<open>Exception\<close>, which the \<^verbatim>\<open>except Exception\<close> clause of \<^verbatim>\<open>publish_to_historian\<close> does
  not catch. Here the commit of a batch of one record raises \<^verbatim>\<open>KeyboardInterrupt\<close>: the
  exception reaches the caller, \<^verbatim>\<open>commit\<close> is the last call on the connection, and the
  statements of the batch stay in the open transaction.
\<close>

theorem interrupted_commit_counterexample:
  "fst (publish_loop [item_A] 0 halted_historian) = Inr 1 \<and>
   fst (publish_to_historian [item_A] halted_historian) =
     Inl (BuiltinBaseException ''KeyboardInterrupt'') \<and>
   trace (bg_thread_dbutils (snd (publish_to_historian [item_A] halted_historian))) =
     [(Connect, Returns 1), (GetCursor, Returns 1),
      (Execute (insert_topic_query ''A''), Returns 1), (CloseCursor, Returns 1),
      (GetCursor, Returns 1), (Execute (insert_data_query 100 1 ''1''), Returns 1),
      (CloseCursor, Returns 1),
      (Commit, Raises (BuiltinBaseException ''KeyboardInterrupt''))] \<and>
   connection (bg_thread_dbutils (snd (publish_to_historian [item_A] halted_historian))) =
     Some \<lparr>pending = [insert_topic_query ''A'', insert_data_query 100 1 ''1''], closed = False\<rparr>"
  by (simp add: model_defs fixture_defs halted_historian_def interrupted_at_commit_def)

text \<open>
  Claim C3, amended. After a loop that counted at least one record, the next call on the
  connection is \<^verbatim>\<open>commit\<close>. When it returns, the pending statements are durable and the
  batch is reported as handled. When it raises, the exception goes to the caller, nothing
  is committed and the batch is not reported as handled; when the exception is an instance
  of \<^verbatim>\<open>Exception\<close>, \<^verbatim>\<open>rollback\<close> is called next, and otherwise no further call is made and
  the open transaction is left as it is. After a loop that counted no record, only a
  warning is logged: no call is made on the connection.
\<close>

theorem commit_after_batch:
  assumes loop: "publish_loop xs 0 h = (Inr published, h1)"
  shows "(published \<noteq> 0 \<longrightarrow>
           (\<exists>c. connection (bg_thread_dbutils h1) = Some c \<and>
              take (Suc (length (trace (bg_thread_dbutils h1))))
                   (trace (bg_thread_dbutils (snd (publish_to_historian xs h)))) =
                trace (bg_thread_dbutils h1) @
                  [(Commit, replies (bg_thread_dbutils h1) (length (trace (bg_thread_dbutils h1))))] \<and>
              ((\<forall>e. replies (bg_thread_dbutils h1) (length (trace (bg_thread_dbutils h1))) \<noteq> Raises e) \<longrightarrow>
                 fst (publish_to_historian xs h) = Inr () \<and>
                 all_handled (snd (publish_to_historian xs h)) \<and>
                 committed (bg_thread_dbutils (snd (publish_to_historian xs h))) =
                   committed (bg_thread_dbutils h) @ pending c \<and>
                 trace (bg_thread_dbutils (snd (publish_to_historian xs h))) =
                   trace (bg_thread_dbutils h1) @
                     [(Commit, replies (bg_thread_dbutils h1) (length (trace (bg_thread_dbutils h1))))]) \<and>
              (\<forall>e. replies (bg_thread_dbutils h1) (length (trace (bg_thread_dbutils h1))) = Raises e \<longrightarrow>
                 (\<exists>e'. fst (publish_to_historian xs h) = Inl e') \<and>
                 all_handled (snd (publish_to_historian xs h)) = all_handled h \<and>
                 committed (bg_thread_dbutils (snd (publish_to_historian xs h))) =
                   committed (bg_thread_dbutils h) \<and>
                 (is_exception e \<longrightarrow>
                    trace (bg_thread_dbutils (snd (publish_to_historian xs h))) =
                      trace (bg_thread_dbutils h1) @
                        [(Commit, Raises e),
                         (Rollback, replies (bg_thread_dbutils h1) (Suc (length (trace (bg_thread_dbutils h1)))))] \<and>
                    ((\<forall>er. replies (bg_thread_dbutils h1) (Suc (length (trace (bg_thread_dbutils h1)))) \<noteq> Raises er) \<longrightarrow>
                       fst (publish_to_historian xs h) = Inl e \<and>
                       connection (bg_thread_dbutils (snd (publish_to_historian xs h))) =
                         Some (c\<lparr>pending := []\<rparr>))) \<and>
                 (\<not> is_exception e \<longrightarrow>
                    fst (publish_to_historian xs h) = Inl e \<and>
                    trace (bg_thread_dbutils (snd (publish_to_historian xs h))) =
                      trace (bg_thread_dbutils h1) @ [(Commit, Raises e)] \<and>
                    connection (bg_thread_dbutils (snd (publish_to_historian xs h))) = Some c)))) \<and>
         (published = 0 \<longrightarrow>
            publish_to_historian xs h =
              (Inr (), h1\<lparr>hlog := hlog h1 @ [WarnUnableToPublish (length xs)]\<rparr>))"
proof (intro conjI impI)
  assume "published = 0"
  with loop show "publish_to_historian xs h =
      (Inr (), h1\<lparr>hlog := hlog h1 @ [WarnUnableToPublish (length xs)]\<rparr>)"
    by (simp add: publish_to_historian_def publish_body_def after_batch_def)
next
  assume pos: "published \<noteq> 0"
  define d1 where "d1 = bg_thread_dbutils h1"
  define rc where "rc = replies d1 (length (trace d1))"
  define rr where "rr = replies d1 (Suc (length (trace d1)))"
  define P where "P = publish_to_historian xs h"
  from publish_loop_count[OF loop] pos have "xs \<noteq> []" by auto
  from publish_loop_open[OF loop this] obtain c where c: "connection d1 = Some c"
    by (auto simp: d1_def)
  from publish_loop_any[OF loop] have fr: "committed d1 = committed (bg_thread_dbutils h)"
    "all_handled h1 = all_handled h"
    by (auto simp: carries_def effect_def d1_def)
  obtain r2 d2 where cm: "commit d1 = (r2, d2)" by (cases "commit d1")
  note co = commit_open_facts[OF c cm, folded rc_def]
  have ok: "(\<forall>e. rc \<noteq> Raises e) \<longrightarrow>
      fst P = Inr () \<and> all_handled (snd P) \<and>
      committed (bg_thread_dbutils (snd P)) = committed (bg_thread_dbutils h) @ pending c \<and>
      trace (bg_thread_dbutils (snd P)) = trace d1 @ [(Commit, rc)]"
  proof
    assume "\<forall>e. rc \<noteq> Raises e"
    from co(3)[OF this] co(1) have "r2 = Inr True" "committed d2 = committed d1 @ pending c"
      "trace d2 = trace d1 @ [(Commit, rc)]" by simp_all
    with loop pos cm fr show "fst P = Inr () \<and> all_handled (snd P) \<and>
      committed (bg_thread_dbutils (snd P)) = committed (bg_thread_dbutils h) @ pending c \<and>
      trace (bg_thread_dbutils (snd P)) = trace d1 @ [(Commit, rc)]"
      by (simp add: P_def publish_to_historian_def publish_body_def after_batch_def d1_def)
  qed
  have bad: "\<forall>e. rc = Raises e \<longrightarrow>
      (\<exists>e'. fst P = Inl e') \<and> all_handled (snd P) = all_handled h \<and>
      committed (bg_thread_dbutils (snd P)) = committed (bg_thread_dbutils h) \<and>
      (is_exception e \<longrightarrow>
         trace (bg_thread_dbutils (snd P)) = trace d1 @ [(Commit, Raises e), (Rollback, rr)] \<and>
         ((\<forall>er. rr \<noteq> Raises er) \<longrightarrow>
            fst P = Inl e \<and> connection (bg_thread_dbutils (snd P)) = Some (c\<lparr>pending := []\<rparr>))) \<and>
      (\<not> is_exception e \<longrightarrow>
         fst P = Inl e \<and> trace (bg_thread_dbutils (snd P)) = trace d1 @ [(Commit, Raises e)] \<and>
         connection (bg_thread_dbutils (snd P)) = Some c)"
  proof (intro allI impI)
    fix e assume rc: "rc = Raises e"
    from co(4)[OF this] co(1,2) rc have f2: "r2 = Inl e" "committed d2 = committed d1"
      "connection d2 = Some c" "trace d2 = trace d1 @ [(Commit, Raises e)]" "replies d2 = replies d1"
      by simp_all
    from loop pos cm f2(1) have body: "publish_body xs h = (Inl e, h1\<lparr>bg_thread_dbutils := d2\<rparr>)"
      by (simp add: publish_body_def after_batch_def d1_def)
    show "(\<exists>e'. fst P = Inl e') \<and> all_handled (snd P) = all_handled h \<and>
      committed (bg_thread_dbutils (snd P)) = committed (bg_thread_dbutils h) \<and>
      (is_exception e \<longrightarrow>
         trace (bg_thread_dbutils (snd P)) = trace d1 @ [(Commit, Raises e), (Rollback, rr)] \<and>
         ((\<forall>er. rr \<noteq> Raises er) \<longrightarrow>
            fst P = Inl e \<and> connection (bg_thread_dbutils (snd P)) = Some (c\<lparr>pending := []\<rparr>))) \<and>
      (\<not> is_exception e \<longrightarrow>
         fst P = Inl e \<and> trace (bg_thread_dbutils (snd P)) = trace d1 @ [(Commit, Raises e)] \<and>
         connection (bg_thread_dbutils (snd P)) = Some c)"
    proof (cases "is_exception e")
      case True
      obtain r3 d3 where rb: "rollback d2 = (r3, d3)" by (cases "rollback d2")
      have rr2: "replies d2 (length (trace d2)) = rr" using f2(4,5) by (simp add: rr_def)
      note ro = rollback_open_facts[OF f2(3) rb, unfolded rr2]
      from body rb True
      have P: "P = ((case r3 of Inl e' \<Rightarrow> Inl e' | Inr b \<Rightarrow> Inl e), h1\<lparr>bg_thread_dbutils := d3\<rparr>)"
        by (cases r3) (simp_all add: P_def publish_to_historian_def)
      have 1: "\<exists>e'. fst P = Inl e'" unfolding P by (cases r3) simp_all
      have 2: "all_handled (snd P) = all_handled h" unfolding P using fr(2) by simp
      have 3: "committed (bg_thread_dbutils (snd P)) = committed (bg_thread_dbutils h)"
        unfolding P using ro(2) f2(2) fr(1) by simp
      have 4: "trace (bg_thread_dbutils (snd P)) = trace d1 @ [(Commit, Raises e), (Rollback, rr)]"
        unfolding P using ro(1) f2(4) by simp
      have 5: "(\<forall>er. rr \<noteq> Raises er) \<longrightarrow>
           fst P = Inl e \<and> connection (bg_thread_dbutils (snd P)) = Some (c\<lparr>pending := []\<rparr>)"
        unfolding P using ro(3) by simp
      from True 1 2 3 4 5 show ?thesis by blast
    next
      case False
      from body False have P: "P = (Inl e, h1\<lparr>bg_thread_dbutils := d2\<rparr>)"
        by (simp add: P_def publish_to_historian_def)
      have 1: "fst P = Inl e" unfolding P by simp
      have 2: "all_handled (snd P) = all_handled h" unfolding P using fr(2) by simp
      have 3: "committed (bg_thread_dbutils (snd P)) = committed (bg_thread_dbutils h)"
        unfolding P using f2(2) fr(1) by simp
      have 4: "trace (bg_thread_dbutils (snd P)) = trace d1 @ [(Commit, Raises e)]"
        unfolding P using f2(4) by simp
      have 5: "connection (bg_thread_dbutils (snd P)) = Some c"
        unfolding P using f2(3) by simp
      from False 1 2 3 4 5 show ?thesis by blast
    qed
  qed
  have tk: "take (Suc (length (trace d1))) (trace (bg_thread_dbutils (snd P))) = trace d1 @ [(Commit, rc)]"
  proof (cases "\<exists>e. rc = Raises e")
    case True
    then obtain e where e: "rc = Raises e" by blast
    with bad have b: "(is_exception e \<longrightarrow>
         trace (bg_thread_dbutils (snd P)) = trace d1 @ [(Commit, Raises e), (Rollback, rr)]) \<and>
      (\<not> is_exception e \<longrightarrow> trace (bg_thread_dbutils (snd P)) = trace d1 @ [(Commit, Raises e)])"
      by blast
    show ?thesis
    proof (cases "is_exception e")
      case True
      with b e show ?thesis by simp
    next
      case False
      with b e show ?thesis by simp
    qed
  next
    case False
    with ok show ?thesis by simp
  qed
  from c tk ok bad
  show "\<exists>c. connection (bg_thread_dbutils h1) = Some c \<and>
              take (Suc (length (trace (bg_thread_dbutils h1))))
                   (trace (bg_thread_dbutils (snd (publish_to_historian xs h)))) =
                trace (bg_thread_dbutils h1) @
                  [(Commit, replies (bg_thread_dbutils h1) (length (trace (bg_thread_dbutils h1))))] \<and>
              ((\<forall>e. replies (bg_thread_dbutils h1) (length (trace (bg_thread_dbutils h1))) \<noteq> Raises e) \<longrightarrow>
                 fst (publish_to_historian xs h) = Inr () \<and>
                 all_handled (snd (publish_to_historian xs h)) \<and>
                 committed (bg_thread_dbutils (snd (publish_to_historian xs h))) =
                   committed (bg_thread_dbutils h) @ pending c \<and>
                 trace (bg_thread_dbutils (snd (publish_to_historian xs h))) =
                   trace (bg_thread_dbutils h1) @
                     [(Commit, replies (bg_thread_dbutils h1) (length (trace (bg_thread_dbutils h1))))]) \<and>
              (\<forall>e. replies (bg_thread_dbutils h1) (length (trace (bg_thread_dbutils h1))) = Raises e \<longrightarrow>
                 (\<exists>e'. fst (publish_to_historian xs h) = Inl e') \<and>
                 all_handled (snd (publish_to_historian xs h)) = all_handled h \<and>
                 committed (bg_thread_dbutils (snd (publish_to_historian xs h))) =
                   committed (bg_thread_dbutils h) \<and>
                 (is_exception e \<longrightarrow>
                    trace (bg_thread_dbutils (snd (publish_to_historian xs h))) =
                      trace (bg_thread_dbutils h1) @
                        [(Commit, Raises e),
                         (Rollback, replies (bg_thread_dbutils h1) (Suc (length (trace (bg_thread_dbutils h1)))))] \<and>
                    ((\<forall>er. replies (bg_thread_dbutils h1) (Suc (length (trace (bg_thread_dbutils h1)))) \<noteq> Raises er) \<longrightarrow>
                       fst (publish_to_historian xs h) = Inl e \<and>
                       connection (bg_thread_dbutils (snd (publish_to_historian xs h))) =
                         Some (c\<lparr>pending := []\<rparr>))) \<and>
                 (\<not> is_exception e \<longrightarrow>
                    fst (publish_to_historian xs h) = Inl e \<and>
                    trace (bg_thread_dbutils (snd (publish_to_historian xs h))) =
                      trace (bg_thread_dbutils h1) @ [(Commit, Raises e)] \<and>
                    connection (bg_thread_dbutils (snd (publish_to_historian xs h))) = Some c))"
    unfolding P_def rc_def rr_def d1_def by blast
qed

theorem commit_after_batch_witness:
  "fst (publish_loop [item_A, item_a] 0 fresh_historian) = Inr 2 \<and>
   fst (publish_to_historian [item_A, item_a] fresh_historian) = Inr () \<and>
   all_handled (snd (publish_to_historian [item_A, item_a] fresh_historian)) \<and>
   committed (bg_thread_dbutils (snd (publish_to_historian [item_A, item_a] fresh_historian))) =
     [insert_topic_query ''A'', insert_data_query 100 1 ''1'', update_topic_query ''a'' 1,
      insert_meta_query 1 [(''unit'', ''C'')], insert_data_query 200 1 ''2''] \<and>
   fst (publish_loop [item_A] 0 busy_historian) = Inr 1 \<and>
   fst (publish_to_historian [item_A] busy_historian) = Inl (OperationalError ''database is locked'') \<and>
   committed (bg_thread_dbutils (snd (publish_to_historian [item_A] busy_historian))) = [] \<and>
   \<not> all_handled (snd (publish_to_historian [item_A] busy_historian)) \<and>
   connection (bg_thread_dbutils (snd (publish_to_historian [item_A] busy_historian))) =
     Some \<lparr>pending = [], closed = False\<rparr> \<and>
   fst (publish_loop [] 0 fresh_historian) = Inr 0 \<and>
   publish_to_historian [] fresh_historian =
     (Inr (), fresh_historian\<lparr>hlog := hlog fresh_historian @ [WarnUnableToPublish 0]\<rparr>) \<and>
   fst (publish_loop [item_A] 0 halted_historian) = Inr 1 \<and>
   \<not> is_exception (BuiltinBaseException ''KeyboardInterrupt'') \<and>
   fst (publish_to_historian [item_A] halted_historian) =
     Inl (BuiltinBaseException ''KeyboardInterrupt'') \<and>
   committed (bg_thread_dbutils (snd (publish_to_historian [item_A] halted_historian))) = [] \<and>
   connection (bg_thread_dbutils (snd (publish_to_historian [item_A] halted_historian))) =
     Some \<lparr>pending = [insert_topic_query ''A'', insert_data_query 100 1 ''1''], closed = False\<rparr>"
proof -
  define h1 where "h1 = snd (publish_loop [item_A, item_a] 0 fresh_historian)"
  define h2 where "h2 = snd (publish_loop [item_A] 0 busy_historian)"
  have f1: "fst (publish_loop [item_A, item_a] 0 fresh_historian) = Inr 2"
    by (simp add: model_defs fixture_defs)
  have c1: "connection (bg_thread_dbutils h1) =
      Some \<lparr>pending = [insert_topic_query ''A'', insert_data_query 100 1 ''1'', update_topic_query ''a'' 1,
         insert_meta_query 1 [(''unit'', ''C'')], insert_data_query 200 1 ''2''], closed = False\<rparr>"
    unfolding h1_def by (simp add: model_defs fixture_defs)
  have r1: "replies (bg_thread_dbutils h1) (length (trace (bg_thread_dbutils h1))) = Returns 1"
    unfolding h1_def by (simp add: model_defs fixture_defs)
  have l1: "publish_loop [item_A, item_a] 0 fresh_historian = (Inr 2, h1)"
    using f1 unfolding h1_def by (metis prod.collapse)
  have z: "committed (bg_thread_dbutils fresh_historian) = []" "\<not> all_handled fresh_historian"
    "committed (bg_thread_dbutils busy_historian) = []" "\<not> all_handled busy_historian"
    by (simp_all add: busy_historian_def fixture_defs)
  from commit_after_batch[OF l1] c1 r1 z
  have A: "fst (publish_to_historian [item_A, item_a] fresh_historian) = Inr () \<and>
   all_handled (snd (publish_to_historian [item_A, item_a] fresh_historian)) \<and>
   committed (bg_thread_dbutils (snd (publish_to_historian [item_A, item_a] fresh_historian))) =
     [insert_topic_query ''A'', insert_data_query 100 1 ''1'', update_topic_query ''a'' 1,
      insert_meta_query 1 [(''unit'', ''C'')], insert_data_query 200 1 ''2'']"
    by auto
  have f2: "fst (publish_loop [item_A] 0 busy_historian) = Inr 1"
    by (simp add: model_defs fixture_defs busy_historian_def busy_at_commit_def)
  have c2: "connection (bg_thread_dbutils h2) =
      Some \<lparr>pending = [insert_topic_query ''A'', insert_data_query 100 1 ''1''], closed = False\<rparr>"
    unfolding h2_def by (simp add: model_defs fixture_defs busy_historian_def busy_at_commit_def)
  have r2: "replies (bg_thread_dbutils h2) (length (trace (bg_thread_dbutils h2))) =
      Raises (OperationalError ''database is locked'')"
    "replies (bg_thread_dbutils h2) (Suc (length (trace (bg_thread_dbutils h2)))) = Returns 1"
    unfolding h2_def by (simp_all add: model_defs fixture_defs busy_historian_def busy_at_commit_def)
  have l2: "publish_loop [item_A] 0 busy_historian = (Inr 1, h2)"
    using f2 unfolding h2_def by (metis prod.collapse)
  have x2: "is_exception (OperationalError ''database is locked'')" by simp
  from commit_after_batch[OF l2] c2 r2 z x2
  have B: "fst (publish_to_historian [item_A] busy_historian) = Inl (OperationalError ''database is locked'') \<and>
   committed (bg_thread_dbutils (snd (publish_to_historian [item_A] busy_historian))) = [] \<and>
   \<not> all_handled (snd (publish_to_historian [item_A] busy_historian)) \<and>
   connection (bg_thread_dbutils (snd (publish_to_historian [item_A] busy_historian))) =
     Some \<lparr>pending = [], closed = False\<rparr>"
    by auto
  have l3: "publish_loop [] 0 fresh_historian = (Inr 0, fresh_historian)" by simp
  from commit_after_batch[OF l3]
  have C: "publish_to_historian [] fresh_historian =
     (Inr (), fresh_historian\<lparr>hlog := hlog fresh_historian @ [WarnUnableToPublish 0]\<rparr>)"
    by simp
  define h4 where "h4 = snd (publish_loop [item_A] 0 halted_historian)"
  have f4: "fst (publish_loop [item_A] 0 halted_historian) = Inr 1"
    by (simp add: model_defs fixture_defs halted_historian_def interrupted_at_commit_def)
  have c4: "connection (bg_thread_dbutils h4) =
      Some \<lparr>pending = [insert_topic_query ''A'', insert_data_query 100 1 ''1''], closed = False\<rparr>"
    unfolding h4_def
    by (simp add: model_defs fixture_defs halted_historian_def interrupted_at_commit_def)
  have r4: "replies (bg_thread_dbutils h4) (length (trace (bg_thread_dbutils h4))) =
      Raises (BuiltinBaseException ''KeyboardInterrupt'')"
    unfolding h4_def
    by (simp add: model_defs fixture_defs halted_historian_def interrupted_at_commit_def)
  have l4: "publish_loop [item_A] 0 halted_historian = (Inr 1, h4)"
    using f4 unfolding h4_def by (metis prod.collapse)
  have z4: "committed (bg_thread_dbutils halted_historian) = []"
    by (simp add: halted_historian_def fixture_defs)
  have x4: "\<not> is_exception (BuiltinBaseException ''KeyboardInterrupt'')" by simp
  from commit_after_batch[OF l4] c4 r4 z4 x4
  have D: "fst (publish_to_historian [item_A] halted_historian) =
     Inl (BuiltinBaseException ''KeyboardInterrupt'') \<and>
   committed (bg_thread_dbutils (snd (publish_to_historian [item_A] halted_historian))) = [] \<and>
   connection (bg_thread_dbutils (snd (publish_to_historian [item_A] halted_historian))) =
     Some \<lparr>pending = [insert_topic_query ''A'', insert_data_query 100 1 ''1''], closed = False\<rparr>"
    by auto
  from f1 A f2 B C f4 x4 D show ?thesis by simp
qed

subsection \<open>C4\<close>

text \<open>
  Claim C4 as stated fails for a query on several topics: the mapping from topic name to
  rows is not the result itself, it is the entry \<^verbatim>\<open>values\<close> of the result, next to an
  empty \<^verbatim>\<open>metadata\<close> entry.
\<close>

theorem multi_topic_query_counterexample:
  "fst (query_historian two_topic_backend (Lst [''A'', ''b'']) raw_args catalog_historian) =
     Inr [(''values'', ByTopic [(''A'', [(100, ''v'')]), (''b'', [(200, ''v'')])]),
          (''metadata'', Metadata [])] \<and>
   fst (query_historian two_topic_backend (Lst [''A'', ''b'']) raw_args catalog_historian) \<noteq>
     Inr [(''A'', Rows [(100, ''v'')]), (''b'', Rows [(200, ''v'')])]"
  by (simp add: query_historian_def assemble_def lookup_topic_def Let_def meta_get_def
      two_topic_backend_def raw_args_def catalog_historian_def lower_A lower_b)

text \<open>
  Claim C4, amended. When at least one name resolves and the range query of the backend
  returns a non-empty dictionary: a query on more than one topic returns that dictionary
  as \<^verbatim>\<open>values\<close> together with an empty \<^verbatim>\<open>metadata\<close>; a query on exactly one topic
  returns the rows of the first entry as \<^verbatim>\<open>values\<close> together with the metadata cached
  for the id of the topic of that name in the topic table (empty when the name has no
  such id, as for an aggregate over several points), and returns the empty result when
  those rows are empty.
\<close>

theorem query_result_shape:
  assumes res: "resolve_topics md (topics_list_of ta) (q_agg_type args) (q_agg_period args)
                  [] Map.empty h = (Inr (agg, ids, names), h1)"
    and ids: "ids \<noteq> []"
    and q: "query md ids names (args\<lparr>q_agg_type := agg\<rparr>) = Inr ((name, rows) # rest)"
  shows "(length (topics_list_of ta) > 1 \<longrightarrow>
            fst (query_historian md ta args h) =
              Inr [(''values'', ByTopic ((name, rows) # rest)), (''metadata'', Metadata [])]) \<and>
         (\<forall>t. topics_list_of ta = [t] \<longrightarrow>
            fst (query_historian md ta args h) =
              Inr (if rows = [] then []
                   else [(''values'', Rows rows),
                         (''metadata'',
                          Metadata (meta_get (topic_meta h) (topic_id_map h (lower t))))]))"
proof (intro conjI impI allI)
  assume "length (topics_list_of ta) > 1"
  with res ids q show "fst (query_historian md ta args h) =
      Inr [(''values'', ByTopic ((name, rows) # rest)), (''metadata'', Metadata [])]"
    by (simp add: query_historian_def Let_def assemble_def meta_get_def)
next
  fix t assume t: "topics_list_of ta = [t]"
  from resolve_topics_frame[OF res] have fr: "topic_id_map h1 = topic_id_map h" "topic_meta h1 = topic_meta h"
    by simp_all
  note S = resolve_single[OF res[unfolded t] ids]
  have tid: "(if truthy_str agg then topic_id_map h1 (lower t)
              else (case ids of [] \<Rightarrow> None | i # _ \<Rightarrow> Some i)) = topic_id_map h (lower t)"
  proof (cases "truthy_str agg")
    case True
    with fr show ?thesis by simp
  next
    case False
    with S(1) have "\<not> truthy_str (q_agg_type args)" by simp
    from S(2)[OF this] False show ?thesis by auto
  qed
  from res ids q t have "fst (query_historian md ta args h) =
      Inr (assemble False agg t ids ((name, rows) # rest) h1)"
    by (simp add: query_historian_def Let_def)
  also have "assemble False agg t ids ((name, rows) # rest) h1 =
      (if rows = [] then []
       else [(''values'', Rows rows),
             (''metadata'', Metadata (meta_get (topic_meta h) (topic_id_map h (lower t))))])"
    using tid fr by (simp add: assemble_def Let_def)
  finally show "fst (query_historian md ta args h) =
      Inr (if rows = [] then []
           else [(''values'', Rows rows),
                 (''metadata'', Metadata (meta_get (topic_meta h) (topic_id_map h (lower t))))])" .
qed

theorem query_result_shape_witness:
  "fst (resolve_topics two_topic_backend [''A''] None None [] Map.empty catalog_historian) =
     Inr (None, [1], [1 \<mapsto> ''A'']) \<and>
   query two_topic_backend [1] [1 \<mapsto> ''A''] raw_args = Inr [(''A'', [(100, ''v'')])] \<and>
   fst (query_historian two_topic_backend (Str ''A'') raw_args catalog_historian) =
     Inr [(''values'', Rows [(100, ''v'')]), (''metadata'', Metadata [(''unit'', ''C'')])] \<and>
   fst (resolve_topics two_topic_backend [''A'', ''b''] None None [] Map.empty catalog_historian) =
     Inr (None, [1, 2], [1 \<mapsto> ''A'', 2 \<mapsto> ''b'']) \<and>
   query two_topic_backend [1, 2] [1 \<mapsto> ''A'', 2 \<mapsto> ''b''] raw_args =
     Inr [(''A'', [(100, ''v'')]), (''b'', [(200, ''v'')])] \<and>
   fst (query_historian two_topic_backend (Lst [''A'', ''b'']) raw_args catalog_historian) =
     Inr [(''values'', ByTopic [(''A'', [(100, ''v'')]), (''b'', [(200, ''v'')])]),
          (''metadata'', Metadata [])]"
proof -
  have a0: "q_agg_type raw_args = None" "q_agg_period raw_args = None"
    by (simp_all add: raw_args_def)
  have c0: "topic_id_map catalog_historian (lower ''A'') = Some 1"
    "topic_meta catalog_historian 1 = Some [(''unit'', ''C'')]"
    by (simp_all add: catalog_historian_def lower_A)
  have r1: "fst (resolve_topics two_topic_backend [''A''] None None [] Map.empty catalog_historian) =
     Inr (None, [1], [1 \<mapsto> ''A''])"
    by (simp add: lookup_topic_def Let_def catalog_historian_def lower_A)
  then have res1: "resolve_topics two_topic_backend (topics_list_of (Str ''A'')) (q_agg_type raw_args)
      (q_agg_period raw_args) [] Map.empty catalog_historian =
      (Inr (None, [1], [1 \<mapsto> ''A'']),
       snd (resolve_topics two_topic_backend [''A''] None None [] Map.empty catalog_historian))"
    unfolding a0 by (metis prod.collapse topics_list_of.simps(1))
  have q1: "query two_topic_backend [1] [1 \<mapsto> ''A''] raw_args = Inr ((''A'', [(100, ''v'')]) # [])"
    by (simp add: two_topic_backend_def)
  have q1': "query two_topic_backend [1] [1 \<mapsto> ''A''] (raw_args\<lparr>q_agg_type := None\<rparr>) =
      Inr ((''A'', [(100, ''v'')]) # [])"
    by (simp add: two_topic_backend_def)
  have A: "fst (query_historian two_topic_backend (Str ''A'') raw_args catalog_historian) =
     Inr [(''values'', Rows [(100, ''v'')]), (''metadata'', Metadata [(''unit'', ''C'')])]"
    using query_result_shape[OF res1 _ q1'] c0
    by (simp add: meta_get_def)
  have r2: "fst (resolve_topics two_topic_backend [''A'', ''b''] None None [] Map.empty catalog_historian) =
     Inr (None, [1, 2], [1 \<mapsto> ''A'', 2 \<mapsto> ''b''])"
    by (simp add: lookup_topic_def Let_def catalog_historian_def lower_A lower_b)
  then have res2: "resolve_topics two_topic_backend (topics_list_of (Lst [''A'', ''b''])) (q_agg_type raw_args)
      (q_agg_period raw_args) [] Map.empty catalog_historian =
      (Inr (None, [1, 2], [1 \<mapsto> ''A'', 2 \<mapsto> ''b'']),
       snd (resolve_topics two_topic_backend [''A'', ''b''] None None [] Map.empty catalog_historian))"
    unfolding a0 by (metis prod.collapse topics_list_of.simps(2))
  have q2: "query two_topic_backend [1, 2] [1 \<mapsto> ''A'', 2 \<mapsto> ''b''] raw_args =
     Inr ((''A'', [(100, ''v'')]) # [(''b'', [(200, ''v'')])])"
    by (simp add: two_topic_backend_def)
  have q2': "query two_topic_backend [1, 2] [1 \<mapsto> ''A'', 2 \<mapsto> ''b''] (raw_args\<lparr>q_agg_type := None\<rparr>) =
     Inr ((''A'', [(100, ''v'')]) # [(''b'', [(200, ''v'')])])"
    by (simp add: two_topic_backend_def)
  have B: "fst (query_historian two_topic_backend (Lst [''A'', ''b'']) raw_args catalog_historian) =
     Inr [(''values'', ByTopic [(''A'', [(100, ''v'')]), (''b'', [(200, ''v'')])]),
          (''metadata'', Metadata [])]"
    using query_result_shape[OF res2 _ q2']
    by simp
  from r1 q1 A r2 q2 B show ?thesis by simp
qed

subsection \<open>C5\<close>

text \<open>
  Claim C5. When no requested name resolves to an id (for a raw query: the topic cache has
  no id, or the id 0, for the lowercase name; for an aggregate query: neither the aggregate
  cache nor the map returned by the refresh has one), \<^verbatim>\<open>query_historian\<close> returns the
  empty result without raising and without calling the range query of the backend; it logs
  one warning per name and one for the empty id list, and leaves the topic caches as they
  were.
\<close>

theorem unresolved_query_returns_empty:
  assumes raw: "\<not> truthy_str (q_agg_type args) \<Longrightarrow>
      \<forall>t \<in> set (topics_list_of ta). \<not> truthy_id (topic_id_map h (lower t))"
    and agg: "\<And>a. q_agg_type args = Some a \<Longrightarrow> a \<noteq> [] \<Longrightarrow>
      \<exists>m. get_agg_topic_map md = Inr m \<and>
        (\<forall>t \<in> set (topics_list_of ta).
           \<not> truthy_id (agg_topic_id_map h (lower t, lower a, q_agg_period args)) \<and>
           \<not> truthy_id (m (lower t, lower a, q_agg_period args)))"
  shows "fst (query_historian md ta args h) = Inr [] \<and>
         hlog (snd (query_historian md ta args h)) =
           hlog h @ map WarnNoSuchTopic (topics_list_of ta) @ [WarnNoTopicIds (topics_list_of ta)] \<and>
         topic_id_map (snd (query_historian md ta args h)) = topic_id_map h \<and>
         topic_meta (snd (query_historian md ta args h)) = topic_meta h"
proof -
  define ts where "ts = topics_list_of ta"
  have "\<exists>agg' h1. resolve_topics md ts (q_agg_type args) (q_agg_period args) [] Map.empty h =
          (Inr (agg', [], Map.empty), h1) \<and> hlog h1 = hlog h @ map WarnNoSuchTopic ts"
  proof (cases "truthy_str (q_agg_type args)")
    case False
    from resolve_topics_raw_none[OF False raw[OF False, folded ts_def]]
    show ?thesis by simp
  next
    case True
    then obtain a where a: "q_agg_type args = Some a" "a \<noteq> []"
      by (cases "q_agg_type args") auto
    from agg[OF a] obtain m where m: "get_agg_topic_map md = Inr m"
      and un: "\<forall>t \<in> set ts.
           \<not> truthy_id (agg_topic_id_map h (lower t, lower a, q_agg_period args)) \<and>
           \<not> truthy_id (m (lower t, lower a, q_agg_period args))"
      unfolding ts_def by blast
    from resolve_topics_agg_none[OF m a(2) un] a(1) show ?thesis by simp
  qed
  then obtain agg' h1 where
    r: "resolve_topics md ts (q_agg_type args) (q_agg_period args) [] Map.empty h =
          (Inr (agg', [], Map.empty), h1)"
    and l: "hlog h1 = hlog h @ map WarnNoSuchTopic ts" by blast
  from resolve_topics_frame[OF r] have fr: "topic_id_map h1 = topic_id_map h" "topic_meta h1 = topic_meta h"
    by simp_all
  have "query_historian md ta args h = (Inr [], h1\<lparr>hlog := hlog h1 @ [WarnNoTopicIds ts]\<rparr>)"
    using r by (simp add: query_historian_def Let_def ts_def)
  with l fr show ?thesis by (simp add: ts_def)
qed

theorem unresolved_query_returns_empty_witness:
  "\<not> truthy_str (q_agg_type raw_args) \<and>
   \<not> truthy_id (topic_id_map catalog_historian (lower ''nosuch'')) \<and>
   fst (query_historian unreachable_backend (Str ''nosuch'') raw_args catalog_historian) = Inr [] \<and>
   hlog (snd (query_historian unreachable_backend (Str ''nosuch'') raw_args catalog_historian)) =
     [WarnNoSuchTopic ''nosuch'', WarnNoTopicIds [''nosuch'']] \<and>
   q_agg_type avg_args = Some ''AVG'' \<and>
   get_agg_topic_map unreachable_backend = Inr Map.empty \<and>
   fst (query_historian unreachable_backend (Lst [''a'', ''b'']) avg_args catalog_historian) = Inr [] \<and>
   hlog (snd (query_historian unreachable_backend (Lst [''a'', ''b'']) avg_args catalog_historian)) =
     [WarnNoSuchTopic ''a'', WarnNoSuchTopic ''b'', WarnNoTopicIds [''a'', ''b'']]"
proof -
  have lw: "lower ''nosuch'' = ''nosuch''" by code_simp
  have r1: "\<not> truthy_str (q_agg_type raw_args)" by (simp add: raw_args_def)
  have r2: "\<not> truthy_id (topic_id_map catalog_historian (lower ''nosuch''))"
    by (simp add: catalog_historian_def lw)
  have l0: "hlog catalog_historian = []" by (simp add: catalog_historian_def fresh_historian_def)
  have p1: "\<not> truthy_str (q_agg_type raw_args) \<Longrightarrow>
      \<forall>t \<in> set (topics_list_of (Str ''nosuch'')). \<not> truthy_id (topic_id_map catalog_historian (lower t))"
    using r2 by simp
  have p2: "\<And>a. q_agg_type raw_args = Some a \<Longrightarrow> a \<noteq> [] \<Longrightarrow>
      \<exists>m. get_agg_topic_map unreachable_backend = Inr m \<and>
        (\<forall>t \<in> set (topics_list_of (Str ''nosuch'')).
           \<not> truthy_id (agg_topic_id_map catalog_historian (lower t, lower a, q_agg_period raw_args)) \<and>
           \<not> truthy_id (m (lower t, lower a, q_agg_period raw_args)))"
    by (simp add: raw_args_def)
  have A: "fst (query_historian unreachable_backend (Str ''nosuch'') raw_args catalog_historian) = Inr [] \<and>
     hlog (snd (query_historian unreachable_backend (Str ''nosuch'') raw_args catalog_historian)) =
       [WarnNoSuchTopic ''nosuch'', WarnNoTopicIds [''nosuch'']]"
    using unresolved_query_returns_empty[OF p1 p2] l0
    by simp
  have a1: "q_agg_type avg_args = Some ''AVG''" "q_agg_period avg_args = Some ''1h''"
    by (simp_all add: avg_args_def)
  have a2: "get_agg_topic_map unreachable_backend = Inr Map.empty"
    by (simp add: unreachable_backend_def)
  have a3: "agg_topic_id_map catalog_historian = Map.empty"
    by (simp add: catalog_historian_def fresh_historian_def)
  have p3: "\<not> truthy_str (q_agg_type avg_args) \<Longrightarrow>
      \<forall>t \<in> set (topics_list_of (Lst [''a'', ''b''])). \<not> truthy_id (topic_id_map catalog_historian (lower t))"
    using a1 by simp
  have p4: "\<And>a. q_agg_type avg_args = Some a \<Longrightarrow> a \<noteq> [] \<Longrightarrow>
      \<exists>m. get_agg_topic_map unreachable_backend = Inr m \<and>
        (\<forall>t \<in> set (topics_list_of (Lst [''a'', ''b''])).
           \<not> truthy_id (agg_topic_id_map catalog_historian (lower t, lower a, q_agg_period avg_args)) \<and>
           \<not> truthy_id (m (lower t, lower a, q_agg_period avg_args)))"
    using a2 a3 by simp
  have B: "fst (query_historian unreachable_backend (Lst [''a'', ''b'']) avg_args catalog_historian) = Inr [] \<and>
     hlog (snd (query_historian unreachable_backend (Lst [''a'', ''b'']) avg_args catalog_historian)) =
       [WarnNoSuchTopic ''a'', WarnNoSuchTopic ''b'', WarnNoTopicIds [''a'', ''b'']]"
    using unresolved_query_returns_empty[OF p3 p4] l0
    by simp
  from r1 r2 A a1 a2 B show ?thesis by simp
qed

subsection \<open>C6\<close>

text \<open>
  Claim C6 as stated fails when the id given to a newly inserted topic already has a
  metadata snapshot in the cache. The caches are written while the batch is processed and
  are not restored when the batch is rolled back. Here the batch that introduces topic
  \<^verbatim>\<open>b\<close> with metadata \<^verbatim>\<open>{'unit': 'F'}\<close> fails at its data insert and is rolled back; the
  cache keeps id 1 for \<^verbatim>\<open>b\<close> and the snapshot of id 1, and the backend hands out id 1
  again. Topic \<^verbatim>\<open>a\<close> is then published twice with the metadata \<^verbatim>\<open>{}\<close>. The first publish
  inserts the topic and compares \<^verbatim>\<open>{}\<close> with the snapshot of no id, so it writes and caches
  no metadata; the second compares \<^verbatim>\<open>{}\<close> with the snapshot kept for id 1 and executes a
  metadata insert.
\<close>

theorem stale_snapshot_counterexample:
  "fst (publish_to_historian [item_b] reusing_historian) = Inl (DatabaseError ''constraint failed'') \<and>
   committed (bg_thread_dbutils (snd (publish_to_historian [item_b] reusing_historian))) = [] \<and>
   topic_id_map (snd (publish_to_historian [item_b] reusing_historian)) ''a'' = None \<and>
   fst (publish_to_historian [item_bare] (snd (publish_to_historian [item_b] reusing_historian))) = Inr () \<and>
   executed (bg_thread_dbutils (snd (publish_to_historian [item_bare]
       (snd (publish_to_historian [item_b] reusing_historian))))) =
     [insert_topic_query ''b'', insert_meta_query 1 [(''unit'', ''F'')], insert_data_query 100 1 ''1'',
      insert_topic_query ''a'', insert_data_query 300 1 ''3''] \<and>
   fst (publish_to_historian [item_bare] (snd (publish_to_historian [item_bare]
       (snd (publish_to_historian [item_b] reusing_historian))))) = Inr () \<and>
   executed (bg_thread_dbutils (snd (publish_to_historian [item_bare]
       (snd (publish_to_historian [item_bare]
          (snd (publish_to_historian [item_b] reusing_historian))))))) =
     [insert_topic_query ''b'', insert_meta_query 1 [(''unit'', ''F'')], insert_data_query 100 1 ''1'',
      insert_topic_query ''a'', insert_data_query 300 1 ''3'',
      insert_meta_query 1 [], insert_data_query 300 1 ''3'']"
  by (simp add: model_defs fixture_defs executed_def reusing_historian_def failing_once_def
      item_b_def item_bare_def lower_b)

text \<open>
  Claim C6, amended. After an accepted publish of a record, a second publish of a record
  with the same topic name and the same metadata executes at most one statement, the data
  insert under the cached topic id: no metadata insert and no metadata update; provided
  that, when the first publish inserts the topic as a new one, the cache holds no metadata
  snapshot under the id the topic is given.
\<close>

theorem republish_writes_no_metadata:
  assumes first: "publish_to_historian [x] h = (Inr (), h1)"
    and fresh: "\<And>i. topic_id_map h (lower (topic x)) = None \<Longrightarrow>
                  topic_id_map h1 (lower (topic x)) = Some i \<Longrightarrow> topic_meta h i = None"
    and same: "topic y = topic x" "meta y = meta x"
    and second: "publish_to_historian [y] h1 = (res, h2)"
  shows "\<exists>i. topic_id_map h1 (lower (topic x)) = Some i \<and>
           (executed (bg_thread_dbutils h2) = executed (bg_thread_dbutils h1) \<or>
            executed (bg_thread_dbutils h2) =
              executed (bg_thread_dbutils h1) @ [insert_data_query (timestamp y) i (val y)])"
proof -
  define key where "key = lower (topic x)"
  define old where "old = meta_get (topic_meta h) (topic_id_map h key)"
  obtain r1 hL where loop1: "publish_loop [x] 0 h = (r1, hL)" by (cases "publish_loop [x] 0 h")
  note A = publish_after_loop[OF first loop1]
  from A(5) obtain n where "r1 = Inr n" by blast
  with loop1 have rec1: "publish_record x 0 h = (Inr n, hL)" unfolding publish_loop_single by simp
  from publish_record_ok[OF rec1] obtain i where
    ids: "topic_id_map hL = (topic_id_map h)(key \<mapsto> i)"
    and known: "\<forall>j. topic_id_map h key = Some j \<longrightarrow> i = j"
    and names: "topic_name_map hL = (topic_name_map h)(key \<mapsto> topic x)"
    and metas: "topic_meta hL = (if old \<noteq> meta x then (topic_meta h)(i \<mapsto> meta x) else topic_meta h)"
    unfolding key_def old_def by blast
  have id1: "topic_id_map h1 key = Some i" using A(1) ids by simp
  have name1: "topic_name_map h1 key = Some (topic x)" using A(2) names by simp
  have meta1: "meta_get (topic_meta h1) (Some i) = meta x"
  proof (cases "old \<noteq> meta x")
    case True
    with A(3) metas show ?thesis by (simp add: meta_get_def)
  next
    case False
    then have eq: "topic_meta h1 = topic_meta h" "old = meta x" using A(3) metas by simp_all
    show ?thesis
    proof (cases "topic_id_map h key")
      case None
      with fresh[of i] id1 have "topic_meta h i = None" by (simp add: key_def)
      moreover from None eq(2) have "meta x = []" by (simp add: old_def meta_get_def)
      ultimately show ?thesis using eq(1) by (simp add: meta_get_def)
    next
      case (Some j)
      with known have "i = j" by simp
      with Some eq show ?thesis by (simp add: old_def)
    qed
  qed
  obtain r2 hM where loop2: "publish_loop [y] 0 h1 = (r2, hM)" by (cases "publish_loop [y] 0 h1")
  then have rec2: "publish_record y 0 h1 = (r2, hM)" unfolding publish_loop_single .
  have "carries h1 hM (err_of r2) [] \<or>
        carries h1 hM (err_of r2) [insert_data_query (timestamp y) i (val y)]"
    by (rule publish_record_unchanged[OF _ _ _ rec2]) (simp_all add: same id1[unfolded key_def] name1[unfolded key_def] meta1)
  then have "executed (bg_thread_dbutils hM) = executed (bg_thread_dbutils h1) \<or>
      executed (bg_thread_dbutils hM) =
        executed (bg_thread_dbutils h1) @ [insert_data_query (timestamp y) i (val y)]"
    using carries_executed by fastforce
  with publish_after_loop(4)[OF second loop2] id1 show ?thesis
    unfolding key_def by auto
qed

theorem republish_writes_no_metadata_witness:
  "fst (publish_to_historian [item_a] fresh_historian) = Inr () \<and>
   topic_id_map fresh_historian (lower (topic item_a)) = None \<and>
   topic_id_map (snd (publish_to_historian [item_a] fresh_historian)) (lower (topic item_a)) = Some 1 \<and>
   topic_meta fresh_historian 1 = None \<and>
   executed (bg_thread_dbutils (snd (publish_to_historian [item_a] fresh_historian))) =
     [insert_topic_query ''a'', insert_meta_query 1 [(''unit'', ''C'')], insert_data_query 200 1 ''2''] \<and>
   executed (bg_thread_dbutils (snd (publish_to_historian [item_a\<lparr>timestamp := 300, val := ''3''\<rparr>]
        (snd (publish_to_historian [item_a] fresh_historian))))) =
     [insert_topic_query ''a'', insert_meta_query 1 [(''unit'', ''C'')], insert_data_query 200 1 ''2'',
      insert_data_query 300 1 ''3'']"
proof -
  define h1 where "h1 = snd (publish_to_historian [item_a] fresh_historian)"
  define y where "y = item_a\<lparr>timestamp := 300, val := ''3''\<rparr>"
  define h2 where "h2 = snd (publish_to_historian [y] h1)"
  have f: "fst (publish_to_historian [item_a] fresh_historian) = Inr ()"
    by (simp add: model_defs fixture_defs)
  then have first: "publish_to_historian [item_a] fresh_historian = (Inr (), h1)"
    unfolding h1_def by (metis prod.collapse)
  have none: "topic_id_map fresh_historian (lower (topic item_a)) = None"
    "topic_meta fresh_historian 1 = None"
    by (simp_all add: fixture_defs)
  have id1: "topic_id_map h1 (lower (topic item_a)) = Some 1"
    unfolding h1_def by (simp add: model_defs fixture_defs)
  have ex1: "executed (bg_thread_dbutils h1) =
     [insert_topic_query ''a'', insert_meta_query 1 [(''unit'', ''C'')], insert_data_query 200 1 ''2'']"
    unfolding h1_def by (simp add: model_defs fixture_defs executed_def)
  have second: "publish_to_historian [y] h1 = (fst (publish_to_historian [y] h1), h2)"
    unfolding h2_def by simp
  have len: "length (executed (bg_thread_dbutils h2)) = 4"
    unfolding h2_def h1_def y_def by (simp add: model_defs fixture_defs executed_def)
  have sm: "topic y = topic item_a" "meta y = meta item_a" "timestamp y = 300" "val y = ''3''"
    by (simp_all add: y_def)
  have fr: "\<And>i. topic_id_map fresh_historian (lower (topic item_a)) = None \<Longrightarrow>
      topic_id_map h1 (lower (topic item_a)) = Some i \<Longrightarrow> topic_meta fresh_historian i = None"
    using id1 none by simp
  from republish_writes_no_metadata[OF first fr sm(1,2) second] id1 ex1 len sm(3,4)
  have "executed (bg_thread_dbutils h2) =
     [insert_topic_query ''a'', insert_meta_query 1 [(''unit'', ''C'')], insert_data_query 200 1 ''2'',
      insert_data_query 300 1 ''3'']"
    by auto
  with f none id1 ex1 show ?thesis unfolding h2_def h1_def y_def by simp
qed

subsection \<open>C7\<close>

text \<open>
  Claim C7. A topic id, once cached under a key, is the same after every publish, accepted
  or not. After an accepted publish every record of the batch has its data row filed under
  the id cached for the lowercase of its name, so that names differing only in case share
  one id, and the cached display name of a key is the name of the last record of the batch
  with that key.
\<close>

theorem topic_names_case_insensitive:
  assumes run: "publish_to_historian xs h = (res, h')"
  shows "(\<forall>k i. topic_id_map h k = Some i \<longrightarrow> topic_id_map h' k = Some i) \<and>
         (res = Inr () \<longrightarrow>
            (\<forall>x \<in> set xs. \<exists>i. topic_id_map h' (lower (topic x)) = Some i \<and>
                insert_data_query (timestamp x) i (val x) \<in> set (executed (bg_thread_dbutils h'))) \<and>
            (\<forall>ys x zs. xs = ys @ x # zs \<and> (\<forall>z \<in> set zs. lower (topic z) \<noteq> lower (topic x)) \<longrightarrow>
                topic_name_map h' (lower (topic x)) = Some (topic x)))"
proof -
  obtain r1 h1 where loop: "publish_loop xs 0 h = (r1, h1)" by (cases "publish_loop xs 0 h")
  note A = publish_after_loop[OF run loop]
  from publish_loop_any[OF loop] have "\<forall>k i. topic_id_map h k = Some i \<longrightarrow> topic_id_map h1 k = Some i"
    by (auto simp: carries_def)
  then have stable: "\<forall>k i. topic_id_map h k = Some i \<longrightarrow> topic_id_map h' k = Some i"
    using A(1) by simp
  have ok: "res = Inr () \<longrightarrow>
            (\<forall>x \<in> set xs. \<exists>i. topic_id_map h' (lower (topic x)) = Some i \<and>
                insert_data_query (timestamp x) i (val x) \<in> set (executed (bg_thread_dbutils h'))) \<and>
            (\<forall>ys x zs. xs = ys @ x # zs \<and> (\<forall>z \<in> set zs. lower (topic z) \<noteq> lower (topic x)) \<longrightarrow>
                topic_name_map h' (lower (topic x)) = Some (topic x))"
  proof
    assume "res = Inr ()"
    from A(5)[OF this] obtain n where "r1 = Inr n" by blast
    with loop have loop': "publish_loop xs 0 h = (Inr n, h1)" by simp
    have rows: "\<forall>x \<in> set xs. \<exists>i. topic_id_map h' (lower (topic x)) = Some i \<and>
                insert_data_query (timestamp x) i (val x) \<in> set (executed (bg_thread_dbutils h'))"
      using publish_loop_rows[OF loop'] A(1,4) by simp
    have names: "\<forall>ys x zs. xs = ys @ x # zs \<and> (\<forall>z \<in> set zs. lower (topic z) \<noteq> lower (topic x)) \<longrightarrow>
                topic_name_map h' (lower (topic x)) = Some (topic x)"
    proof (intro allI impI)
      fix ys x zs
      assume a: "xs = ys @ x # zs \<and> (\<forall>z \<in> set zs. lower (topic z) \<noteq> lower (topic x))"
      with loop' have "publish_loop (ys @ x # zs) 0 h = (Inr n, h1)" by simp
      from publish_loop_last_casing[OF this] a
      have "topic_name_map h1 (lower (topic x)) = Some (topic x)" by blast
      with A(2) show "topic_name_map h' (lower (topic x)) = Some (topic x)" by simp
    qed
    from rows names show "(\<forall>x \<in> set xs. \<exists>i. topic_id_map h' (lower (topic x)) = Some i \<and>
                insert_data_query (timestamp x) i (val x) \<in> set (executed (bg_thread_dbutils h'))) \<and>
            (\<forall>ys x zs. xs = ys @ x # zs \<and> (\<forall>z \<in> set zs. lower (topic z) \<noteq> lower (topic x)) \<longrightarrow>
                topic_name_map h' (lower (topic x)) = Some (topic x))" by blast
  qed
  from stable ok show ?thesis by blast
qed

theorem topic_names_case_insensitive_witness:
  "lower (topic item_upper) = lower (topic item_lower) \<and>
   topic_id_map known_historian (lower (topic item_upper)) = Some 7 \<and>
   topic_name_map known_historian (lower (topic item_upper)) = Some ''Device/Temp'' \<and>
   fst (publish_to_historian [item_upper, item_lower] known_historian) = Inr () \<and>
   topic_id_map (snd (publish_to_historian [item_upper, item_lower] known_historian))
     (lower (topic item_lower)) = Some 7 \<and>
   insert_data_query 100 7 ''1'' \<in> set (executed (bg_thread_dbutils
     (snd (publish_to_historian [item_upper, item_lower] known_historian)))) \<and>
   insert_data_query 200 7 ''2'' \<in> set (executed (bg_thread_dbutils
     (snd (publish_to_historian [item_upper, item_lower] known_historian)))) \<and>
   topic_name_map (snd (publish_to_historian [item_upper, item_lower] known_historian))
     (lower (topic item_upper)) = Some ''device/temp''"
proof -
  define h' where "h' = snd (publish_to_historian [item_upper, item_lower] known_historian)"
  have lw: "lower (topic item_upper) = ''device/temp''" "lower (topic item_lower) = ''device/temp''"
    by (simp_all add: item_upper_def item_lower_def lower_device)
  have kn: "topic_id_map known_historian ''device/temp'' = Some 7"
    "topic_name_map known_historian ''device/temp'' = Some ''Device/Temp''"
    by (simp_all add: known_historian_def)
  have f: "fst (publish_to_historian [item_upper, item_lower] known_historian) = Inr ()"
    by (simp add: model_defs known_historian_def item_upper_def item_lower_def fixture_defs lower_device)
  then have run: "publish_to_historian [item_upper, item_lower] known_historian = (Inr (), h')"
    unfolding h'_def by (metis prod.collapse)
  note T = topic_names_case_insensitive[OF run]
  from T have stable: "\<forall>k i. topic_id_map known_historian k = Some i \<longrightarrow> topic_id_map h' k = Some i"
    by (rule conjunct1)
  from T have "Inr () = (Inr () :: exn + unit) \<longrightarrow>
            (\<forall>x \<in> set [item_upper, item_lower]. \<exists>i. topic_id_map h' (lower (topic x)) = Some i \<and>
                insert_data_query (timestamp x) i (val x) \<in> set (executed (bg_thread_dbutils h'))) \<and>
            (\<forall>ys x zs. [item_upper, item_lower] = ys @ x # zs \<and>
                (\<forall>z \<in> set zs. lower (topic z) \<noteq> lower (topic x)) \<longrightarrow>
                topic_name_map h' (lower (topic x)) = Some (topic x))"
    by (rule conjunct2)
  then have R: "\<forall>x \<in> set [item_upper, item_lower]. \<exists>i. topic_id_map h' (lower (topic x)) = Some i \<and>
                insert_data_query (timestamp x) i (val x) \<in> set (executed (bg_thread_dbutils h'))"
    and N: "\<forall>ys x zs. [item_upper, item_lower] = ys @ x # zs \<and>
                (\<forall>z \<in> set zs. lower (topic z) \<noteq> lower (topic x)) \<longrightarrow>
                topic_name_map h' (lower (topic x)) = Some (topic x)"
    by simp_all
  from stable kn(1) have id: "topic_id_map h' ''device/temp'' = Some 7" by simp
  from R have "\<exists>i. topic_id_map h' (lower (topic item_upper)) = Some i \<and>
        insert_data_query (timestamp item_upper) i (val item_upper) \<in> set (executed (bg_thread_dbutils h'))"
    by simp
  with id lw have r1: "insert_data_query 100 7 ''1'' \<in> set (executed (bg_thread_dbutils h'))"
    by (auto simp: item_upper_def)
  from R have "\<exists>i. topic_id_map h' (lower (topic item_lower)) = Some i \<and>
        insert_data_query (timestamp item_lower) i (val item_lower) \<in> set (executed (bg_thread_dbutils h'))"
    by simp
  with id lw have r2: "insert_data_query 200 7 ''2'' \<in> set (executed (bg_thread_dbutils h'))"
    by (auto simp: item_lower_def)
  note rows = r1 r2
  from N[THEN spec, THEN spec, THEN spec, of "[item_upper]" item_lower "[]"]
  have "topic_name_map h' (lower (topic item_lower)) = Some (topic item_lower)" by simp
  then have nm: "topic_name_map h' ''device/temp'' = Some ''device/temp''"
    using lw by (simp add: item_lower_def)
  from lw kn f id rows nm show ?thesis unfolding h'_def by simp
qed

subsection \<open>C8\<close>

text \<open>
  Claim C8. Without a connection, \<^verbatim>\<open>commit()\<close> and \<^verbatim>\<open>rollback()\<close> return \<^verbatim>\<open>False\<close>, log a
  warning and change nothing else. With a connection they make exactly one call on it, and
  return \<^verbatim>\<open>True\<close> when that call returns: a commit then makes the pending statements
  durable, a rollback discards them. When the call raises, the exception goes to the caller
  and nothing is committed; a \<^verbatim>\<open>sqlite3.OperationalError\<close> whose message contains
  "database is locked" is logged with the guidance text before it is raised again.
\<close>

theorem commit_rollback_contract:
  "(connection d = None \<longrightarrow>
      commit d = (Inr False, d\<lparr>dlog := dlog d @ [WarnCommitConnectionNull]\<rparr>) \<and>
      rollback d = (Inr False, d\<lparr>dlog := dlog d @ [WarnRollbackConnectionNull]\<rparr>)) \<and>
   (connection d = Some c \<longrightarrow>
      trace (snd (commit d)) = trace d @ [(Commit, replies d (length (trace d)))] \<and>
      trace (snd (rollback d)) = trace d @ [(Rollback, replies d (length (trace d)))]) \<and>
   (connection d = Some c \<and> (\<forall>e. replies d (length (trace d)) \<noteq> Raises e) \<longrightarrow>
      fst (commit d) = Inr True \<and>
      committed (snd (commit d)) = committed d @ pending c \<and>
      connection (snd (commit d)) = Some (c\<lparr>pending := []\<rparr>) \<and>
      fst (rollback d) = Inr True \<and>
      committed (snd (rollback d)) = committed d \<and>
      connection (snd (rollback d)) = Some (c\<lparr>pending := []\<rparr>)) \<and>
   (connection d = Some c \<and> replies d (length (trace d)) = Raises e \<longrightarrow>
      fst (commit d) = Inl e \<and> committed (snd (commit d)) = committed d \<and>
      connection (snd (commit d)) = Some c \<and>
      fst (rollback d) = Inl e \<and> connection (snd (rollback d)) = Some c) \<and>
   (connection d = Some c \<and> replies d (length (trace d)) = Raises (OperationalError msg) \<and>
    contains ''database is locked'' msg \<longrightarrow>
      fst (commit d) = Inl (OperationalError msg) \<and>
      dlog (snd (commit d)) = dlog d @ [ErrDatabaseLocked])"
  by (auto simp: commit_def rollback_def dbapi_def Let_def split: reply.splits exn.splits)

theorem commit_rollback_contract_witness:
  "connection fresh_driver = None \<and>
   fst (commit fresh_driver) = Inr False \<and> fst (rollback fresh_driver) = Inr False \<and>
   dlog (snd (commit fresh_driver)) = [WarnCommitConnectionNull] \<and>
   connection open_driver = Some \<lparr>pending = [insert_data_query 100 1 ''1''], closed = False\<rparr> \<and>
   replies open_driver (length (trace open_driver)) = Returns 1 \<and>
   committed (snd (commit open_driver)) = [insert_data_query 100 1 ''1''] \<and>
   connection (snd (rollback open_driver)) = Some \<lparr>pending = [], closed = False\<rparr> \<and>
   replies locked_driver (length (trace locked_driver)) = Raises (OperationalError ''database is locked'') \<and>
   contains ''database is locked'' ''database is locked'' \<and>
   fst (commit locked_driver) = Inl (OperationalError ''database is locked'') \<and>
   dlog (snd (commit locked_driver)) = [ErrDatabaseLocked]"
proof -
  have a: "connection fresh_driver = None" by (simp add: fresh_driver_def)
  have b: "connection open_driver = Some \<lparr>pending = [insert_data_query 100 1 ''1''], closed = False\<rparr>"
    "replies open_driver (length (trace open_driver)) = Returns 1"
    by (simp_all add: open_driver_def fresh_driver_def quiet_backend_def)
  have c: "connection locked_driver = Some \<lparr>pending = [insert_data_query 100 1 ''1''], closed = False\<rparr>"
    "replies locked_driver (length (trace locked_driver)) = Raises (OperationalError ''database is locked'')"
    by (simp_all add: locked_driver_def open_driver_def fresh_driver_def locked_backend_def)
  have k: "contains ''database is locked'' ''database is locked''" by simp
  have d0: "dlog fresh_driver = []" "dlog locked_driver = []" "committed open_driver = []"
    by (simp_all add: locked_driver_def open_driver_def fresh_driver_def)
  from commit_rollback_contract[of fresh_driver] a d0
  have 1: "fst (commit fresh_driver) = Inr False \<and> fst (rollback fresh_driver) = Inr False \<and>
     dlog (snd (commit fresh_driver)) = [WarnCommitConnectionNull]" by simp
  from commit_rollback_contract[where d=open_driver and c="\<lparr>pending = [insert_data_query 100 1 ''1''], closed = False\<rparr>"] b d0
  have 2: "committed (snd (commit open_driver)) = [insert_data_query 100 1 ''1''] \<and>
     connection (snd (rollback open_driver)) = Some \<lparr>pending = [], closed = False\<rparr>" by simp
  from commit_rollback_contract[where d=locked_driver and c="\<lparr>pending = [insert_data_query 100 1 ''1''], closed = False\<rparr>" and msg="''database is locked''" and e="OperationalError ''database is locked''"] c k d0
  have 3: "fst (commit locked_driver) = Inl (OperationalError ''database is locked'') \<and>
     dlog (snd (commit locked_driver)) = [ErrDatabaseLocked]" by simp
  from a b c k 1 2 3 show ?thesis by simp
qed

subsection \<open>C9\<close>

text \<open>
  Claim C9 as stated fails for exceptions that are not instances of \<^verbatim>\<open>Exception\<close>: both
  handlers of \<^verbatim>\<open>cursor()\<close> are \<^verbatim>\<open>except Exception\<close> clauses. Here a live connection raises
  \<^verbatim>\<open>KeyboardInterrupt\<close> when asked for a cursor: the exception reaches the caller, the
  factory is not called and the connection is kept. And a factory that raises
  \<^verbatim>\<open>SystemExit\<close> has its exception reach the caller as it is, not wrapped in a
  \<^verbatim>\<open>ConnectionError\<close>.
\<close>

theorem interrupted_cursor_counterexample:
  "connection interrupted_driver =
     Some \<lparr>pending = [insert_data_query 100 1 ''1''], closed = False\<rparr> \<and>
   fst (cursor interrupted_driver) = Inl (BuiltinBaseException ''KeyboardInterrupt'') \<and>
   trace (snd (cursor interrupted_driver)) =
     [(GetCursor, Raises (BuiltinBaseException ''KeyboardInterrupt''))] \<and>
   connection (snd (cursor interrupted_driver)) =
     Some \<lparr>pending = [insert_data_query 100 1 ''1''], closed = False\<rparr> \<and>
   connection exiting_driver = None \<and>
   fst (cursor exiting_driver) = Inl (BuiltinBaseException ''SystemExit'') \<and>
   trace (snd (cursor exiting_driver)) = [(Connect, Raises (BuiltinBaseException ''SystemExit''))]"
  by (simp add: cursor_def reconnect_def connection_cursor_def dbapi_def Let_def
      interrupted_driver_def exiting_driver_def open_driver_def fresh_driver_def)

text \<open>
  Claim C9, amended. \<^verbatim>\<open>cursor()\<close> asks a live connection (present and not closed) for a
  cursor and keeps that connection. Without a live connection, or when that request raises
  an instance of \<^verbatim>\<open>Exception\<close>, its next call is the connection factory: the old
  connection is dropped, and when the factory returns a connection and that connection
  yields a cursor, the driver holds the new connection, with an empty transaction; when the
  factory raises \<open>e\<close>, the driver holds no connection and the caller gets
  \<open>ConnectionError e\<close> if \<open>e\<close> is an instance of \<^verbatim>\<open>Exception\<close>, and \<open>e\<close> itself
  otherwise. When the request to a live connection raises an exception that is not an
  instance of \<^verbatim>\<open>Exception\<close>, the caller gets that exception, no further call is made and
  the connection is kept.
\<close>

theorem cursor_acquisition:
  "(connection d = Some c \<and> \<not> closed c \<and> (\<forall>e. replies d (length (trace d)) \<noteq> Raises e) \<longrightarrow>
      fst (cursor d) = Inr (length (trace d)) \<and>
      connection (snd (cursor d)) = Some c \<and>
      trace (snd (cursor d)) = trace d @ [(GetCursor, replies d (length (trace d)))]) \<and>
   (connection d = None \<or> (connection d = Some c \<and> closed c) \<longrightarrow>
      (\<exists>evs. trace (snd (cursor d)) = trace d @ (Connect, replies d (length (trace d))) # evs) \<and>
      (\<forall>n. replies d (length (trace d)) = Returns n \<and>
           (\<forall>e. replies d (Suc (length (trace d))) \<noteq> Raises e) \<longrightarrow>
         fst (cursor d) = Inr (Suc (length (trace d))) \<and>
         connection (snd (cursor d)) = Some \<lparr>pending = [], closed = False\<rparr> \<and>
         trace (snd (cursor d)) =
           trace d @ [(Connect, Returns n), (GetCursor, replies d (Suc (length (trace d))))]) \<and>
      (\<forall>e. replies d (length (trace d)) = Raises e \<longrightarrow>
         (is_exception e \<longrightarrow> fst (cursor d) = Inl (ConnectionError e)) \<and>
         (\<not> is_exception e \<longrightarrow> fst (cursor d) = Inl e) \<and>
         connection (snd (cursor d)) = None)) \<and>
   (connection d = Some c \<and> \<not> closed c \<and> replies d (length (trace d)) = Raises e0 \<and>
    is_exception e0 \<longrightarrow>
      (\<exists>evs. trace (snd (cursor d)) =
         trace d @ (GetCursor, Raises e0) # (Connect, replies d (Suc (length (trace d)))) # evs) \<and>
      (\<forall>n. replies d (Suc (length (trace d))) = Returns n \<and>
           (\<forall>e. replies d (Suc (Suc (length (trace d)))) \<noteq> Raises e) \<longrightarrow>
         fst (cursor d) = Inr (Suc (Suc (length (trace d)))) \<and>
         connection (snd (cursor d)) = Some \<lparr>pending = [], closed = False\<rparr>) \<and>
      (\<forall>e. replies d (Suc (length (trace d))) = Raises e \<longrightarrow>
         (is_exception e \<longrightarrow> fst (cursor d) = Inl (ConnectionError e)) \<and>
         (\<not> is_exception e \<longrightarrow> fst (cursor d) = Inl e) \<and>
         connection (snd (cursor d)) = None)) \<and>
   (connection d = Some c \<and> \<not> closed c \<and> replies d (length (trace d)) = Raises e0 \<and>
    \<not> is_exception e0 \<longrightarrow>
      fst (cursor d) = Inl e0 \<and>
      connection (snd (cursor d)) = Some c \<and>
      trace (snd (cursor d)) = trace d @ [(GetCursor, Raises e0)])"
  by (auto simp: cursor_def reconnect_def connection_cursor_def dbapi_def Let_def
      split: reply.splits)

theorem cursor_acquisition_witness:
  "connection open_driver = Some \<lparr>pending = [insert_data_query 100 1 ''1''], closed = False\<rparr> \<and>
   replies open_driver (length (trace open_driver)) = Returns 1 \<and>
   fst (cursor open_driver) = Inr 0 \<and>
   trace (snd (cursor open_driver)) = [(GetCursor, Returns 1)] \<and>
   connection fresh_driver = None \<and>
   fst (cursor fresh_driver) = Inr 1 \<and>
   connection (snd (cursor fresh_driver)) = Some \<lparr>pending = [], closed = False\<rparr> \<and>
   trace (snd (cursor fresh_driver)) = [(Connect, Returns 1), (GetCursor, Returns 1)] \<and>
   replies unreachable_driver (length (trace unreachable_driver)) = Raises (DatabaseError ''refused'') \<and>
   fst (cursor unreachable_driver) = Inl (ConnectionError (DatabaseError ''refused'')) \<and>
   replies stale_driver (length (trace stale_driver)) = Raises (DatabaseError ''gone away'') \<and>
   fst (cursor stale_driver) = Inr 2 \<and>
   connection (snd (cursor stale_driver)) = Some \<lparr>pending = [], closed = False\<rparr> \<and>
   replies interrupted_driver (length (trace interrupted_driver)) =
     Raises (BuiltinBaseException ''KeyboardInterrupt'') \<and>
   \<not> is_exception (BuiltinBaseException ''KeyboardInterrupt'') \<and>
   fst (cursor interrupted_driver) = Inl (BuiltinBaseException ''KeyboardInterrupt'') \<and>
   connection (snd (cursor interrupted_driver)) =
     Some \<lparr>pending = [insert_data_query 100 1 ''1''], closed = False\<rparr> \<and>
   replies exiting_driver (length (trace exiting_driver)) =
     Raises (BuiltinBaseException ''SystemExit'') \<and>
   fst (cursor exiting_driver) = Inl (BuiltinBaseException ''SystemExit'')"
proof -
  have o: "connection open_driver = Some \<lparr>pending = [insert_data_query 100 1 ''1''], closed = False\<rparr>"
    "replies open_driver (length (trace open_driver)) = Returns 1" "trace open_driver = []"
    by (simp_all add: open_driver_def fresh_driver_def quiet_backend_def)
  have f: "connection fresh_driver = None" "trace fresh_driver = []"
    "replies fresh_driver 0 = Returns 1" "replies fresh_driver (Suc 0) = Returns 1"
    by (simp_all add: fresh_driver_def quiet_backend_def)
  have u: "connection unreachable_driver = None" "trace unreachable_driver = []"
    "replies unreachable_driver 0 = Raises (DatabaseError ''refused'')"
    by (simp_all add: unreachable_driver_def fresh_driver_def)
  have s: "connection stale_driver = Some \<lparr>pending = [insert_data_query 100 1 ''1''], closed = False\<rparr>"
    "trace stale_driver = []"
    "replies stale_driver 0 = Raises (DatabaseError ''gone away'')"
    "replies stale_driver (Suc 0) = Returns 1" "replies stale_driver (Suc (Suc 0)) = Returns 1"
    by (simp_all add: stale_driver_def open_driver_def fresh_driver_def)
  from cursor_acquisition[where d=open_driver and c="\<lparr>pending = [insert_data_query 100 1 ''1''], closed = False\<rparr>"] o
  have 1: "fst (cursor open_driver) = Inr 0 \<and> trace (snd (cursor open_driver)) = [(GetCursor, Returns 1)]"
    by simp
  from cursor_acquisition[of fresh_driver] f
  have 2: "fst (cursor fresh_driver) = Inr 1 \<and>
    connection (snd (cursor fresh_driver)) = Some \<lparr>pending = [], closed = False\<rparr> \<and>
    trace (snd (cursor fresh_driver)) = [(Connect, Returns 1), (GetCursor, Returns 1)]"
    by simp
  from cursor_acquisition[of unreachable_driver] u
  have 3: "fst (cursor unreachable_driver) = Inl (ConnectionError (DatabaseError ''refused''))"
    by simp
  from cursor_acquisition[where d=stale_driver and c="\<lparr>pending = [insert_data_query 100 1 ''1''], closed = False\<rparr>" and ?e0.0="DatabaseError ''gone away''"] s
  have 4: "fst (cursor stale_driver) = Inr 2 \<and>
    connection (snd (cursor stale_driver)) = Some \<lparr>pending = [], closed = False\<rparr>"
    by simp
  have i: "connection interrupted_driver = Some \<lparr>pending = [insert_data_query 100 1 ''1''], closed = False\<rparr>"
    "trace interrupted_driver = []"
    "replies interrupted_driver 0 = Raises (BuiltinBaseException ''KeyboardInterrupt'')"
    by (simp_all add: interrupted_driver_def open_driver_def fresh_driver_def)
  have x: "connection exiting_driver = None" "trace exiting_driver = []"
    "replies exiting_driver 0 = Raises (BuiltinBaseException ''SystemExit'')"
    by (simp_all add: exiting_driver_def fresh_driver_def)
  from cursor_acquisition[where d=interrupted_driver and c="\<lparr>pending = [insert_data_query 100 1 ''1''], closed = False\<rparr>" and ?e0.0="BuiltinBaseException ''KeyboardInterrupt''"] i
  have 5: "fst (cursor interrupted_driver) = Inl (BuiltinBaseException ''KeyboardInterrupt'') \<and>
    connection (snd (cursor interrupted_driver)) =
      Some \<lparr>pending = [insert_data_query 100 1 ''1''], closed = False\<rparr>"
    by simp
  from cursor_acquisition[of exiting_driver] x
  have 6: "fst (cursor exiting_driver) = Inl (BuiltinBaseException ''SystemExit'')"
    by simp
  from o f u s 1 2 3 4 i x 5 6 show ?thesis by simp
qed

subsection \<open>C10\<close>

text \<open>
  Claim C10. \<^verbatim>\<open>insert_data\<close>, \<^verbatim>\<open>insert_meta\<close>, \<^verbatim>\<open>update_meta\<close>, \<^verbatim>\<open>update_topic\<close> and
  \<^verbatim>\<open>insert_agg_meta\<close> return \<^verbatim>\<open>True\<close> whenever they return at all; hence a publish loop
  that ends without an exception has counted every record of the batch as published.
\<close>

theorem writes_return_true_and_all_counted:
  "(insert_data ts i v d = (Inr b1, d1) \<longrightarrow> b1) \<and>
   (insert_meta i m d = (Inr b2, d2) \<longrightarrow> b2) \<and>
   (update_meta i m d = (Inr b3, d3) \<longrightarrow> b3) \<and>
   (update_topic t i mo d = (Inr b4, d4) \<longrightarrow> b4) \<and>
   (insert_agg_meta i m d = (Inr b5, d5) \<longrightarrow> b5) \<and>
   (publish_loop xs 0 h = (Inr published, h') \<longrightarrow> published = length xs)"
proof (intro conjI impI)
  show "insert_data ts i v d = (Inr b1, d1) \<Longrightarrow> b1" using insert_data_effect(2) by blast
  show "insert_meta i m d = (Inr b2, d2) \<Longrightarrow> b2" using insert_meta_effect(2) by blast
  show "update_meta i m d = (Inr b3, d3) \<Longrightarrow> b3" using update_meta_effect(2) by blast
  show "update_topic t i mo d = (Inr b4, d4) \<Longrightarrow> b4" using update_topic_effect(2) by blast
  show "insert_agg_meta i m d = (Inr b5, d5) \<Longrightarrow> b5" using insert_agg_meta_effect by blast
  show "publish_loop xs 0 h = (Inr published, h') \<Longrightarrow> published = length xs"
    using publish_loop_count by fastforce
qed

theorem writes_return_true_and_all_counted_witness:
  "fst (insert_data 100 1 ''1'' fresh_driver) = Inr True \<and>
   fst (insert_meta 1 [(''unit'', ''C'')] fresh_driver) = Inr True \<and>
   fst (update_meta 1 [(''unit'', ''C'')] fresh_driver) = Inr True \<and>
   fst (update_topic ''a'' 1 None fresh_driver) = Inr True \<and>
   fst (insert_agg_meta 1 [(''unit'', ''C'')] fresh_driver) = Inr True \<and>
   fst (publish_loop [item_A, item_a] 0 fresh_historian) = Inr 2"
proof -
  have 1: "\<exists>b d'. insert_data 100 1 ''1'' fresh_driver = (Inr b, d')"
    and 2: "\<exists>b d'. insert_meta 1 [(''unit'', ''C'')] fresh_driver = (Inr b, d')"
    and 3: "\<exists>b d'. update_meta 1 [(''unit'', ''C'')] fresh_driver = (Inr b, d')"
    and 4: "\<exists>b d'. update_topic ''a'' 1 None fresh_driver = (Inr b, d')"
    and 5: "\<exists>b d'. insert_agg_meta 1 [(''unit'', ''C'')] fresh_driver = (Inr b, d')"
    by (auto simp: model_defs insert_agg_meta_def fresh_driver_def quiet_backend_def)
  have 6: "\<exists>n h'. publish_loop [item_A, item_a] 0 fresh_historian = (Inr n, h')"
    by (simp add: model_defs fresh_historian_def fresh_driver_def item_A_def item_a_def
        quiet_backend_def lower_A)
  from 1 2 3 4 5 6 show ?thesis
    using writes_return_true_and_all_counted[where d=fresh_driver and h=fresh_historian
        and xs="[item_A, item_a]" and ts=100 and i=1 and v="''1''" and m="[(''unit'', ''C'')]"
        and t="''a''" and mo=None]
    by fastforce
qed

end
